(* ===== verification/Prelude.thy ===== *)
theory Prelude
  imports Main "HOL-Library.Word" "HOL-Library.Multiset"
begin

text \<open>
  Shared material of the development: the machine integers of the runtime, the
  result type of fallible operations, decimal printing, and the generic lemmas
  on lists that the component theories use.

  Signed 64-bit integers are represented by \<^typ>\<open>int\<close> together with the range
  predicate \<open>in_i64\<close> and the two's-complement wrap-around \<open>wrap_i64\<close>; unsigned
  words (hashes, bytes) are \<^typ>\<open>64 word\<close> and \<^typ>\<open>8 word\<close>.
\<close>

named_theorems om_simps \<open>abstraction equations of the ordered map\<close>
named_theorems heap_simps \<open>equations of the reference-counted heap\<close>
named_theorems abi_defs \<open>definitions of the C-ABI entry points\<close>

type_synonym i64 = int
type_synonym u64 = "64 word"
type_synonym u8 = "8 word"
type_synonym 'a rresult = "string + 'a"

abbreviation Ok :: "'a \<Rightarrow> 'a rresult" where "Ok \<equiv> Inr"
abbreviation Err :: "string \<Rightarrow> 'a rresult" where "Err \<equiv> Inl"

definition i64_min :: int where "i64_min = - (2 ^ 63)"
definition i64_max :: int where "i64_max = 2 ^ 63 - 1"

definition in_i64 :: "int \<Rightarrow> bool" where
  "in_i64 x \<longleftrightarrow> i64_min \<le> x \<and> x \<le> i64_max"

definition wrap_i64 :: "int \<Rightarrow> int" where
  "wrap_i64 x = (x + 2 ^ 63) mod 2 ^ 64 - 2 ^ 63"

lemma in_i64_wrap: "in_i64 (wrap_i64 x)"
  unfolding in_i64_def wrap_i64_def i64_min_def i64_max_def
  using pos_mod_bound [of "2 ^ 64" "x + 2 ^ 63"] pos_mod_sign [of "2 ^ 64" "x + 2 ^ 63"]
  by simp

lemma wrap_i64_id: "in_i64 x \<Longrightarrow> wrap_i64 x = x"
  by (simp add: in_i64_def wrap_i64_def i64_min_def i64_max_def)

lemma wrap_i64_cong: "wrap_i64 x mod 2 ^ 64 = x mod 2 ^ 64"
  unfolding wrap_i64_def by (simp add: mod_diff_left_eq)

text \<open>Rust's truncating division and remainder on signed integers.\<close>

definition tdiv :: "int \<Rightarrow> int \<Rightarrow> int" where
  "tdiv a b = sgn a * sgn b * (\<bar>a\<bar> div \<bar>b\<bar>)"

definition trem :: "int \<Rightarrow> int \<Rightarrow> int" where
  "trem a b = a - b * tdiv a b"

text \<open>Decimal printing, as \<open>format!("{}")\<close> writes integers.\<close>

definition digit_char :: "nat \<Rightarrow> char" where
  "digit_char d = char_of (48 + d)"

fun show_nat :: "nat \<Rightarrow> string" where
  "show_nat n = (if n < 10 then [digit_char n]
                 else show_nat (n div 10) @ [digit_char (n mod 10)])"

declare show_nat.simps [simp del]

definition show_int :: "int \<Rightarrow> string" where
  "show_int i = (if i < 0 then CHR ''-'' # show_nat (nat (- i)) else show_nat (nat i))"

fun join :: "'a list \<Rightarrow> 'a list list \<Rightarrow> 'a list" where
  "join sep [] = []"
| "join sep [x] = x"
| "join sep (x # y # xs) = x @ sep @ join sep (y # xs)"

lemma find_SomeD: "find P xs = Some x \<Longrightarrow> x \<in> set xs \<and> P x"
  by (auto simp: find_Some_iff)

subsection \<open>Three-way comparison\<close>

datatype ordering = Less | Equal | Greater

fun swap_ord :: "ordering \<Rightarrow> ordering" where
  "swap_ord Less = Greater" | "swap_ord Equal = Equal" | "swap_ord Greater = Less"

definition cmp_of :: "'a::linorder \<Rightarrow> 'a \<Rightarrow> ordering" where
  "cmp_of a b = (if a < b then Less else if a = b then Equal else Greater)"

fun then_with :: "ordering \<Rightarrow> ordering \<Rightarrow> ordering" where
  "then_with Equal o2 = o2" | "then_with o1 o2 = o1"

text \<open>Lexicographic comparison, as \<open>Vec\<close> and slices compare.\<close>

fun lex_cmp :: "('a \<Rightarrow> 'b \<Rightarrow> ordering) \<Rightarrow> 'a list \<Rightarrow> 'b list \<Rightarrow> ordering" where
  "lex_cmp f [] [] = Equal"
| "lex_cmp f [] (y # ys) = Less"
| "lex_cmp f (x # xs) [] = Greater"
| "lex_cmp f (x # xs) (y # ys) = then_with (f x y) (lex_cmp f xs ys)"

lemma lex_cmp_cong [fundef_cong]:
  "xs = xs' \<Longrightarrow> ys = ys' \<Longrightarrow> (\<And>x y. x \<in> set xs' \<Longrightarrow> y \<in> set ys' \<Longrightarrow> f x y = g x y) \<Longrightarrow>
     lex_cmp f xs ys = lex_cmp g xs' ys'"
proof (induction f xs ys arbitrary: xs' ys' rule: lex_cmp.induct)
  case (4 f x xs y ys)
  have "lex_cmp f xs ys = lex_cmp g xs ys" using "4.IH" "4.prems" by auto
  then show ?case using "4.prems" by auto
qed auto

text \<open>The stable sort of \<open>slice::sort_by\<close>, by insertion.\<close>

fun insort_by :: "('a \<Rightarrow> 'a \<Rightarrow> ordering) \<Rightarrow> 'a \<Rightarrow> 'a list \<Rightarrow> 'a list" where
  "insort_by f x [] = [x]"
| "insort_by f x (y # ys) = (if f x y = Greater then y # insort_by f x ys else x # y # ys)"

definition sort_by :: "('a \<Rightarrow> 'a \<Rightarrow> ordering) \<Rightarrow> 'a list \<Rightarrow> 'a list" where
  "sort_by f xs = foldr (insort_by f) xs []"

lemma mset_insort_by [simp]: "mset (insort_by f x ys) = add_mset x (mset ys)"
  by (induction ys) auto

lemma set_insort_by [simp]: "set (insort_by f x ys) = insert x (set ys)"
  by (induction ys) auto

lemma sort_by_simps [simp]:
  "sort_by f [] = []" "sort_by f (x # xs) = insort_by f x (sort_by f xs)"
  by (simp_all add: sort_by_def)

lemma mset_sort_by [simp]: "mset (sort_by f xs) = mset xs"
  by (induction xs) auto

lemma set_sort_by [simp]: "set (sort_by f xs) = set xs"
  by (metis mset_sort_by set_mset_mset)

lemma insort_by_cong:
  "(\<And>y. y \<in> set ys \<Longrightarrow> f x y = g x y) \<Longrightarrow> insort_by f x ys = insort_by g x ys"
  by (induction ys) auto

lemma sort_by_cong [fundef_cong]:
  assumes "xs = xs'" "\<And>x y. x \<in> set xs' \<Longrightarrow> y \<in> set xs' \<Longrightarrow> f x y = g x y"
  shows "sort_by f xs = sort_by g xs'"
proof -
  have "(\<And>x y. x \<in> set xs' \<Longrightarrow> y \<in> set xs' \<Longrightarrow> f x y = g x y) \<Longrightarrow> sort_by f xs' = sort_by g xs'"
    by (induction xs') (auto intro!: insort_by_cong)
  then show ?thesis using assms by simp
qed

subsection \<open>What a value feeds to a hasher\<close>

text \<open>
  One constructor per kind of call the \<open>Hash\<close> implementations make on a \<open>Hasher\<close>: a
  discriminant, a length prefix, an integer of a given width, raw bytes, a string.
\<close>

datatype hash_token =
    HDiscr nat | HLen nat | HU8 u8 | HU32 "32 word" | HI64 int | HU64 u64
  | HBytes "u8 list" | HStr string

end
