(* ===== verification/Runtime_Panic.thy ===== *)
theory Runtime_Panic
  imports Prelude
begin

text \<open>
  Runtime failure codes (\<open>src/src/panic.rs\<close>) and the assertion entry point
  (\<open>src/src/assert.rs\<close>). A terminating failure is the value of type \<open>exit_report\<close>:
  the lines written to standard error and the exit status.
\<close>

datatype runtime_error_code =
    IndexOutOfBounds | KeyNotFound | DivisionByZero | AssertionFailed
  | WhereConstraintViolation | IntegerOverflow | InternalRuntime

fun code_repr :: "runtime_error_code \<Rightarrow> int" where
  "code_repr IndexOutOfBounds = 600"
| "code_repr KeyNotFound = 601"
| "code_repr DivisionByZero = 602"
| "code_repr AssertionFailed = 603"
| "code_repr WhereConstraintViolation = 604"
| "code_repr IntegerOverflow = 605"
| "code_repr InternalRuntime = 699"

fun as_str :: "runtime_error_code \<Rightarrow> string" where
  "as_str IndexOutOfBounds = ''E0600''"
| "as_str KeyNotFound = ''E0601''"
| "as_str DivisionByZero = ''E0602''"
| "as_str AssertionFailed = ''E0603''"
| "as_str WhereConstraintViolation = ''E0604''"
| "as_str IntegerOverflow = ''E0605''"
| "as_str InternalRuntime = ''E0699''"

definition all_codes :: "runtime_error_code list" where
  "all_codes = [IndexOutOfBounds, KeyNotFound, DivisionByZero, AssertionFailed,
     WhereConstraintViolation, IntegerOverflow, InternalRuntime]"

definition from_ffi :: "int \<Rightarrow> runtime_error_code" where
  "from_ffi value =
     (if value = 600 then IndexOutOfBounds
      else if value = 601 then KeyNotFound
      else if value = 602 then DivisionByZero
      else if value = 603 then AssertionFailed
      else if value = 604 then WhereConstraintViolation
      else if value = 605 then IntegerOverflow
      else InternalRuntime)"

record exit_report =
  stderr_lines :: "string list"
  exit_status :: int

definition emit_panic :: "runtime_error_code \<Rightarrow> string \<Rightarrow> string option \<Rightarrow> exit_report" where
  "emit_panic code message loc =
     \<lparr> stderr_lines = (''panic['' @ as_str code @ '']: '' @ message) #
         (case loc of None \<Rightarrow> [] | Some l \<Rightarrow> [''--> '' @ l]),
       exit_status = 1 \<rparr>"

definition panic_with_message :: "string \<Rightarrow> exit_report" where
  "panic_with_message msg = emit_panic InternalRuntime msg None"

definition panic_with_code :: "runtime_error_code \<Rightarrow> string \<Rightarrow> exit_report" where
  "panic_with_code code msg = emit_panic code msg None"

text \<open>C strings reach the model decoded: \<^term>\<open>None\<close> is the null pointer.\<close>

definition mux_panic_cstr_code :: "int \<Rightarrow> string option \<Rightarrow> string option \<Rightarrow> exit_report" where
  "mux_panic_cstr_code code msg loc =
     emit_panic (from_ffi code) (case msg of None \<Rightarrow> ''(no message)'' | Some m \<Rightarrow> m) loc"

definition mux_panic_index_oob :: "i64 \<Rightarrow> u64 \<Rightarrow> string option \<Rightarrow> exit_report" where
  "mux_panic_index_oob index len loc =
     emit_panic IndexOutOfBounds
       (''list index out of bounds: index '' @ show_int index @ '', length '' @ show_nat (unat len))
       loc"

text \<open>The printed form of the key is the argument \<open>key_text\<close>; \<^term>\<open>None\<close> is a null key.\<close>

definition mux_panic_key_not_found :: "string option \<Rightarrow> string option \<Rightarrow> exit_report" where
  "mux_panic_key_not_found key_text loc =
     emit_panic KeyNotFound
       (''key not found in map: key '' @ (case key_text of None \<Rightarrow> ''(unknown)'' | Some t \<Rightarrow> t))
       loc"

text \<open>\<^term>\<open>None\<close> is the normal return of the assertion.\<close>

definition mux_assert :: "int \<Rightarrow> string option \<Rightarrow> exit_report option" where
  "mux_assert condition message =
     (if condition \<noteq> 0 then None
      else Some (panic_with_code AssertionFailed
        (''assertion failed: '' @
           (case message of None \<Rightarrow> ''(no assertion message)'' | Some m \<Rightarrow> m))))"

lemma all_codes_complete: "c \<in> set all_codes"
  by (cases c) (simp_all add: all_codes_def)

lemma as_str_inj: "as_str c = as_str d \<longleftrightarrow> c = d"
  by (cases c; cases d) simp_all

end
