(* ===== verification/Hash_Table.thy ===== *)
theory Hash_Table
  imports Prelude
begin

text \<open>
  The interface of the \<open>hashbrown::HashTable\<close> crate as the ordered map uses it.
  The crate is not part of the repository, so a table is an arbitrary type
  \<open>'t\<close>, its operations are the fields of a record that the ordered map takes as an
  argument, and what the code relies on is the locale \<open>hash_table\<close>: the table holds a
  multiset of pairs of a hash and a slab index; a search for a hash finds an entry that
  satisfies the predicate whenever an entry filed under that hash does; a rehashing
  insertion keeps every entry if the hasher argument reproduces the stored hashes.
  \<open>list_table\<close> is a reference instance that satisfies the interface.
\<close>

record 't ht_ops =
  ht_new :: 't
  ht_find :: "'t \<Rightarrow> u64 \<Rightarrow> (nat \<Rightarrow> bool) \<Rightarrow> nat option"
  ht_insert_unique :: "'t \<Rightarrow> u64 \<Rightarrow> nat \<Rightarrow> (nat \<Rightarrow> u64) \<Rightarrow> 't"
  ht_remove_entry :: "'t \<Rightarrow> u64 \<Rightarrow> (nat \<Rightarrow> bool) \<Rightarrow> 't"
  ht_clear :: "'t \<Rightarrow> 't"

locale hash_table =
  fixes T :: "'t ht_ops"
    and entries :: "'t \<Rightarrow> (u64 \<times> nat) multiset"
  assumes new_entries: "entries (ht_new T) = {#}"
    and find_sound: "ht_find T t h p = Some i \<Longrightarrow> p i \<and> (\<exists>h'. (h', i) \<in># entries t)"
    and find_complete: "ht_find T t h p = None \<Longrightarrow> (h, i) \<in># entries t \<Longrightarrow> \<not> p i"
    and insert_entries: "hasher i = h \<Longrightarrow> (\<And>h' j. (h', j) \<in># entries t \<Longrightarrow> hasher j = h') \<Longrightarrow>
           entries (ht_insert_unique T t h i hasher) = add_mset (h, i) (entries t)"
    and remove_entries: "(h, i) \<in># entries t \<Longrightarrow> p i \<Longrightarrow>
           \<exists>h' j. (h', j) \<in># entries t \<and> p j \<and>
             entries (ht_remove_entry T t h p) = entries t - {#(h', j)#}"
    and clear_entries: "entries (ht_clear T t) = {#}"
begin

lemma find_unique:
  assumes "(h, i) \<in># entries t" "p i"
    and "\<And>h' j. (h', j) \<in># entries t \<Longrightarrow> p j \<Longrightarrow> j = i"
  shows "ht_find T t h p = Some i"
proof (cases "ht_find T t h p")
  case None
  then show ?thesis using find_complete assms(1,2) by blast
next
  case (Some j)
  then show ?thesis using find_sound assms(3) by blast
qed

lemma find_none:
  assumes "\<And>h' j. (h', j) \<in># entries t \<Longrightarrow> \<not> p j"
  shows "ht_find T t h p = None"
  using find_sound assms by (cases "ht_find T t h p") blast+

lemma remove_unique:
  assumes "(h, i) \<in># entries t" "p i"
    and "\<And>h' j. (h', j) \<in># entries t \<Longrightarrow> p j \<Longrightarrow> h' = h \<and> j = i"
  shows "entries (ht_remove_entry T t h p) = entries t - {#(h, i)#}"
  using remove_entries [of h i t p] assms by fastforce

end

definition list_find :: "(u64 \<times> nat) list \<Rightarrow> u64 \<Rightarrow> (nat \<Rightarrow> bool) \<Rightarrow> nat option" where
  "list_find t h p = map_option snd (find (\<lambda>(h', i). h' = h \<and> p i) t)"

fun list_remove :: "(u64 \<times> nat) list \<Rightarrow> u64 \<Rightarrow> (nat \<Rightarrow> bool) \<Rightarrow> (u64 \<times> nat) list" where
  "list_remove [] h p = []"
| "list_remove ((h', i) # t) h p =
     (if h' = h \<and> p i then t else (h', i) # list_remove t h p)"

text \<open>An insertion rehashes the whole table, the hardest case the interface allows.\<close>

definition list_table :: "(u64 \<times> nat) list ht_ops" where
  "list_table = \<lparr> ht_new = [], ht_find = list_find,
     ht_insert_unique = (\<lambda>t h i hasher. (h, i) # map (\<lambda>(_, j). (hasher j, j)) t),
     ht_remove_entry = list_remove, ht_clear = (\<lambda>_. []) \<rparr>"

lemma list_remove_mset:
  "(h, i) \<in> set t \<Longrightarrow> p i \<Longrightarrow>
     \<exists>j. (h, j) \<in> set t \<and> p j \<and> mset (list_remove t h p) = mset t - {#(h, j)#}"
proof (induction t h p rule: list_remove.induct)
  case (2 h' j t h p)
  show ?case
  proof (cases "h' = h \<and> p j")
    case True
    then show ?thesis by auto
  next
    case False
    then have "(h, i) \<in> set t" using "2.prems" by auto
    with "2.IH" [OF False this] "2.prems" obtain j' where
      "(h, j') \<in> set t" "p j'" "mset (list_remove t h p) = mset t - {#(h, j')#}" by blast
    then show ?thesis using False by (intro exI [of _ j']) (auto simp: in_multiset_in_set)
  qed
qed simp

interpretation list_table: hash_table list_table mset
proof unfold_locales
  show "mset (ht_insert_unique list_table t h i hasher) = add_mset (h, i) (mset t)"
    if "hasher i = h" "\<And>h' j. (h', j) \<in># mset t \<Longrightarrow> hasher j = h'" for hasher i h t
  proof -
    have "map (\<lambda>(_, j). (hasher j, j)) t = t"
      by (rule map_idI) (use that(2) in auto)
    then show ?thesis by (simp add: list_table_def)
  qed
  show "p i \<and> (\<exists>h'. (h', i) \<in># mset t)"
    if "ht_find list_table t h p = Some i" for t h p i
    using that by (auto simp: list_table_def list_find_def dest!: find_SomeD)
  show "\<exists>h' j. (h', j) \<in># mset t \<and> p j \<and>
      mset (ht_remove_entry list_table t h p) = mset t - {#(h', j)#}"
    if "(h, i) \<in># mset t" "p i" for h i t p
    using list_remove_mset [of h i t p] that by (auto simp: list_table_def)
qed (auto simp: list_table_def list_find_def find_None_iff)

end
