(* ===== verification/Ordered_Map.thy ===== *)
theory Ordered_Map
  imports Hash_Table
begin

text \<open>
  The insertion-ordered hash map of \<open>src/src/ordered.rs\<close>: a slab of slots, a doubly
  linked list of slab indices threaded through the occupied slots for the iteration
  order, a singly linked list through the free slots, and a hash table from key hashes to
  slab indices. The hash table operations, the hasher and the key equality are the fields
  of the argument \<open>C\<close>. Every operation is total: where the source answers an
  inconsistent slab with \<open>None\<close> or leaves a slot alone, the definition has that branch.
\<close>

datatype ('k, 'v) slot =
    Occupied 'k 'v "nat option" "nat option"  \<comment> \<open>key, value, prev, next\<close>
  | Free "nat option"                          \<comment> \<open>next free slot\<close>

record ('k, 't) om_cfg =
  cfg_ops :: "'t ht_ops"
  cfg_hash :: "'k \<Rightarrow> u64"
  cfg_eq :: "'k \<Rightarrow> 'k \<Rightarrow> bool"

record ('k, 'v, 't) ordered_map =
  om_table :: 't
  om_slab :: "('k, 'v) slot list"
  om_head :: "nat option"
  om_tail :: "nat option"
  om_free_head :: "nat option"
  om_len :: nat

definition om_new :: "('k, 't) om_cfg \<Rightarrow> ('k, 'v, 't) ordered_map" where
  "om_new C = \<lparr> om_table = ht_new (cfg_ops C), om_slab = [], om_head = None,
     om_tail = None, om_free_head = None, om_len = 0 \<rparr>"

text \<open>\<open>slice::get\<close>, with the out-of-range read made explicit.\<close>

definition slab_get :: "('k, 'v) slot list \<Rightarrow> nat \<Rightarrow> ('k, 'v) slot option" where
  "slab_get xs i = (if i < length xs then Some (xs ! i) else None)"

definition entry_at :: "('k, 'v, 't) ordered_map \<Rightarrow> nat \<Rightarrow> ('k \<times> 'v \<times> nat option) option" where
  "entry_at m index = (case slab_get (om_slab m) index of
       Some (Occupied k v p n) \<Rightarrow> Some (k, v, n)
     | _ \<Rightarrow> None)"

definition key_at :: "('k, 'v, 't) ordered_map \<Rightarrow> nat \<Rightarrow> 'k option" where
  "key_at m index = map_option fst (entry_at m index)"

definition om_is_empty :: "('k, 'v, 't) ordered_map \<Rightarrow> bool" where
  "om_is_empty m \<longleftrightarrow> om_len m = 0"

definition key_matches :: "('k, 't) om_cfg \<Rightarrow> ('k, 'v, 't) ordered_map \<Rightarrow> 'k \<Rightarrow> nat \<Rightarrow> bool" where
  "key_matches C m key i = (case key_at m i of None \<Rightarrow> False | Some k \<Rightarrow> cfg_eq C k key)"

definition index_of_hashed ::
  "('k, 't) om_cfg \<Rightarrow> ('k, 'v, 't) ordered_map \<Rightarrow> u64 \<Rightarrow> 'k \<Rightarrow> nat option" where
  "index_of_hashed C m h key = ht_find (cfg_ops C) (om_table m) h (key_matches C m key)"

definition index_of :: "('k, 't) om_cfg \<Rightarrow> ('k, 'v, 't) ordered_map \<Rightarrow> 'k \<Rightarrow> nat option" where
  "index_of C m key = index_of_hashed C m (cfg_hash C key) key"

definition om_get :: "('k, 't) om_cfg \<Rightarrow> ('k, 'v, 't) ordered_map \<Rightarrow> 'k \<Rightarrow> 'v option" where
  "om_get C m key = (case index_of C m key of
       None \<Rightarrow> None
     | Some index \<Rightarrow> map_option (\<lambda>(_, v, _). v) (entry_at m index))"

text \<open>\<open>get_mut\<close>: writing \<open>f\<close> of the old value through the returned reference.\<close>

definition om_get_mut ::
  "('k, 't) om_cfg \<Rightarrow> ('k, 'v, 't) ordered_map \<Rightarrow> 'k \<Rightarrow> ('v \<Rightarrow> 'v) \<Rightarrow> bool \<times> ('k, 'v, 't) ordered_map" where
  "om_get_mut C m key f = (case index_of C m key of
       None \<Rightarrow> (False, m)
     | Some index \<Rightarrow> (case slab_get (om_slab m) index of
           Some (Occupied k v p n) \<Rightarrow>
             (True, m\<lparr>om_slab := (om_slab m)[index := Occupied k (f v) p n]\<rparr>)
         | _ \<Rightarrow> (False, m)))"

definition om_contains_key :: "('k, 't) om_cfg \<Rightarrow> ('k, 'v, 't) ordered_map \<Rightarrow> 'k \<Rightarrow> bool" where
  "om_contains_key C m key = (index_of C m key \<noteq> None)"

definition alloc_slot ::
  "('k, 'v, 't) ordered_map \<Rightarrow> ('k, 'v) slot \<Rightarrow> nat \<times> ('k, 'v, 't) ordered_map" where
  "alloc_slot m slot = (case om_free_head m of
       Some index \<Rightarrow> (case slab_get (om_slab m) index of
           Some (Free next_free) \<Rightarrow>
             (index, m\<lparr>om_free_head := next_free, om_slab := (om_slab m)[index := slot]\<rparr>)
         | _ \<Rightarrow> (length (om_slab m), m\<lparr>om_free_head := None, om_slab := om_slab m @ [slot]\<rparr>))
     | None \<Rightarrow> (length (om_slab m), m\<lparr>om_slab := om_slab m @ [slot]\<rparr>))"

definition set_next :: "('k, 'v) slot list \<Rightarrow> nat \<Rightarrow> nat option \<Rightarrow> ('k, 'v) slot list" where
  "set_next xs i n' = (case slab_get xs i of
       Some (Occupied k v p n) \<Rightarrow> xs[i := Occupied k v p n']
     | _ \<Rightarrow> xs)"

definition set_prev :: "('k, 'v) slot list \<Rightarrow> nat \<Rightarrow> nat option \<Rightarrow> ('k, 'v) slot list" where
  "set_prev xs i p' = (case slab_get xs i of
       Some (Occupied k v p n) \<Rightarrow> xs[i := Occupied k v p' n]
     | _ \<Rightarrow> xs)"

definition slot_hash :: "('k, 't) om_cfg \<Rightarrow> ('k, 'v) slot list \<Rightarrow> nat \<Rightarrow> u64" where
  "slot_hash C xs i = (case slab_get xs i of Some (Occupied k v p n) \<Rightarrow> cfg_hash C k | _ \<Rightarrow> 0)"

definition replace_value ::
  "('k, 'v, 't) ordered_map \<Rightarrow> nat option \<Rightarrow> 'v \<Rightarrow> ('v \<times> ('k, 'v, 't) ordered_map) option" where
  "replace_value m found value = (case found of
       None \<Rightarrow> None
     | Some index \<Rightarrow> (case slab_get (om_slab m) index of
           Some (Occupied k v p n) \<Rightarrow>
             Some (v, m\<lparr>om_slab := (om_slab m)[index := Occupied k value p n]\<rparr>)
         | _ \<Rightarrow> None))"

definition push_entry ::
  "('k, 't) om_cfg \<Rightarrow> ('k, 'v, 't) ordered_map \<Rightarrow> u64 \<Rightarrow> 'k \<Rightarrow> 'v \<Rightarrow> ('k, 'v, 't) ordered_map" where
  "push_entry C m h key value =
     (let (index, m1) = alloc_slot m (Occupied key value (om_tail m) None);
          m2 = (case om_tail m1 of
                  Some previous \<Rightarrow> m1\<lparr>om_slab := set_next (om_slab m1) previous (Some index)\<rparr>
                | None \<Rightarrow> m1\<lparr>om_head := Some index\<rparr>);
          m3 = m2\<lparr>om_tail := Some index\<rparr>;
          m4 = m3\<lparr>om_table := ht_insert_unique (cfg_ops C) (om_table m3) h index
                     (slot_hash C (om_slab m3))\<rparr>
      in m4\<lparr>om_len := om_len m4 + 1\<rparr>)"

definition om_insert ::
  "('k, 't) om_cfg \<Rightarrow> ('k, 'v, 't) ordered_map \<Rightarrow> 'k \<Rightarrow> 'v \<Rightarrow> 'v option \<times> ('k, 'v, 't) ordered_map" where
  "om_insert C m key value =
     (let h = cfg_hash C key in
      case replace_value m (index_of_hashed C m h key) value of
        Some (old, m') \<Rightarrow> (Some old, m')
      | None \<Rightarrow> (None, push_entry C m h key value))"

definition unlink ::
  "('k, 'v, 't) ordered_map \<Rightarrow> nat option \<Rightarrow> nat option \<Rightarrow> ('k, 'v, 't) ordered_map" where
  "unlink m prev nxt =
     (let m1 = (case prev of
                  Some p \<Rightarrow> m\<lparr>om_slab := set_next (om_slab m) p nxt\<rparr>
                | None \<Rightarrow> m\<lparr>om_head := nxt\<rparr>)
      in (case nxt of
            Some n \<Rightarrow> m1\<lparr>om_slab := set_prev (om_slab m1) n prev\<rparr>
          | None \<Rightarrow> m1\<lparr>om_tail := prev\<rparr>))"

definition om_remove ::
  "('k, 't) om_cfg \<Rightarrow> ('k, 'v, 't) ordered_map \<Rightarrow> 'k \<Rightarrow> 'v option \<times> ('k, 'v, 't) ordered_map" where
  "om_remove C m key =
     (let h = cfg_hash C key in
      case ht_find (cfg_ops C) (om_table m) h (key_matches C m key) of
        None \<Rightarrow> (None, m)
      | Some index \<Rightarrow>
          let m1 = m\<lparr>om_table := ht_remove_entry (cfg_ops C) (om_table m) h (\<lambda>i. i = index)\<rparr>
          in (case slab_get (om_slab m1) index of
                Some (Occupied k value prev nxt) \<Rightarrow>
                  let m2 = m1\<lparr>om_slab := (om_slab m1)[index := Free (om_free_head m1)]\<rparr>;
                      m3 = m2\<lparr>om_free_head := Some index\<rparr>;
                      m4 = unlink m3 prev nxt
                  in (Some value, m4\<lparr>om_len := om_len m4 - 1\<rparr>)
              | _ \<Rightarrow> (None, m1)))"

definition om_clear :: "('k, 't) om_cfg \<Rightarrow> ('k, 'v, 't) ordered_map \<Rightarrow> ('k, 'v, 't) ordered_map" where
  "om_clear C m = m\<lparr>om_table := ht_clear (cfg_ops C) (om_table m), om_slab := [],
     om_head := None, om_tail := None, om_free_head := None, om_len := 0\<rparr>"

subsection \<open>Iterators\<close>

record ('k, 'v) om_iter =
  it_slab :: "('k, 'v) slot list"
  it_next :: "nat option"
  it_remaining :: nat

definition om_iter :: "('k, 'v, 't) ordered_map \<Rightarrow> ('k, 'v) om_iter" where
  "om_iter m = \<lparr> it_slab = om_slab m, it_next = om_head m, it_remaining = om_len m \<rparr>"

definition iter_next :: "('k, 'v) om_iter \<Rightarrow> ('k \<times> 'v) option \<times> ('k, 'v) om_iter" where
  "iter_next it = (case it_next it of
       None \<Rightarrow> (None, it)
     | Some index \<Rightarrow> (case slab_get (it_slab it) index of
           Some (Occupied k v p n) \<Rightarrow>
             (Some (k, v), it\<lparr>it_next := n, it_remaining := it_remaining it - 1\<rparr>)
         | _ \<Rightarrow> (None, it\<lparr>it_next := None, it_remaining := 0\<rparr>)))"

text \<open>The consuming iterator takes each slot out of the slab as it walks.\<close>

definition into_iter_next :: "('k, 'v) om_iter \<Rightarrow> ('k \<times> 'v) option \<times> ('k, 'v) om_iter" where
  "into_iter_next it = (case it_next it of
       None \<Rightarrow> (None, it)
     | Some index \<Rightarrow>
         let taken = (case slab_get (it_slab it) index of Some s \<Rightarrow> s | None \<Rightarrow> Free None);
             it' = it\<lparr>it_slab := (it_slab it)[index := Free None]\<rparr>
         in (case taken of
               Occupied k v p n \<Rightarrow>
                 (Some (k, v), it'\<lparr>it_next := n, it_remaining := it_remaining it' - 1\<rparr>)
             | Free _ \<Rightarrow> (None, it'\<lparr>it_next := None, it_remaining := 0\<rparr>)))"

text \<open>
  Draining an iterator. On a corrupted slab the chain could be cyclic and the loop would
  not end, which is the value \<^term>\<open>None\<close>.
\<close>

partial_function (option) drain ::
  "('s \<Rightarrow> 'a option \<times> 's) \<Rightarrow> 's \<Rightarrow> 'a list option" where
  "drain nxt s = (case nxt s of
       (None, _) \<Rightarrow> Some []
     | (Some x, s') \<Rightarrow> Option.bind (drain nxt s') (\<lambda>xs. Some (x # xs)))"

declare drain.simps [code]

definition om_entries :: "('k, 'v, 't) ordered_map \<Rightarrow> ('k \<times> 'v) list" where
  "om_entries m = (case drain iter_next (om_iter m) of None \<Rightarrow> [] | Some es \<Rightarrow> es)"

definition om_keys :: "('k, 'v, 't) ordered_map \<Rightarrow> 'k list" where
  "om_keys m = map fst (om_entries m)"

definition om_values :: "('k, 'v, 't) ordered_map \<Rightarrow> 'v list" where
  "om_values m = map snd (om_entries m)"

fun om_extend ::
  "('k, 't) om_cfg \<Rightarrow> ('k, 'v, 't) ordered_map \<Rightarrow> ('k \<times> 'v) list \<Rightarrow> ('k, 'v, 't) ordered_map" where
  "om_extend C m [] = m"
| "om_extend C m ((k, v) # kvs) = om_extend C (snd (om_insert C m k v)) kvs"

definition om_from_iter :: "('k, 't) om_cfg \<Rightarrow> ('k \<times> 'v) list \<Rightarrow> ('k, 'v, 't) ordered_map" where
  "om_from_iter C kvs = om_extend C (om_new C) kvs"

definition om_eq ::
  "('k, 't) om_cfg \<Rightarrow> ('v \<Rightarrow> 'v \<Rightarrow> bool) \<Rightarrow> ('k, 'v, 't) ordered_map \<Rightarrow> ('k, 'v, 't) ordered_map \<Rightarrow> bool" where
  "om_eq C veq m other \<longleftrightarrow>
     om_len m = om_len other \<and>
     list_all (\<lambda>(k, v). case om_get C other k of None \<Rightarrow> False | Some ov \<Rightarrow> veq ov v) (om_entries m)"

text \<open>
  \<open>Ord\<close> sorts both entry lists by key and compares them as vectors of pairs. \<open>Hash\<close> adds up
  one fixed-key hash \<open>dh\<close> per entry; \<open>kt\<close> and \<open>vt\<close> are what a key and a value feed to it.
\<close>

definition pair_cmp ::
  "('k \<Rightarrow> 'k \<Rightarrow> ordering) \<Rightarrow> ('v \<Rightarrow> 'v \<Rightarrow> ordering) \<Rightarrow> 'k \<times> 'v \<Rightarrow> 'k \<times> 'v \<Rightarrow> ordering" where
  "pair_cmp kcmp vcmp e e' = then_with (kcmp (fst e) (fst e')) (vcmp (snd e) (snd e'))"

definition entries_cmp ::
  "('k \<Rightarrow> 'k \<Rightarrow> ordering) \<Rightarrow> ('v \<Rightarrow> 'v \<Rightarrow> ordering) \<Rightarrow> ('k \<times> 'v) list \<Rightarrow> ('k \<times> 'v) list \<Rightarrow> ordering" where
  "entries_cmp kcmp vcmp xs ys =
     lex_cmp (pair_cmp kcmp vcmp) (sort_by (\<lambda>a b. kcmp (fst a) (fst b)) xs)
       (sort_by (\<lambda>a b. kcmp (fst a) (fst b)) ys)"

definition om_cmp ::
  "('k \<Rightarrow> 'k \<Rightarrow> ordering) \<Rightarrow> ('v \<Rightarrow> 'v \<Rightarrow> ordering) \<Rightarrow>
     ('k, 'v, 't) ordered_map \<Rightarrow> ('k, 'v, 't) ordered_map \<Rightarrow> ordering" where
  "om_cmp kcmp vcmp m other = entries_cmp kcmp vcmp (om_entries m) (om_entries other)"

definition entries_hash ::
  "(hash_token list \<Rightarrow> u64) \<Rightarrow> ('k \<Rightarrow> hash_token list) \<Rightarrow> ('v \<Rightarrow> hash_token list) \<Rightarrow>
     ('k \<times> 'v) list \<Rightarrow> u64" where
  "entries_hash dh kt vt es =
     foldl (\<lambda>combined e. combined + dh (kt (fst e) @ vt (snd e))) 0 es"

definition om_hash ::
  "(hash_token list \<Rightarrow> u64) \<Rightarrow> ('k \<Rightarrow> hash_token list) \<Rightarrow> ('v \<Rightarrow> hash_token list) \<Rightarrow>
     ('k, 'v, 't) ordered_map \<Rightarrow> hash_token list" where
  "om_hash dh kt vt m = [HLen (om_len m), HU64 (entries_hash dh kt vt (om_entries m))]"

subsection \<open>Ordered sets\<close>

text \<open>An \<open>OrderedSet\<close> is an ordered map to the unit type.\<close>

type_synonym ('k, 't) ordered_set = "('k, unit, 't) ordered_map"

definition os_new :: "('k, 't) om_cfg \<Rightarrow> ('k, 't) ordered_set" where
  "os_new C = om_new C"

definition os_len :: "('k, 't) ordered_set \<Rightarrow> nat" where
  "os_len s = om_len s"

definition os_insert :: "('k, 't) om_cfg \<Rightarrow> ('k, 't) ordered_set \<Rightarrow> 'k \<Rightarrow> bool \<times> ('k, 't) ordered_set" where
  "os_insert C s value = (let (old, s') = om_insert C s value () in (old = None, s'))"

definition os_contains :: "('k, 't) om_cfg \<Rightarrow> ('k, 't) ordered_set \<Rightarrow> 'k \<Rightarrow> bool" where
  "os_contains C s value = om_contains_key C s value"

definition os_remove :: "('k, 't) om_cfg \<Rightarrow> ('k, 't) ordered_set \<Rightarrow> 'k \<Rightarrow> bool \<times> ('k, 't) ordered_set" where
  "os_remove C s value = (let (old, s') = om_remove C s value in (old \<noteq> None, s'))"

definition os_clear :: "('k, 't) om_cfg \<Rightarrow> ('k, 't) ordered_set \<Rightarrow> ('k, 't) ordered_set" where
  "os_clear C s = om_clear C s"

definition os_iter_next :: "('k, unit) om_iter \<Rightarrow> 'k option \<times> ('k, unit) om_iter" where
  "os_iter_next it = (let (r, it') = iter_next it in (map_option fst r, it'))"

definition os_into_iter_next :: "('k, unit) om_iter \<Rightarrow> 'k option \<times> ('k, unit) om_iter" where
  "os_into_iter_next it = (let (r, it') = into_iter_next it in (map_option fst r, it'))"

definition os_elems :: "('k, 't) ordered_set \<Rightarrow> 'k list" where
  "os_elems s = om_keys s"

definition os_extend :: "('k, 't) om_cfg \<Rightarrow> ('k, 't) ordered_set \<Rightarrow> 'k list \<Rightarrow> ('k, 't) ordered_set" where
  "os_extend C s xs = foldl (\<lambda>s x. snd (os_insert C s x)) s xs"

definition os_from_iter :: "('k, 't) om_cfg \<Rightarrow> 'k list \<Rightarrow> ('k, 't) ordered_set" where
  "os_from_iter C xs = os_extend C (os_new C) xs"

definition os_eq :: "('k, 't) om_cfg \<Rightarrow> ('k, 't) ordered_set \<Rightarrow> ('k, 't) ordered_set \<Rightarrow> bool" where
  "os_eq C s other \<longleftrightarrow> os_len s = os_len other \<and> list_all (os_contains C other) (os_elems s)"

definition os_cmp :: "('k \<Rightarrow> 'k \<Rightarrow> ordering) \<Rightarrow> ('k, 't) ordered_set \<Rightarrow> ('k, 't) ordered_set \<Rightarrow> ordering" where
  "os_cmp kcmp s other = lex_cmp kcmp (sort_by kcmp (os_elems s)) (sort_by kcmp (os_elems other))"

definition os_hash :: "(hash_token list \<Rightarrow> u64) \<Rightarrow> ('k \<Rightarrow> hash_token list) \<Rightarrow> ('k, 't) ordered_set \<Rightarrow> hash_token list" where
  "os_hash dh kt s = om_hash dh kt (\<lambda>_. []) s"

end
