(* ===== verification/Ordered_Map_Laws.thy ===== *)
theory Ordered_Map_Laws
  imports Ordered_Map
begin

text \<open>
  Representation invariant of the ordered map and its refinement of an association list
  kept in insertion order. The hypotheses on what the repository does not contain (the
  hash table crate, the key's \<open>Eq\<close> and \<open>Hash\<close>) are the locales \<open>hash_table\<close> and
  \<open>hash_key\<close>.
\<close>

subsection \<open>Abstract specification: association lists in insertion order\<close>

fun al_get :: "('k \<Rightarrow> 'k \<Rightarrow> bool) \<Rightarrow> ('k \<times> 'v) list \<Rightarrow> 'k \<Rightarrow> 'v option" where
  "al_get eq [] key = None"
| "al_get eq ((k, v) # es) key = (if eq k key then Some v else al_get eq es key)"

fun al_insert :: "('k \<Rightarrow> 'k \<Rightarrow> bool) \<Rightarrow> ('k \<times> 'v) list \<Rightarrow> 'k \<Rightarrow> 'v \<Rightarrow> ('k \<times> 'v) list" where
  "al_insert eq [] key value = [(key, value)]"
| "al_insert eq ((k, v) # es) key value =
     (if eq k key then (k, value) # es else (k, v) # al_insert eq es key value)"

fun al_remove :: "('k \<Rightarrow> 'k \<Rightarrow> bool) \<Rightarrow> ('k \<times> 'v) list \<Rightarrow> 'k \<Rightarrow> ('k \<times> 'v) list" where
  "al_remove eq [] key = []"
| "al_remove eq ((k, v) # es) key = (if eq k key then es else (k, v) # al_remove eq es key)"

definition keys_apart :: "('k \<Rightarrow> 'k \<Rightarrow> bool) \<Rightarrow> ('k \<times> 'v) list \<Rightarrow> bool" where
  "keys_apart eq es \<longleftrightarrow> sorted_wrt (\<lambda>e e'. \<not> eq (fst e) (fst e')) es"

lemma al_absent:
  assumes "\<forall>e \<in> set es. \<not> eq (fst e) key"
  shows "al_get eq es key = None" "al_remove eq es key = es"
    "al_insert eq es key value = es @ [(key, value)]"
  using assms by (induction es) auto

lemma al_present:
  assumes "\<forall>e \<in> set as. \<not> eq (fst e) key" "eq k key"
  shows "al_get eq (as @ (k, v) # bs) key = Some v"
    "al_remove eq (as @ (k, v) # bs) key = as @ bs"
    "al_insert eq (as @ (k, v) # bs) key value = as @ (k, value) # bs"
  using assms by (induction as) auto

lemma al_get_Some_mem:
  "al_get eq es key = Some v \<Longrightarrow> \<exists>k. (k, v) \<in> set es \<and> eq k key"
  by (induction eq es key rule: al_get.induct) (auto split: if_splits)

lemma al_get_None_iff: "al_get eq es key = None \<longleftrightarrow> (\<forall>e \<in> set es. \<not> eq (fst e) key)"
  by (induction eq es key rule: al_get.induct) auto

subsection \<open>Linked segments of the slab\<close>

text \<open>
  \<open>seg xs p c ns q n\<close>: starting from the link \<open>c\<close>, whose predecessor is \<open>p\<close>, the slab
  holds the nodes \<open>ns\<close> (index, key, value); the last node is \<open>q\<close> and its next link \<open>n\<close>.
\<close>

fun seg ::
  "('k, 'v) slot list \<Rightarrow> nat option \<Rightarrow> nat option \<Rightarrow> (nat \<times> 'k \<times> 'v) list \<Rightarrow>
     nat option \<Rightarrow> nat option \<Rightarrow> bool" where
  "seg xs p c [] q n \<longleftrightarrow> c = n \<and> p = q"
| "seg xs p c ((i, k, v) # ns) q n \<longleftrightarrow>
     c = Some i \<and> (\<exists>m. slab_get xs i = Some (Occupied k v p m) \<and> seg xs (Some i) m ns q n)"

fun free_chain :: "('k, 'v) slot list \<Rightarrow> nat option \<Rightarrow> nat list \<Rightarrow> bool" where
  "free_chain xs c [] \<longleftrightarrow> c = None"
| "free_chain xs c (f # fs) \<longleftrightarrow>
     c = Some f \<and> (\<exists>n. slab_get xs f = Some (Free n) \<and> free_chain xs n fs)"

lemma slab_get_update [simp]:
  "slab_get (xs[i := s]) j = (if j = i \<and> i < length xs then Some s else slab_get xs j)"
  by (auto simp: slab_get_def)

lemma slab_get_snoc [simp]:
  "slab_get (xs @ [s]) j = (if j = length xs then Some s else slab_get xs j)"
  by (auto simp: slab_get_def nth_append)

lemma slab_get_lt: "slab_get xs i = Some s \<Longrightarrow> i < length xs"
  by (auto simp: slab_get_def split: if_splits)

lemma set_link_length [simp]:
  "length (set_next xs i n) = length xs" "length (set_prev xs i n) = length xs"
  by (simp_all add: set_next_def set_prev_def split: option.split slot.split)

lemma set_link_other [simp]:
  "j \<noteq> i \<Longrightarrow> slab_get (set_next xs i n) j = slab_get xs j"
  "j \<noteq> i \<Longrightarrow> slab_get (set_prev xs i n) j = slab_get xs j"
  by (simp_all add: set_next_def set_prev_def split: option.split slot.split)

lemma set_link_same:
  "slab_get xs i = Some (Occupied k v p n) \<Longrightarrow>
     slab_get (set_next xs i n') i = Some (Occupied k v p n')"
  "slab_get xs i = Some (Occupied k v p n) \<Longrightarrow>
     slab_get (set_prev xs i p') i = Some (Occupied k v p' n)"
  by (auto simp: set_next_def set_prev_def dest: slab_get_lt)

lemma set_link_free [simp]:
  "slab_get (set_next xs i n') j = Some (Free f) \<longleftrightarrow> slab_get xs j = Some (Free f)"
  "slab_get (set_prev xs i n') j = Some (Free f) \<longleftrightarrow> slab_get xs j = Some (Free f)"
  by (auto simp: set_next_def set_prev_def split: option.splits slot.splits if_splits)

lemma set_link_hash [simp]:
  "slot_hash C (set_next xs i n') j = slot_hash C xs j"
  by (auto simp: slot_hash_def set_next_def split: option.splits slot.splits)

lemma seg_append:
  "seg xs p c (as @ bs) q n \<longleftrightarrow> (\<exists>q' n'. seg xs p c as q' n' \<and> seg xs q' n' bs q n)"
  by (induction xs p c as q n rule: seg.induct) auto

lemma seg_frame:
  "(\<And>i. i \<in> fst ` set ns \<Longrightarrow> slab_get ys i = slab_get xs i) \<Longrightarrow>
     seg xs p c ns q n \<Longrightarrow> seg ys p c ns q n"
  by (induction xs p c ns q n rule: seg.induct) auto

lemma seg_update_other:
  "seg xs p c ns q n \<Longrightarrow> i \<notin> fst ` set ns \<Longrightarrow> seg (xs[i := s]) p c ns q n"
  by (erule seg_frame [rotated]) (metis slab_get_update)

lemma seg_mem:
  "seg xs p c ns q n \<Longrightarrow> (i, k, v) \<in> set ns \<Longrightarrow> \<exists>p n. slab_get xs i = Some (Occupied k v p n)"
  by (induction xs p c ns q n rule: seg.induct) auto

lemma seg_last:
  "seg xs p c ns q n \<Longrightarrow> q = (if ns = [] then p else Some (fst (last ns)))"
  by (induction xs p c ns q n rule: seg.induct) auto

lemma free_chain_frame:
  "(\<And>f n. f \<in> set fs \<Longrightarrow> slab_get xs f = Some (Free n) \<Longrightarrow> slab_get ys f = Some (Free n)) \<Longrightarrow>
     free_chain xs c fs \<Longrightarrow> free_chain ys c fs"
  by (induction xs c fs rule: free_chain.induct) auto

lemma free_chain_mem: "free_chain xs c fs \<Longrightarrow> f \<in> set fs \<Longrightarrow> \<exists>n. slab_get xs f = Some (Free n)"
  by (induction xs c fs rule: free_chain.induct) auto

text \<open>Redirecting the outgoing link of a whole list, or the incoming link of a suffix.\<close>

lemma seg_relink_next:
  assumes "seg xs None c ns q n" "distinct (map fst ns)"
  shows "case q of None \<Rightarrow> seg xs None n' ns q n'
                 | Some a \<Rightarrow> seg (set_next xs a n') None c ns q n'"
proof (cases ns rule: rev_cases)
  case Nil
  then show ?thesis using assms by auto
next
  case (snoc as e)
  obtain a k v where e: "e = (a, k, v)" by (cases e)
  from assms snoc e obtain q' where
    as: "seg xs None c as q' (Some a)" and
    a: "slab_get xs a = Some (Occupied k v q' n)" "q = Some a" and "a \<notin> fst ` set as"
    by (auto simp: seg_append)
  then have "seg (set_next xs a n') None c as q' (Some a)"
    by (intro seg_frame [OF _ as]) (metis set_link_other(1))
  then show ?thesis using a snoc e by (auto simp: seg_append set_link_same)
qed

lemma seg_relink_prev:
  assumes "seg xs p c ns q None" "distinct (map fst ns)"
  shows "case c of None \<Rightarrow> seg xs p' c ns p' None
                 | Some b \<Rightarrow> seg (set_prev xs b p') p' c ns q None"
proof (cases ns)
  case Nil
  then show ?thesis using assms by auto
next
  case (Cons e bs)
  obtain b k v where e: "e = (b, k, v)" by (cases e)
  from assms Cons e obtain m where
    b: "slab_get xs b = Some (Occupied k v p m)" "c = Some b" and
    bs: "seg xs (Some b) m bs q None" and "b \<notin> fst ` set bs"
    by auto
  then have "seg (set_prev xs b p') (Some b) m bs q None"
    by (intro seg_frame [OF _ bs]) (metis set_link_other(2))
  then show ?thesis using b Cons e by (auto simp: set_link_same)
qed

text \<open>Taking a node out of the list joins its two neighbours.\<close>

lemma unlink_frame [simp]:
  "length (om_slab (unlink m p n)) = length (om_slab m)"
  "slab_get (om_slab (unlink m p n)) j = Some (Free f) \<longleftrightarrow> slab_get (om_slab m) j = Some (Free f)"
  "om_table (unlink m p n) = om_table m" "om_free_head (unlink m p n) = om_free_head m"
  "om_len (unlink m p n) = om_len m"
  by (simp_all add: unlink_def Let_def split: option.splits)

lemma unlink_seg:
  assumes as: "seg (om_slab m) None (om_head m) as p x"
    and bs: "seg (om_slab m) y n bs (om_tail m) None"
    and dist: "distinct (map fst (as @ bs))"
  shows "seg (om_slab (unlink m p n)) None (om_head (unlink m p n)) (as @ bs)
           (om_tail (unlink m p n)) None"
proof -
  define xs1 where "xs1 = (case p of None \<Rightarrow> om_slab m | Some a \<Rightarrow> set_next (om_slab m) a n)"
  define h1 where "h1 = (case p of None \<Rightarrow> n | Some a \<Rightarrow> om_head m)"
  define xs2 where "xs2 = (case n of None \<Rightarrow> xs1 | Some b \<Rightarrow> set_prev xs1 b p)"
  define t2 where "t2 = (case n of None \<Rightarrow> p | Some b \<Rightarrow> om_tail m)"
  have u: "om_slab (unlink m p n) = xs2" "om_head (unlink m p n) = h1" "om_tail (unlink m p n) = t2"
    by (simp_all add: unlink_def Let_def xs1_def h1_def xs2_def t2_def split: option.splits)
  have disj: "fst ` set as \<inter> fst ` set bs = {}" using dist by simp
  have "p = Some j \<Longrightarrow> j \<in> fst ` set as" for j
    using seg_last [OF as] by (metis imageI last_in_set option.distinct(1) option.inject)
  with disj have p: "p \<noteq> Some j" if "j \<in> fst ` set bs" for j using that by blast
  have "n = Some j \<Longrightarrow> j \<in> fst ` set bs" for j
    using bs by (cases bs) auto
  with disj have n: "n \<noteq> Some j" if "j \<in> fst ` set as" for j using that by blast
  have as1: "seg xs1 None h1 as p n"
    using seg_relink_next [OF as, of n] dist by (simp add: xs1_def h1_def split: option.splits)
  have "slab_get xs1 j = slab_get (om_slab m) j" if "j \<in> fst ` set bs" for j
    using p [OF that] by (cases p) (auto simp: xs1_def)
  from seg_relink_prev [OF seg_frame [OF this bs], of p] dist
  have bs2: "seg xs2 p n bs t2 None" by (simp add: xs2_def t2_def split: option.splits)
  have "slab_get xs2 j = slab_get xs1 j" if "j \<in> fst ` set as" for j
    using n [OF that] by (cases n) (auto simp: xs2_def)
  from seg_frame [OF this as1] bs2 show ?thesis unfolding u seg_append by blast
qed

subsection \<open>Representation invariant\<close>

definition om_rep ::
  "('k, 't) om_cfg \<Rightarrow> ('t \<Rightarrow> (u64 \<times> nat) multiset) \<Rightarrow> ('k, 'v, 't) ordered_map \<Rightarrow>
     (nat \<times> 'k \<times> 'v) list \<Rightarrow> nat list \<Rightarrow> bool" where
  "om_rep C E m ns fs \<longleftrightarrow>
     seg (om_slab m) None (om_head m) ns (om_tail m) None \<and>
     free_chain (om_slab m) (om_free_head m) fs \<and>
     distinct (map fst ns) \<and> distinct fs \<and>
     fst ` set ns \<union> set fs = {..<length (om_slab m)} \<and>
     om_len m = length ns \<and>
     E (om_table m) = mset (map (\<lambda>(i, k, v). (cfg_hash C k, i)) ns) \<and>
     keys_apart (cfg_eq C) (map snd ns)"

definition om_inv ::
  "('k, 't) om_cfg \<Rightarrow> ('t \<Rightarrow> (u64 \<times> nat) multiset) \<Rightarrow> ('k, 'v, 't) ordered_map \<Rightarrow> bool" where
  "om_inv C E m \<longleftrightarrow> (\<exists>ns fs. om_rep C E m ns fs)"

lemma om_repD:
  assumes "om_rep C E m ns fs"
  shows "seg (om_slab m) None (om_head m) ns (om_tail m) None"
    "free_chain (om_slab m) (om_free_head m) fs"
    "distinct (map fst ns)" "distinct fs"
    "fst ` set ns \<union> set fs = {..<length (om_slab m)}" "om_len m = length ns"
    "E (om_table m) = mset (map (\<lambda>(i, k, v). (cfg_hash C k, i)) ns)"
    "keys_apart (cfg_eq C) (map snd ns)"
  using assms by (simp_all add: om_rep_def)

lemma om_rep_disjoint:
  assumes "om_rep C E m ns fs" "f \<in> set fs"
  shows "f \<notin> fst ` set ns"
proof
  assume "f \<in> fst ` set ns"
  then obtain k v where "(f, k, v) \<in> set ns" by force
  then obtain p n where "slab_get (om_slab m) f = Some (Occupied k v p n)"
    using seg_mem [OF om_repD(1) [OF assms(1)]] by blast
  moreover obtain n' where "slab_get (om_slab m) f = Some (Free n')"
    using free_chain_mem [OF om_repD(2) [OF assms(1)] assms(2)] by blast
  ultimately show False by simp
qed

lemma drain_seg:
  "seg (it_slab it) p (it_next it) ns q None \<Longrightarrow> drain iter_next it = Some (map snd ns)"
proof (induction ns arbitrary: p it)
  case Nil
  then show ?case by (simp add: drain.simps iter_next_def)
next
  case (Cons e ns)
  obtain i k v where e: "e = (i, k, v)" by (cases e)
  with Cons.prems obtain m where i: "it_next it = Some i"
    "slab_get (it_slab it) i = Some (Occupied k v p m)"
    "seg (it_slab it) (Some i) m ns q None" by auto
  let ?it = "it\<lparr>it_next := m, it_remaining := it_remaining it - 1\<rparr>"
  have "drain iter_next ?it = Some (map snd ns)" using i by (intro Cons.IH) auto
  then show ?case using i e by (subst drain.simps) (simp add: iter_next_def)
qed

lemma drain_into_seg:
  "seg (it_slab it) p (it_next it) ns q None \<Longrightarrow> distinct (map fst ns) \<Longrightarrow>
     drain into_iter_next it = Some (map snd ns)"
proof (induction ns arbitrary: p it)
  case Nil
  then show ?case by (simp add: drain.simps into_iter_next_def)
next
  case (Cons e ns)
  obtain i k v where e: "e = (i, k, v)" by (cases e)
  with Cons.prems obtain m where i: "it_next it = Some i"
    "slab_get (it_slab it) i = Some (Occupied k v p m)"
    "seg (it_slab it) (Some i) m ns q None" by auto
  let ?it = "it\<lparr>it_slab := (it_slab it)[i := Free None], it_next := m,
                 it_remaining := it_remaining it - 1\<rparr>"
  have "i \<notin> fst ` set ns" using Cons.prems(2) e by simp
  then have "seg ((it_slab it)[i := Free None]) (Some i) m ns q None"
    by (rule seg_update_other [OF i(3)])
  then have "drain into_iter_next ?it = Some (map snd ns)"
    using Cons.prems(2) by (intro Cons.IH) auto
  then show ?case using i e
    by (subst drain.simps) (auto simp: into_iter_next_def slab_get_lt Let_def)
qed

lemma om_rep_entries [om_simps]: "om_rep C E m ns fs \<Longrightarrow> om_entries m = map snd ns"
  using drain_seg [of "om_iter m" None ns "om_tail m"]
  by (simp add: om_entries_def om_iter_def om_rep_def)

subsection \<open>Refinement\<close>

locale hash_key =
  fixes eq :: "'k \<Rightarrow> 'k \<Rightarrow> bool"
    and hash :: "'k \<Rightarrow> u64"
  assumes eq_refl: "eq k k"
    and eq_sym: "eq k k' \<Longrightarrow> eq k' k"
    and eq_trans: "eq k k' \<Longrightarrow> eq k' k'' \<Longrightarrow> eq k k''"
    and eq_hash: "eq k k' \<Longrightarrow> hash k = hash k'"
begin

lemma keys_apart_middle:
  assumes "keys_apart eq (as @ (k, v) # bs)" "eq k key"
  shows "\<forall>e \<in> set as. \<not> eq (fst e) key" "\<forall>e \<in> set bs. \<not> eq (fst e) key"
proof -
  have apart: "\<forall>e \<in> set as. \<not> eq (fst e) k" "\<forall>e \<in> set bs. \<not> eq k (fst e)"
    using assms(1) by (auto simp: keys_apart_def sorted_wrt_append)
  show "\<forall>e \<in> set as. \<not> eq (fst e) key"
    using apart(1) eq_trans [OF _ eq_sym [OF assms(2)]] by blast
  show "\<forall>e \<in> set bs. \<not> eq (fst e) key"
    using apart(2) eq_trans [OF assms(2) eq_sym] by blast
qed

lemma keys_apart_snoc:
  "keys_apart eq es \<Longrightarrow> \<forall>e \<in> set es. \<not> eq (fst e) key \<Longrightarrow> keys_apart eq (es @ [(key, v)])"
  by (simp add: keys_apart_def sorted_wrt_append)

lemma keys_apart_replace:
  "keys_apart eq (as @ (k, v) # bs) \<Longrightarrow> keys_apart eq (as @ (k, v') # bs)"
  by (simp add: keys_apart_def sorted_wrt_append)

lemma keys_apart_drop:
  "keys_apart eq (as @ (k, v) # bs) \<Longrightarrow> keys_apart eq (as @ bs)"
  by (simp add: keys_apart_def sorted_wrt_append)

lemma al_get_apart:
  assumes "keys_apart eq es" "(k, v) \<in> set es" "eq k key"
  shows "al_get eq es key = Some v"
proof -
  from assms(2) obtain as bs where es: "es = as @ (k, v) # bs" by (auto dest: split_list)
  show ?thesis using keys_apart_middle(1) [of as k v bs key] assms(1,3)
    unfolding es by (intro al_present) auto
qed

end

locale omap = hash_table "cfg_ops C" entries + hash_key "cfg_eq C" "cfg_hash C"
  for C :: "('k, 't) om_cfg" and entries :: "'t \<Rightarrow> (u64 \<times> nat) multiset"
begin

abbreviation rep :: "('k, 'v, 't) ordered_map \<Rightarrow> (nat \<times> 'k \<times> 'v) list \<Rightarrow> nat list \<Rightarrow> bool" where
  "rep \<equiv> om_rep C entries"

lemma key_matches_node:
  assumes "rep m ns fs" "(i, k, v) \<in> set ns"
  shows "key_matches C m key i \<longleftrightarrow> cfg_eq C k key"
  using seg_mem [OF om_repD(1) [OF assms(1)] assms(2)]
  by (auto simp: key_matches_def key_at_def entry_at_def)

lemma table_mem:
  assumes "rep m ns fs"
  shows "(h, i) \<in># entries (om_table m) \<longleftrightarrow> (\<exists>k v. (i, k, v) \<in> set ns \<and> h = cfg_hash C k)"
  unfolding om_repD(7) [OF assms] 
  by (simp add: image_iff Bex_def split_paired_Ex)

text \<open>A search by hash and key finds the one node with an equal key, or nothing.\<close>

lemma lookup_present:
  assumes r: "rep m ns fs" and ns: "ns = as @ (i, k, v) # bs" and eq: "cfg_eq C k key"
  shows "index_of_hashed C m (cfg_hash C key) key = Some i"
  unfolding index_of_hashed_def
proof (rule find_unique)
  show "(cfg_hash C key, i) \<in># entries (om_table m)"
    unfolding table_mem [OF r] using ns eq_hash [OF eq] by auto
  show "key_matches C m key i" using key_matches_node [OF r, of i k v] ns eq by auto
  fix h' j assume j: "(h', j) \<in># entries (om_table m)" "key_matches C m key j"
  then obtain k' v' where j': "(j, k', v') \<in> set ns" unfolding table_mem [OF r] by blast
  with j have k': "cfg_eq C k' key" using key_matches_node [OF r] by blast
  have "keys_apart (cfg_eq C) (map snd as @ (k, v) # map snd bs)"
    using om_repD(8) [OF r] ns by simp
  from keys_apart_middle [OF this eq]
  have "\<forall>e \<in> set as. \<not> cfg_eq C (fst (snd e)) key" "\<forall>e \<in> set bs. \<not> cfg_eq C (fst (snd e)) key"
    by simp_all
  with k' have "(j, k', v') \<notin> set as" "(j, k', v') \<notin> set bs" by auto
  with j' ns show "j = i" by simp
qed

lemma lookup_absent:
  assumes r: "rep m ns fs" and no: "\<forall>e \<in> set (map snd ns). \<not> cfg_eq C (fst e) key"
  shows "index_of_hashed C m h key = None"
  unfolding index_of_hashed_def
proof (rule find_none)
  fix h' j assume "(h', j) \<in># entries (om_table m)"
  then obtain k' v' where "(j, k', v') \<in> set ns" unfolding table_mem [OF r] by blast
  then show "\<not> key_matches C m key j" using key_matches_node [OF r, of j k' v' key] no by auto
qed

lemma key_cases:
  assumes "rep m ns fs"
  obtains (absent) "\<forall>e \<in> set (map snd ns). \<not> cfg_eq C (fst e) key"
      "index_of_hashed C m (cfg_hash C key) key = None"
  | (present) as i k v bs p n where "ns = as @ (i, k, v) # bs" "cfg_eq C k key"
      "\<forall>e \<in> set (map snd as). \<not> cfg_eq C (fst e) key"
      "index_of_hashed C m (cfg_hash C key) key = Some i"
      "slab_get (om_slab m) i = Some (Occupied k v p n)"
proof (cases "\<forall>e \<in> set (map snd ns). \<not> cfg_eq C (fst e) key")
  case True
  show ?thesis by (rule absent [OF True lookup_absent [OF assms True]])
next
  case False
  then obtain i k v where e: "(i, k, v) \<in> set ns" "cfg_eq C k key" by auto
  then obtain as bs where ns: "ns = as @ (i, k, v) # bs" by (auto dest: split_list)
  obtain p n where slot: "slab_get (om_slab m) i = Some (Occupied k v p n)"
    using seg_mem [OF om_repD(1) [OF assms] e(1)] by blast
  have "\<forall>e \<in> set (map snd as). \<not> cfg_eq C (fst e) key"
    using keys_apart_middle(1) [of "map snd as" k v "map snd bs" key] om_repD(8) [OF assms] ns e
    by simp
  from present [OF ns e(2) this lookup_present [OF assms ns e(2)] slot] show ?thesis .
qed

lemma rep_new: "rep (om_new C) [] []"
  by (simp add: om_rep_def om_new_def new_entries keys_apart_def)

lemma rep_clear: "rep (om_clear C m) [] []"
  by (simp add: om_rep_def om_clear_def clear_entries keys_apart_def)

lemma get_refines:
  assumes "rep m ns fs"
  shows "om_get C m key = al_get (cfg_eq C) (map snd ns) key"
  using assms
proof (cases rule: key_cases [where key = key])
  case absent
  then show ?thesis by (simp add: om_get_def index_of_def al_absent)
next
  case (present as i k v bs p n)
  then show ?thesis
    by (simp add: om_get_def index_of_def entry_at_def al_present)
qed

lemma contains_refines:
  assumes "rep m ns fs"
  shows "om_contains_key C m key \<longleftrightarrow> al_get (cfg_eq C) (map snd ns) key \<noteq> None"
  using assms
proof (cases rule: key_cases [where key = key])
  case absent
  then show ?thesis by (simp add: om_contains_key_def index_of_def al_absent)
next
  case (present as i k v bs p n)
  then show ?thesis by (simp add: om_contains_key_def index_of_def al_present)
qed

text \<open>Overwriting the value of a live node.\<close>

lemma rep_set_value:
  assumes r: "rep m ns fs" and ns: "ns = as @ (i, k, v) # bs"
    and slot: "slab_get (om_slab m) i = Some (Occupied k v p n)"
  shows "rep (m\<lparr>om_slab := (om_slab m)[i := Occupied k v' p n]\<rparr>) (as @ (i, k, v') # bs) fs"
proof -
  let ?xs = "om_slab m" let ?ys = "?xs[i := Occupied k v' p n]"
  note d = om_repD [OF r]
  have i: "i < length ?xs" "i \<notin> fst ` set as" "i \<notin> fst ` set bs"
    using slab_get_lt [OF slot] d(3) ns by auto
  from d(1) ns slot have s: "seg ?xs None (om_head m) as p (Some i)"
    "seg ?xs (Some i) n bs (om_tail m) None" by (auto simp: seg_append)
  have "seg ?ys None (om_head m) as p (Some i)" "seg ?ys (Some i) n bs (om_tail m) None"
    using seg_update_other [OF s(1) i(2)] seg_update_other [OF s(2) i(3)] .
  then have "seg ?ys None (om_head m) (as @ (i, k, v') # bs) (om_tail m) None"
    using i(1) by (auto simp: seg_append)
  moreover have "free_chain ?ys (om_free_head m) fs"
    using om_rep_disjoint [OF r, of i] ns
    by (intro free_chain_frame [OF _ d(2)]) (auto simp: slot)
  ultimately show ?thesis using d ns keys_apart_replace [of "map snd as" k v "map snd bs" v']
    by (simp add: om_rep_def)
qed

lemma insert_present:
  assumes r: "rep m ns fs" and ns: "ns = as @ (i, k, v) # bs"
    and ix: "index_of_hashed C m (cfg_hash C key) key = Some i"
    and slot: "slab_get (om_slab m) i = Some (Occupied k v p n)"
  shows "fst (om_insert C m key value) = Some v"
    "rep (snd (om_insert C m key value)) (as @ (i, k, value) # bs) fs"
  using rep_set_value [OF r ns slot] ix slot
  by (simp_all add: om_insert_def replace_value_def Let_def)

lemma alloc_slot_spec:
  assumes r: "rep m ns fs" and al: "alloc_slot m s = (i, m1)"
  obtains fs' where "i \<notin> fst ` set ns" "slab_get (om_slab m1) i = Some s"
    "\<And>j. j \<noteq> i \<Longrightarrow> slab_get (om_slab m1) j = slab_get (om_slab m) j"
    "free_chain (om_slab m1) (om_free_head m1) fs'" "distinct fs'" "i \<notin> set fs'"
    "insert i (fst ` set ns) \<union> set fs' = {..<length (om_slab m1)}"
    "om_table m1 = om_table m" "om_head m1 = om_head m" "om_tail m1 = om_tail m"
    "om_len m1 = om_len m"
proof (cases fs)
  case Nil
  note d = om_repD [OF r]
  have fh: "om_free_head m = None" using d(2) Nil by simp
  have i: "i = length (om_slab m)" "m1 = m\<lparr>om_slab := om_slab m @ [s]\<rparr>"
    using al fh by (auto simp: alloc_slot_def)
  have "fst ` set ns = {..<i}" using d(5) Nil i by simp
  then show ?thesis using that [of "[]"] i fh by (auto simp: lessThan_Suc)
next
  case (Cons f fs')
  note d = om_repD [OF r]
  from d(2) Cons obtain n where f: "om_free_head m = Some f"
    "slab_get (om_slab m) f = Some (Free n)" "free_chain (om_slab m) n fs'" by auto
  have i: "i = f" "m1 = m\<lparr>om_free_head := n, om_slab := (om_slab m)[f := s]\<rparr>"
    using al f by (auto simp: alloc_slot_def)
  have lt: "f < length (om_slab m)" using slab_get_lt [OF f(2)] .
  have nf: "f \<notin> set fs'" "distinct fs'" using d(4) Cons by auto
  have "free_chain ((om_slab m)[f := s]) n fs'"
    using nf by (intro free_chain_frame [OF _ f(3)]) auto
  moreover have "f \<notin> fst ` set ns" using om_rep_disjoint [OF r] Cons by simp
  moreover have "insert f (fst ` set ns) \<union> set fs' = {..<length (om_slab m)}"
    using d(5) Cons by auto
  ultimately show ?thesis using that [of fs'] i nf lt by simp
qed

lemma insert_absent:
  assumes r: "rep m ns fs" and no: "\<forall>e \<in> set (map snd ns). \<not> cfg_eq C (fst e) key"
    and ix: "index_of_hashed C m (cfg_hash C key) key = None"
  shows "fst (om_insert C m key value) = None"
    "\<exists>i fs'. rep (snd (om_insert C m key value)) (ns @ [(i, key, value)]) fs'"
proof -
  show "fst (om_insert C m key value) = None"
    using ix by (simp add: om_insert_def replace_value_def Let_def)
  note d = om_repD [OF r]
  obtain i m1 where al: "alloc_slot m (Occupied key value (om_tail m) None) = (i, m1)"
    by (cases "alloc_slot m (Occupied key value (om_tail m) None)")
  obtain fs' where a: "i \<notin> fst ` set ns"
    "slab_get (om_slab m1) i = Some (Occupied key value (om_tail m) None)"
    "\<And>j. j \<noteq> i \<Longrightarrow> slab_get (om_slab m1) j = slab_get (om_slab m) j"
    "free_chain (om_slab m1) (om_free_head m1) fs'" "distinct fs'" "i \<notin> set fs'"
    "insert i (fst ` set ns) \<union> set fs' = {..<length (om_slab m1)}"
    "om_table m1 = om_table m" "om_head m1 = om_head m" "om_tail m1 = om_tail m"
    "om_len m1 = om_len m"
    by (rule alloc_slot_spec [OF r al]) blast
  define xs' where "xs' = (case om_tail m of None \<Rightarrow> om_slab m1
      | Some a \<Rightarrow> set_next (om_slab m1) a (Some i))"
  define hd' where "hd' = (case om_tail m of None \<Rightarrow> Some i | Some a \<Rightarrow> om_head m)"
  have "seg (om_slab m1) None (om_head m) ns (om_tail m) None"
    using a(1) by (intro seg_frame [OF _ d(1)]) (metis a(3))
  from seg_relink_next [OF this d(3), of "Some i"]
  have s: "seg xs' None hd' ns (om_tail m) (Some i)"
    by (simp add: xs'_def hd'_def split: option.splits)
  have tl: "om_tail m \<noteq> Some i"
    using seg_last [OF d(1)] a(1) by (auto simp: image_iff dest: last_in_set)
  then have i': "slab_get xs' i = Some (Occupied key value (om_tail m) None)"
    using a(2) by (auto simp: xs'_def split: option.splits)
  have hash': "slot_hash C xs' j = slot_hash C (om_slab m1) j" for j
    by (simp add: xs'_def split: option.splits)
  define t' where "t' = ht_insert_unique (cfg_ops C) (om_table m) (cfg_hash C key) i (slot_hash C xs')"
  have eq: "snd (om_insert C m key value) = m1\<lparr>om_slab := xs', om_head := hd', om_tail := Some i,
      om_table := t', om_len := om_len m + 1\<rparr>"
    using ix al a by (simp add: om_insert_def replace_value_def push_entry_def Let_def xs'_def
      hd'_def t'_def split: option.splits)
  have "entries t' = add_mset (cfg_hash C key, i) (entries (om_table m))"
    unfolding t'_def
  proof (rule insert_entries)
    show "slot_hash C xs' i = cfg_hash C key" using i' by (simp add: slot_hash_def)
    fix h' j assume "(h', j) \<in># entries (om_table m)"
    then obtain k v where j: "(j, k, v) \<in> set ns" "h' = cfg_hash C k"
      unfolding table_mem [OF r] by blast
    moreover have "j \<noteq> i" using j a(1) by force
    ultimately show "slot_hash C xs' j = h'"
      using seg_mem [OF d(1) j(1)] unfolding hash' by (auto simp: slot_hash_def a(3))
  qed
  moreover have "free_chain xs' (om_free_head m1) fs'"
    by (rule free_chain_frame [OF _ a(4)]) (auto simp: xs'_def split: option.splits)
  moreover have "length xs' = length (om_slab m1)" by (simp add: xs'_def split: option.splits)
  ultimately have "rep (snd (om_insert C m key value)) (ns @ [(i, key, value)]) fs'"
    using s i' a(1,5,7) d keys_apart_snoc [of "map snd ns" key "value"] no
    unfolding om_rep_def eq by (simp add: seg_append)
  then show "\<exists>i fs'. rep (snd (om_insert C m key value)) (ns @ [(i, key, value)]) fs'" by blast
qed

lemma remove_absent:
  assumes "index_of_hashed C m (cfg_hash C key) key = None"
  shows "om_remove C m key = (None, m)"
  using assms by (simp add: om_remove_def index_of_hashed_def)

lemma remove_present:
  assumes r: "rep m ns fs" and ns: "ns = as @ (i, k, v) # bs" and eq: "cfg_eq C k key"
    and ix: "index_of_hashed C m (cfg_hash C key) key = Some i"
    and slot: "slab_get (om_slab m) i = Some (Occupied k v p n)"
  shows "fst (om_remove C m key) = Some v" "rep (snd (om_remove C m key)) (as @ bs) (i # fs)"
proof -
  note d = om_repD [OF r]
  let ?t = "ht_remove_entry (cfg_ops C) (om_table m) (cfg_hash C key) (\<lambda>j. j = i)"
  let ?m = "m\<lparr>om_table := ?t, om_slab := (om_slab m)[i := Free (om_free_head m)],
              om_free_head := Some i\<rparr>"
  have om: "om_remove C m key = (Some v, (unlink ?m p n)\<lparr>om_len := om_len m - 1\<rparr>)"
    using ix slot by (simp add: om_remove_def index_of_hashed_def Let_def)
  then show "fst (om_remove C m key) = Some v" by simp
  have i: "i < length (om_slab m)" "i \<notin> fst ` set as" "i \<notin> fst ` set bs" "i \<notin> set fs"
    using slab_get_lt [OF slot] d(3) ns om_rep_disjoint [OF r, of i] by auto
  from d(1) ns slot have s: "seg (om_slab m) None (om_head m) as p (Some i)"
    "seg (om_slab m) (Some i) n bs (om_tail m) None" by (auto simp: seg_append)
  have "seg (om_slab (unlink ?m p n)) None (om_head (unlink ?m p n)) (as @ bs)
          (om_tail (unlink ?m p n)) None"
    using seg_update_other [OF s(1) i(2)] seg_update_other [OF s(2) i(3)] d(3) ns
    by (intro unlink_seg) auto
  moreover have "free_chain (om_slab (unlink ?m p n)) (Some i) (i # fs)"
  proof -
    have "free_chain (om_slab ?m) (om_free_head m) fs"
      using i(4) by (intro free_chain_frame [OF _ d(2)]) auto
    then have "free_chain (om_slab (unlink ?m p n)) (om_free_head m) fs"
      by (rule free_chain_frame [rotated]) simp
    then show ?thesis using i(1) by simp
  qed
  moreover have "entries ?t = mset (map (\<lambda>(i, k, v). (cfg_hash C k, i)) (as @ bs))"
  proof -
    have mem: "(cfg_hash C key, i) \<in># entries (om_table m)"
      unfolding table_mem [OF r] using ns eq_hash [OF eq] by auto
    have "h' = cfg_hash C key \<and> j = i"
      if h': "(h', j) \<in># entries (om_table m)" "j = i" for h' j
    proof -
      from h' obtain k' v' where "(i, k', v') \<in> set ns" "h' = cfg_hash C k'"
        unfolding table_mem [OF r] by blast
      moreover from this have "k' = k" using i(2,3) ns by force
      ultimately show ?thesis using eq_hash [OF eq] h'(2) by simp
    qed
    from remove_unique [where p = "\<lambda>j. j = i", OF mem refl this]
    have "entries ?t = entries (om_table m) - {#(cfg_hash C key, i)#}" .
    then show ?thesis using d(7) ns eq_hash [OF eq] by simp
  qed
  moreover have "fst ` set (as @ bs) \<union> set (i # fs) = {..<length (om_slab m)}"
    using d(5) ns by auto
  moreover have "keys_apart (cfg_eq C) (map snd (as @ bs))"
    using d(8) ns keys_apart_drop [of "map snd as" k v "map snd bs"] by simp
  ultimately show "rep (snd (om_remove C m key)) (as @ bs) (i # fs)"
    using d(3,4,6) ns i unfolding om_rep_def om by simp
qed

end

end
