(* ===== verification/Ordered_Map_Refine.thy ===== *)
theory Ordered_Map_Refine
  imports Ordered_Map_Laws
begin

text \<open>
  The contract of an insertion-ordered map as a locale, its interpretation by the slab
  implementation, and the properties of the map that its clients rely on.
\<close>

subsection \<open>The contract\<close>

locale insertion_map = hash_key eq hash
  for eq :: "'k \<Rightarrow> 'k \<Rightarrow> bool" and hash :: "'k \<Rightarrow> u64" +
  fixes empty_map :: 'm
    and put :: "'m \<Rightarrow> 'k \<Rightarrow> 'v \<Rightarrow> 'v option \<times> 'm"
    and del :: "'m \<Rightarrow> 'k \<Rightarrow> 'v option \<times> 'm"
    and lookup :: "'m \<Rightarrow> 'k \<Rightarrow> 'v option"
    and has_key :: "'m \<Rightarrow> 'k \<Rightarrow> bool"
    and size_of :: "'m \<Rightarrow> nat"
    and to_list :: "'m \<Rightarrow> ('k \<times> 'v) list"
    and inv :: "'m \<Rightarrow> bool"
  assumes inv_empty: "inv empty_map"
    and inv_put: "inv m \<Longrightarrow> inv (snd (put m k v))"
    and inv_del: "inv m \<Longrightarrow> inv (snd (del m k))"
    and list_empty: "to_list empty_map = []"
    and list_put: "inv m \<Longrightarrow> to_list (snd (put m k v)) = al_insert eq (to_list m) k v"
    and old_put: "inv m \<Longrightarrow> fst (put m k v) = al_get eq (to_list m) k"
    and list_del: "inv m \<Longrightarrow> to_list (snd (del m k)) = al_remove eq (to_list m) k"
    and old_del: "inv m \<Longrightarrow> fst (del m k) = al_get eq (to_list m) k"
    and lookup_list: "inv m \<Longrightarrow> lookup m k = al_get eq (to_list m) k"
    and has_key_list: "inv m \<Longrightarrow> has_key m k \<longleftrightarrow> al_get eq (to_list m) k \<noteq> None"
    and size_list: "inv m \<Longrightarrow> size_of m = length (to_list m)"
    and apart_list: "inv m \<Longrightarrow> keys_apart eq (to_list m)"
begin

lemma al_get_cong: "eq k k' \<Longrightarrow> al_get eq es k = al_get eq es k'"
proof (induction es)
  case (Cons e es)
  have "eq (fst e) k \<longleftrightarrow> eq (fst e) k'"
    using Cons.prems eq_sym eq_trans by blast
  then show ?case using Cons by (cases e) simp
qed simp

lemma eq_left: "eq a b \<Longrightarrow> eq a c \<longleftrightarrow> eq b c"
  using eq_sym eq_trans by blast

lemma al_get_insert:
  "al_get eq (al_insert eq es k v) k' = (if eq k k' then Some v else al_get eq es k')"
proof (induction es)
  case (Cons e es)
  obtain k0 v0 where e: "e = (k0, v0)" by (cases e)
  show ?case
  proof (cases "eq k0 k")
    case True
    then show ?thesis using e eq_left [OF True, of k'] by simp
  next
    case False
    then have "eq k0 k' \<Longrightarrow> \<not> eq k k'" using eq_sym eq_trans by blast
    then show ?thesis using e False Cons.IH by simp
  qed
qed simp

lemma al_get_remove:
  "keys_apart eq es \<Longrightarrow> al_get eq (al_remove eq es k) k' = (if eq k k' then None else al_get eq es k')"
proof (induction es)
  case (Cons e es)
  obtain k0 v0 where e: "e = (k0, v0)" by (cases e)
  have apart: "keys_apart eq es" "\<forall>x \<in> set es. \<not> eq k0 (fst x)"
    using Cons.prems e by (auto simp: keys_apart_def)
  show ?case
  proof (cases "eq k0 k")
    case True
    have "al_get eq es k' = None" if "eq k k'"
      unfolding al_get_None_iff using apart(2) eq_trans [OF True that] eq_sym eq_trans by blast
    then show ?thesis using e True eq_left [OF True, of k'] by simp
  next
    case False
    then have "eq k0 k' \<Longrightarrow> \<not> eq k k'" using eq_sym eq_trans by blast
    then show ?thesis using e False Cons.IH [OF apart(1)] by simp
  qed
qed simp

lemma length_al_insert:
  "length (al_insert eq es k v) = (if al_get eq es k = None then Suc (length es) else length es)"
  by (induction es) (auto split: if_splits)

lemma length_al_remove:
  "length (al_remove eq es k) = (if al_get eq es k = None then length es else length es - 1)"
proof (induction es)
  case (Cons e es)
  then show ?case by (cases e; cases es) auto
qed simp

lemma lookup_put:
  "inv m \<Longrightarrow> lookup (snd (put m k v)) k' = (if eq k k' then Some v else lookup m k')"
  by (simp add: lookup_list inv_put list_put al_get_insert)

lemma lookup_del:
  "inv m \<Longrightarrow> lookup (snd (del m k)) k' = (if eq k k' then None else lookup m k')"
  by (simp add: lookup_list inv_del list_del al_get_remove apart_list)

lemma size_put:
  "inv m \<Longrightarrow> size_of (snd (put m k v)) = (if has_key m k then size_of m else Suc (size_of m))"
  by (simp add: size_list inv_put list_put length_al_insert has_key_list)

lemma size_del:
  "inv m \<Longrightarrow> size_of (snd (del m k)) = (if has_key m k then size_of m - 1 else size_of m)"
  by (simp add: size_list inv_del list_del length_al_remove has_key_list)

text \<open>
  Two maps of the same size in which every entry of the first has a related entry in the
  second have related lookups everywhere: the key classes of the first are as many as
  those of the second, and among them.
\<close>

lemma class_eq: "Collect (eq k) = Collect (eq k') \<longleftrightarrow> eq k' k"
  using eq_left [of k' k] eq_refl [of k] eq_sym by blast

lemma al_get_class: "al_get eq es k \<noteq> None \<longleftrightarrow> Collect (eq k) \<in> (\<lambda>e. Collect (eq (fst e))) ` set es"
  by (auto simp: al_get_None_iff image_iff class_eq)

lemma distinct_classes: "keys_apart eq es \<Longrightarrow> distinct (map (\<lambda>e. Collect (eq (fst e))) es)"
  using eq_sym by (induction es) (auto simp: keys_apart_def class_eq)

lemma card_classes:
  "inv m \<Longrightarrow> card ((\<lambda>e. Collect (eq (fst e))) ` set (to_list m)) = size_of m"
  using distinct_card [OF distinct_classes [OF apart_list]] by (simp add: size_list)

lemma lookup_class:
  "inv m \<Longrightarrow> lookup m k \<noteq> None \<longleftrightarrow> Collect (eq k) \<in> (\<lambda>e. Collect (eq (fst e))) ` set (to_list m)"
  using al_get_class by (simp add: lookup_list)

lemma lookup_cong: "inv m \<Longrightarrow> eq k k' \<Longrightarrow> lookup m k = lookup m k'"
  using al_get_cong by (simp add: lookup_list)

lemma entry_lookup: "inv m \<Longrightarrow> (k, v) \<in> set (to_list m) \<Longrightarrow> lookup m k = Some v"
  using al_get_apart [OF apart_list _ eq_refl] by (simp add: lookup_list)

lemma lookup_entry: "inv m \<Longrightarrow> lookup m k = Some v \<Longrightarrow> \<exists>k'. (k', v) \<in> set (to_list m) \<and> eq k' k"
  by (simp add: lookup_list al_get_Some_mem)

lemma same_entries:
  assumes "inv m" "inv m'"
  shows "size_of m = size_of m' \<and>
      (\<forall>(k, v) \<in> set (to_list m). \<exists>ov. lookup m' k = Some ov \<and> R ov v) \<longleftrightarrow>
    (\<forall>k. rel_option R (lookup m' k) (lookup m k))"
    (is "?size \<and> ?all \<longleftrightarrow> ?ext")
proof -
  let ?K = "\<lambda>m. (\<lambda>e. Collect (eq (fst e))) ` set (to_list m)"
  have sub: "?K m \<subseteq> ?K m'" if ?all
  proof
    fix c assume "c \<in> ?K m"
    then obtain k v where "(k, v) \<in> set (to_list m)" "c = Collect (eq k)" by auto
    then show "c \<in> ?K m'" using that lookup_class [OF assms(2), of k] by fastforce
  qed
  show ?thesis
  proof
    assume l: "?size \<and> ?all"
    then have K: "?K m = ?K m'"
      using sub card_classes assms by (simp add: card_subset_eq)
    show ?ext
    proof
      fix k show "rel_option R (lookup m' k) (lookup m k)"
      proof (cases "lookup m k")
        case None
        then have "lookup m' k = None"
          using lookup_class [OF assms(1), of k] lookup_class [OF assms(2), of k] K by simp
        then show ?thesis using None by simp
      next
        case (Some v)
        then obtain k' where k': "(k', v) \<in> set (to_list m)" "eq k' k"
          using lookup_entry [OF assms(1)] by blast
        then obtain ov where "lookup m' k' = Some ov" "R ov v" using l by fastforce
        then show ?thesis using Some lookup_cong [OF assms(2) k'(2)] by simp
      qed
    qed
  next
    assume r: ?ext
    have all: ?all
    proof clarify
      fix k v assume "(k, v) \<in> set (to_list m)"
      then have "lookup m k = Some v" by (rule entry_lookup [OF assms(1)])
      with r show "\<exists>ov. lookup m' k = Some ov \<and> R ov v" by (metis option_rel_Some2)
    qed
    have "?K m' \<subseteq> ?K m"
    proof
      fix c assume "c \<in> ?K m'"
      then obtain k v where k: "(k, v) \<in> set (to_list m')" "c = Collect (eq k)" by auto
      then have "lookup m' k = Some v" using entry_lookup [OF assms(2)] by blast
      then have "lookup m k \<noteq> None" using r by (metis option.rel_distinct(2))
      then show "c \<in> ?K m" using lookup_class [OF assms(1), of k] k(2) by simp
    qed
    with sub [OF all] have "?K m = ?K m'" by blast
    then have ?size
      using card_classes [OF assms(1)] card_classes [OF assms(2)] by (simp only:)
    with all show "?size \<and> ?all" by (rule conjI [rotated])
  qed
qed

end

subsection \<open>The slab implementation meets the contract\<close>

context omap
begin

lemma insert_refines:
  assumes "om_inv C entries m"
  shows "om_inv C entries (snd (om_insert C m key val))"
    "om_entries (snd (om_insert C m key val)) = al_insert (cfg_eq C) (om_entries m) key val"
    "fst (om_insert C m key val) = al_get (cfg_eq C) (om_entries m) key"
proof -
  from assms obtain ns fs where r: "rep m ns fs" by (auto simp: om_inv_def)
  have "om_inv C entries (snd (om_insert C m key val)) \<and>
    om_entries (snd (om_insert C m key val)) = al_insert (cfg_eq C) (om_entries m) key val \<and>
    fst (om_insert C m key val) = al_get (cfg_eq C) (om_entries m) key"
    using r
  proof (cases rule: key_cases [where key = key])
    case absent
    obtain i fs' where r': "rep (snd (om_insert C m key val)) (ns @ [(i, key, val)]) fs'"
      using insert_absent(2) [OF r absent] by blast
    then show ?thesis
      using insert_absent(1) [OF r absent] al_absent [where eq = "cfg_eq C", OF absent(1)] r
      by (auto simp: om_inv_def om_simps)
  next
    case (present as i k v bs p n)
    note ip = insert_present [OF r present(1,4,5)]
    show ?thesis
      using ip om_rep_entries [OF ip(2)] al_present [where eq = "cfg_eq C", OF present(3,2)] om_rep_entries [OF r] present(1)
      by (auto simp: om_inv_def)
  qed
  then show "om_inv C entries (snd (om_insert C m key val))"
    "om_entries (snd (om_insert C m key val)) = al_insert (cfg_eq C) (om_entries m) key val"
    "fst (om_insert C m key val) = al_get (cfg_eq C) (om_entries m) key" by blast+
qed

lemma remove_refines:
  assumes "om_inv C entries m"
  shows "om_inv C entries (snd (om_remove C m key))"
    "om_entries (snd (om_remove C m key)) = al_remove (cfg_eq C) (om_entries m) key"
    "fst (om_remove C m key) = al_get (cfg_eq C) (om_entries m) key"
proof -
  from assms obtain ns fs where r: "rep m ns fs" by (auto simp: om_inv_def)
  have "om_inv C entries (snd (om_remove C m key)) \<and>
    om_entries (snd (om_remove C m key)) = al_remove (cfg_eq C) (om_entries m) key \<and>
    fst (om_remove C m key) = al_get (cfg_eq C) (om_entries m) key"
    using r
  proof (cases rule: key_cases [where key = key])
    case absent
    then show ?thesis
      using remove_absent [OF absent(2)] al_absent [where eq = "cfg_eq C", OF absent(1)] r assms by (auto simp: om_simps)
  next
    case (present as i k v bs p n)
    note rp = remove_present [OF r present(1,2,4,5)]
    show ?thesis
      using rp om_rep_entries [OF rp(2)] al_present [where eq = "cfg_eq C", OF present(3,2)] om_rep_entries [OF r] present(1)
      by (auto simp: om_inv_def)
  qed
  then show "om_inv C entries (snd (om_remove C m key))"
    "om_entries (snd (om_remove C m key)) = al_remove (cfg_eq C) (om_entries m) key"
    "fst (om_remove C m key) = al_get (cfg_eq C) (om_entries m) key" by blast+
qed

end

sublocale omap \<subseteq> om: insertion_map "cfg_eq C" "cfg_hash C" "om_new C" "om_insert C"
  "om_remove C" "om_get C" "om_contains_key C" om_len om_entries "om_inv C entries"
proof unfold_locales
  show "om_inv C entries (om_new C)" using rep_new by (auto simp: om_inv_def)
  show "om_entries (om_new C) = []" using om_rep_entries [OF rep_new] by simp
qed (auto simp: insert_refines remove_refines, auto simp: om_inv_def om_simps get_refines
  contains_refines om_repD)

context omap
begin

lemma get_mut_refines:
  assumes "om_inv C entries m"
  shows "om_inv C entries (snd (om_get_mut C m key f))"
    "fst (om_get_mut C m key f) \<longleftrightarrow> om_contains_key C m key"
    "om_entries (snd (om_get_mut C m key f)) = (case om_get C m key of None \<Rightarrow> om_entries m
       | Some v \<Rightarrow> al_insert (cfg_eq C) (om_entries m) key (f v))"
proof -
  from assms obtain ns fs where r: "rep m ns fs" by (auto simp: om_inv_def)
  have "om_inv C entries (snd (om_get_mut C m key f)) \<and>
    (fst (om_get_mut C m key f) \<longleftrightarrow> om_contains_key C m key) \<and>
    om_entries (snd (om_get_mut C m key f)) = (case om_get C m key of None \<Rightarrow> om_entries m
       | Some v \<Rightarrow> al_insert (cfg_eq C) (om_entries m) key (f v))"
    using r
  proof (cases rule: key_cases [where key = key])
    case absent
    then show ?thesis
      using assms by (simp add: om_get_mut_def om_get_def om_contains_key_def index_of_def)
  next
    case (present as i k v bs p n)
    note r' = rep_set_value [OF r present(1,5), of "f v"]
    show ?thesis
      using r' om_rep_entries [OF r'] al_present [where eq = "cfg_eq C", OF present(3,2)]
        om_rep_entries [OF r] present
      by (auto simp: om_inv_def om_get_mut_def om_get_def om_contains_key_def index_of_def
        entry_at_def)
  qed
  then show "om_inv C entries (snd (om_get_mut C m key f))"
    "fst (om_get_mut C m key f) \<longleftrightarrow> om_contains_key C m key"
    "om_entries (snd (om_get_mut C m key f)) = (case om_get C m key of None \<Rightarrow> om_entries m
       | Some v \<Rightarrow> al_insert (cfg_eq C) (om_entries m) key (f v))" by blast+
qed

lemma lookup_get_mut:
  assumes "om_inv C entries m"
  shows "om_get C (snd (om_get_mut C m k f)) k' =
    (if cfg_eq C k k' then map_option f (om_get C m k) else om_get C m k')"
proof (cases "om_get C m k")
  case None
  then have "cfg_eq C k k' \<Longrightarrow> om_get C m k' = None"
    using om.lookup_cong [OF assms, of k k'] by simp
  then show ?thesis
    using None get_mut_refines [OF assms, of k f] assms by (simp add: om.lookup_list)
next
  case (Some v)
  then show ?thesis
    using get_mut_refines [OF assms, of k f] assms
    by (simp add: om.lookup_list om.al_get_insert)
qed

lemma lookup_laws:
  assumes "om_inv C entries m"
  shows "om_get C m k = al_get (cfg_eq C) (om_entries m) k \<and>
    om_contains_key C m k = (om_get C m k \<noteq> None) \<and>
    om_get C (snd (om_insert C m k v)) k' = (if cfg_eq C k k' then Some v else om_get C m k') \<and>
    om_get C (snd (om_remove C m k)) k' = (if cfg_eq C k k' then None else om_get C m k') \<and>
    om_get C (snd (om_get_mut C m k f)) k' =
      (if cfg_eq C k k' then map_option f (om_get C m k) else om_get C m k')"
  using om.lookup_put [OF assms] om.lookup_del [OF assms] lookup_get_mut [OF assms]
    om.lookup_list [OF assms] om.has_key_list [OF assms] by (intro conjI) metis+

text \<open>Growth of the slab: an insertion takes a hole when there is one.\<close>

lemma clear_refines: "om_inv C entries (om_clear C m)" "om_entries (om_clear C m) = []"
  using rep_clear om_rep_entries [OF rep_clear] by (auto simp: om_inv_def)

lemma extend_refines:
  "om_inv C entries m \<Longrightarrow>
     om_inv C entries (om_extend C m kvs) \<and>
     om_entries (om_extend C m kvs) = foldl (\<lambda>es (k, v). al_insert (cfg_eq C) es k v) (om_entries m) kvs"
  by (induction kvs arbitrary: m) (auto simp: om.inv_put om.list_put)

lemma rep_slots:
  assumes "rep m ns fs"
  shows "length (om_slab m) = om_len m + length fs"
proof -
  note d = om_repD [OF assms]
  have "card (fst ` set ns \<union> set fs) = card (fst ` set ns) + card (set fs)"
    using om_rep_disjoint [OF assms] by (intro card_Un_disjoint) auto
  then show ?thesis
    using d(5,6) distinct_card [OF d(3)] distinct_card [OF d(4)] by simp
qed

lemma alloc_slot_length:
  assumes "rep m ns fs"
  shows "length (om_slab (snd (alloc_slot m s))) = (if fs = [] then Suc (length (om_slab m)) else length (om_slab m))"
  using om_repD(2) [OF assms] by (cases fs) (auto simp: alloc_slot_def)

lemma push_entry_length:
  "length (om_slab (push_entry C m h key val)) =
     length (om_slab (snd (alloc_slot m (Occupied key val (om_tail m) None))))"
  by (simp add: push_entry_def Let_def split_beta split: option.split)

lemma insert_slots:
  assumes "om_inv C entries m"
  shows "length (om_slab (snd (om_insert C m key val))) =
    max (length (om_slab m)) (om_len (snd (om_insert C m key val)))"
proof -
  from assms obtain ns fs where r: "rep m ns fs" by (auto simp: om_inv_def)
  note sl = rep_slots [OF r]
  from r show ?thesis
  proof (cases rule: key_cases [where key = key])
    case absent
    have "om_insert C m key val = (None, push_entry C m (cfg_hash C key) key val)"
      using absent(2) by (simp add: om_insert_def replace_value_def Let_def)
    moreover have "om_len (snd (om_insert C m key val)) = Suc (om_len m)"
      using om.size_put [OF assms, of key val] contains_refines [OF r, of key]
        al_absent(1) [where eq = "cfg_eq C", OF absent(1)] by simp
    ultimately show ?thesis
      using sl alloc_slot_length [OF r] by (cases fs) (simp_all add: push_entry_length)
  next
    case (present as i k v bs p n)
    note ip = insert_present(2) [OF r present(1,4,5), of val]
    show ?thesis using rep_slots [OF ip] om_repD(6) [OF ip] sl om_repD(6) [OF r] present(1) by simp
  qed
qed

lemma remove_slots:
  assumes "om_inv C entries m"
  shows "length (om_slab (snd (om_remove C m key))) = length (om_slab m)"
proof -
  from assms obtain ns fs where r: "rep m ns fs" by (auto simp: om_inv_def)
  then show ?thesis
  proof (cases rule: key_cases [where key = key])
    case absent
    then show ?thesis using remove_absent [OF absent(2)] by simp
  next
    case (present as i k v bs p n)
    note rp = remove_present(2) [OF r present(1,2,4,5)]
    show ?thesis using rep_slots [OF rp] om_repD(6) [OF rp] rep_slots [OF r] om_repD(6) [OF r] present(1)
      by simp
  qed
qed

lemma remove_noop:
  assumes "om_inv C entries m" "fst (om_remove C m key) = None"
  shows "snd (om_remove C m key) = m"
proof -
  from assms obtain ns fs where r: "rep m ns fs" by (auto simp: om_inv_def)
  then show ?thesis
  proof (cases rule: key_cases [where key = key])
    case absent
    then show ?thesis using remove_absent [OF absent(2)] by simp
  next
    case (present as i k v bs p n)
    then show ?thesis using remove_present(1) [OF r present(1,2,4,5)] assms(2) by simp
  qed
qed

lemma eq_iff:
  assumes "om_inv C entries m" "om_inv C entries m'"
  shows "om_eq C veq m m' \<longleftrightarrow> (\<forall>k. rel_option veq (om_get C m' k) (om_get C m k))"
proof -
  have "list_all (\<lambda>(k, v). case om_get C m' k of None \<Rightarrow> False | Some ov \<Rightarrow> veq ov v) (om_entries m)
    \<longleftrightarrow> (\<forall>(k, v) \<in> set (om_entries m). \<exists>ov. om_get C m' k = Some ov \<and> veq ov v)"
    unfolding list_all_iff by (intro ball_cong) (auto split: option.split)
  then show ?thesis using om.same_entries [OF assms, of veq] by (simp add: om_eq_def)
qed

end

subsection \<open>Properties\<close>

text \<open>Every map the public interface can build.\<close>

inductive om_reach :: "('k, 't) om_cfg \<Rightarrow> ('k, 'v, 't) ordered_map \<Rightarrow> bool" for C where
  new: "om_reach C (om_new C)"
| insert: "om_reach C m \<Longrightarrow> om_reach C (snd (om_insert C m k v))"
| remove: "om_reach C m \<Longrightarrow> om_reach C (snd (om_remove C m k))"
| get_mut: "om_reach C m \<Longrightarrow> om_reach C (snd (om_get_mut C m k f))"
| clear: "om_reach C m \<Longrightarrow> om_reach C (om_clear C m)"

lemma om_reach_inv: "omap C E \<Longrightarrow> om_reach C m \<Longrightarrow> om_inv C E m"
proof (rotate_tac 1, induction rule: om_reach.induct)
  case new
  then show ?case using omap.rep_new by (auto simp: om_inv_def)
qed (simp_all add: omap.insert_refines omap.remove_refines omap.get_mut_refines omap.clear_refines)

text \<open>A configuration for the witnesses: numbers as keys, with colliding hashes.\<close>

definition nat_cfg :: "(nat, (u64 \<times> nat) list) om_cfg" where
  "nat_cfg = \<lparr> cfg_ops = list_table, cfg_hash = (\<lambda>k. of_nat (k mod 2)), cfg_eq = (=) \<rparr>"

interpretation nat_map: omap nat_cfg mset
proof (rule omap.intro)
  show "hash_table (cfg_ops nat_cfg) mset"
    using list_table.hash_table_axioms by (simp add: nat_cfg_def)
  show "hash_key (cfg_eq nat_cfg) (cfg_hash nat_cfg)"
    by unfold_locales (auto simp: nat_cfg_def)
qed

text \<open>C1. Insertion into any map built through the interface behaves as insertion into the
  list of entries in insertion order: an equal key keeps its position and gets the new value
  (the old value is returned), a new key goes to the end.\<close>

theorem om_insert_refines:
  assumes "omap C E" and "om_reach C m"
  shows "om_entries (snd (om_insert C m k v)) = al_insert (cfg_eq C) (om_entries m) k v \<and>
    fst (om_insert C m k v) = al_get (cfg_eq C) (om_entries m) k"
  using omap.insert_refines [OF assms(1) om_reach_inv [OF assms]] by blast

definition ex_map :: "(nat, string, (u64 \<times> nat) list) ordered_map" where
  "ex_map = snd (om_insert nat_cfg (snd (om_remove nat_cfg (snd (om_insert nat_cfg (snd (om_insert nat_cfg
     (om_new nat_cfg) 4 ''a'')) 2 ''b'')) 4)) 6 ''c'')"

lemma ex_map_reach: "om_reach nat_cfg ex_map"
  by (simp add: ex_map_def om_reach.intros)

theorem om_insert_refines_witness:
  "omap nat_cfg mset \<and> om_reach nat_cfg ex_map \<and>
   om_entries (snd (om_insert nat_cfg ex_map 2 ''d'')) = [(2, ''d''), (6, ''c'')] \<and>
   fst (om_insert nat_cfg ex_map 2 ''d'') = Some ''b''"
proof -
  have "om_entries ex_map = [(2, ''b''), (6, ''c'')]" by code_simp
  then show ?thesis
    using om_insert_refines [OF nat_map.omap_axioms ex_map_reach, of 2 "''d''"]
      nat_map.omap_axioms ex_map_reach
    by (simp add: nat_cfg_def)
qed

text \<open>C2. Removal takes out exactly the entry with an equal key, returns its value, and leaves
  the order of all other entries untouched; a missing key changes nothing.\<close>

theorem om_remove_refines:
  assumes "omap C E" and "om_reach C m"
  shows "om_entries (snd (om_remove C m k)) = al_remove (cfg_eq C) (om_entries m) k \<and>
    fst (om_remove C m k) = al_get (cfg_eq C) (om_entries m) k \<and>
    (fst (om_remove C m k) = None \<longrightarrow> snd (om_remove C m k) = m)"
  using omap.remove_refines [OF assms(1) om_reach_inv [OF assms]]
    omap.remove_noop [OF assms(1) om_reach_inv [OF assms]] by blast

theorem om_remove_refines_witness:
  "omap nat_cfg mset \<and> om_reach nat_cfg ex_map \<and>
   om_entries (snd (om_remove nat_cfg ex_map 2)) = [(6, ''c'')] \<and>
   fst (om_remove nat_cfg ex_map 2) = Some ''b''"
proof -
  have "om_entries ex_map = [(2, ''b''), (6, ''c'')]" by code_simp
  then show ?thesis
    using om_remove_refines [OF nat_map.omap_axioms ex_map_reach, of 2]
      nat_map.omap_axioms ex_map_reach
    by (simp add: nat_cfg_def)
qed



text \<open>C4. Iteration always ends: borrowing and consuming iterators walk the same entries, as many as
  \<open>len\<close> says, with pairwise different keys.\<close>

theorem om_iteration:
  assumes "omap C E" and "om_reach C m"
  shows "drain iter_next (om_iter m) = Some (om_entries m) \<and>
    drain into_iter_next (om_iter m) = Some (om_entries m) \<and>
    length (om_entries m) = om_len m \<and> keys_apart (cfg_eq C) (om_entries m)"
proof -
  obtain ns fs where r: "om_rep C E m ns fs"
    using om_reach_inv [OF assms] by (auto simp: om_inv_def)
  note d = om_repD [OF r]
  have "drain iter_next (om_iter m) = Some (map snd ns)"
    "drain into_iter_next (om_iter m) = Some (map snd ns)"
    using drain_seg [of "om_iter m"] drain_into_seg [of "om_iter m"] d(1,3)
    by (simp_all add: om_iter_def)
  then show ?thesis using om_rep_entries [OF r] d(6,8) by simp
qed

theorem om_iteration_witness:
  "omap nat_cfg mset \<and> om_reach nat_cfg ex_map \<and>
   drain into_iter_next (om_iter ex_map) = Some [(2, ''b''), (6, ''c'')] \<and> om_len ex_map = 2"
proof -
  have "om_entries ex_map = [(2, ''b''), (6, ''c'')]" by code_simp
  then show ?thesis
    using om_iteration [OF nat_map.omap_axioms ex_map_reach] nat_map.omap_axioms ex_map_reach
    by simp
qed

text \<open>The slab never grows while it has a hole: after an insertion its length is the larger
  of its old length and the number of live entries, and a removal leaves it as it is.\<close>

lemma om_slot_reuse:
  assumes "omap C E" and "om_reach C m"
  shows "length (om_slab (snd (om_insert C m k v))) =
      max (length (om_slab m)) (om_len (snd (om_insert C m k v))) \<and>
    length (om_slab (snd (om_remove C m k))) = length (om_slab m)"
  using omap.insert_slots [OF assms(1) om_reach_inv [OF assms]]
    omap.remove_slots [OF assms(1) om_reach_inv [OF assms]] by blast

lemma om_slot_reuse_example:
  "omap nat_cfg mset \<and> om_reach nat_cfg ex_map \<and>
   length (om_slab (snd (om_insert nat_cfg ex_map 2 ''d''))) = 2"
proof -
  have "length (om_slab ex_map) = 2" "om_len (snd (om_insert nat_cfg ex_map 2 ''d'')) = 2"
    by code_simp+
  then show ?thesis
    using om_slot_reuse [OF nat_map.omap_axioms ex_map_reach, of 2 "''d''"]
      nat_map.omap_axioms ex_map_reach by simp
qed





end
