(* ===== verification/Equality_Order.thy ===== *)
theory Equality_Order
  imports Ordered_Map_Laws
begin

text \<open>
  Equality and three-way comparison on a carrier set, and how the runtime lifts them to
  sequences and to insertion-ordered collections: lexicographic comparison, equality of
  entry lists up to order, comparison after sorting. The carrier is a parameter because a
  value type whose equality recurses through its own maps is an equivalence only on values
  whose maps have pairwise different keys.
\<close>

subsection \<open>Equivalences on a carrier\<close>

definition eq_on :: "'a set \<Rightarrow> ('a \<Rightarrow> 'a \<Rightarrow> bool) \<Rightarrow> bool" where
  "eq_on A eq \<longleftrightarrow> (\<forall>x\<in>A. eq x x) \<and> (\<forall>x\<in>A. \<forall>y\<in>A. eq x y \<longrightarrow> eq y x) \<and>
     (\<forall>x\<in>A. \<forall>y\<in>A. \<forall>z\<in>A. eq x y \<longrightarrow> eq y z \<longrightarrow> eq x z)"

definition cls :: "'a set \<Rightarrow> ('a \<Rightarrow> 'a \<Rightarrow> bool) \<Rightarrow> 'a \<Rightarrow> 'a set" where
  "cls A eq x = {z \<in> A. eq x z}"

lemma eq_onD:
  assumes "eq_on A eq"
  shows "x \<in> A \<Longrightarrow> eq x x" "x \<in> A \<Longrightarrow> y \<in> A \<Longrightarrow> eq x y \<Longrightarrow> eq y x"
    "x \<in> A \<Longrightarrow> y \<in> A \<Longrightarrow> z \<in> A \<Longrightarrow> eq x y \<Longrightarrow> eq y z \<Longrightarrow> eq x z"
  using assms unfolding eq_on_def by blast+

lemma eq_on_kernel:
  assumes "\<And>x y. x \<in> A \<Longrightarrow> y \<in> A \<Longrightarrow> eq x y \<longleftrightarrow> f x = f y"
  shows "eq_on A eq"
  using assms unfolding eq_on_def by simp

lemma cls_iff:
  assumes "eq_on A eq" "x \<in> A" "y \<in> A"
  shows "cls A eq x = cls A eq y \<longleftrightarrow> eq x y"
proof
  assume "cls A eq x = cls A eq y"
  moreover have "y \<in> cls A eq y" using assms by (simp add: cls_def eq_onD(1))
  ultimately have "y \<in> cls A eq x" by simp
  then show "eq x y" by (simp add: cls_def)
next
  assume "eq x y"
  then have "eq x z \<longleftrightarrow> eq y z" if "z \<in> A" for z
    using that assms(2,3) eq_onD(2,3) [OF assms(1)] by blast
  then show "cls A eq x = cls A eq y" by (simp add: cls_def cong: conj_cong)
qed

lemma eq_on_subset: "eq_on A eq \<Longrightarrow> B \<subseteq> A \<Longrightarrow> eq_on B eq"
  unfolding eq_on_def by blast

lemma eq_on_cong:
  assumes e: "eq_on A eq'" and c: "\<And>x y. x \<in> A \<Longrightarrow> y \<in> A \<Longrightarrow> eq x y = eq' x y"
  shows "eq_on A eq"
  unfolding eq_on_def
proof (intro conjI ballI impI)
  fix x y assume xy: "x \<in> A" "y \<in> A"
  show "eq x x" unfolding c [OF xy(1) xy(1)] by (rule eq_onD(1) [OF e xy(1)])
  assume "eq x y"
  then have 1: "eq' x y" unfolding c [OF xy] .
  show "eq y x" unfolding c [OF xy(2,1)] by (rule eq_onD(2) [OF e xy 1])
  fix z assume z: "z \<in> A" and "eq y z"
  then have 2: "eq' y z" unfolding c [OF xy(2) z] by blast
  show "eq x z" unfolding c [OF xy(1) z] by (rule eq_onD(3) [OF e xy z 1 2])
qed

lemma eq_on_classes:
  assumes "\<And>k. eq_on {x \<in> A. f x = k} eq" "\<And>x y. x \<in> A \<Longrightarrow> y \<in> A \<Longrightarrow> eq x y \<Longrightarrow> f x = f y"
  shows "eq_on A eq"
  unfolding eq_on_def
proof (intro conjI ballI impI)
  fix x assume x: "x \<in> A"
  show "eq x x" using eq_onD(1) [OF assms(1) [of "f x"]] x by simp
  fix y assume y: "y \<in> A" and xy: "eq x y"
  then have f: "f x = f y" using assms(2) x by blast
  then show "eq y x" using eq_onD(2) [OF assms(1) [of "f x"], of x y] x y xy by simp
  fix z assume "z \<in> A" "eq y z"
  then show "eq x z" using eq_onD(3) [OF assms(1) [of "f x"], of x y z] assms(2) [OF y] f x y xy by simp
qed

lemma list_all2_cls:
  assumes "eq_on A eq" "set xs \<subseteq> A" "set ys \<subseteq> A"
  shows "list_all2 eq xs ys \<longleftrightarrow> map (cls A eq) xs = map (cls A eq) ys"
proof -
  have "list_all2 eq xs ys \<longleftrightarrow> list_all2 (\<lambda>x y. cls A eq x = cls A eq y) xs ys"
    using assms cls_iff [OF assms(1)] by (intro list.rel_cong refl) (simp add: subsetD)
  then show ?thesis by (simp add: list_all2_map1 list_all2_map2 flip: list.rel_eq)
qed

subsection \<open>Entry lists as maps\<close>

definition entries_eq ::
  "('k \<Rightarrow> 'k \<Rightarrow> bool) \<Rightarrow> ('v \<Rightarrow> 'v \<Rightarrow> bool) \<Rightarrow> ('k \<times> 'v) list \<Rightarrow> ('k \<times> 'v) list \<Rightarrow> bool" where
  "entries_eq keq veq xs ys \<longleftrightarrow> length xs = length ys \<and>
     list_all (\<lambda>(k, v). case al_get keq ys k of None \<Rightarrow> False | Some ov \<Rightarrow> veq ov v) xs"

lemma al_get_eq_cong:
  "(\<And>e. e \<in> set es \<Longrightarrow> eq (fst e) key = eq' (fst e) key) \<Longrightarrow> al_get eq es key = al_get eq' es key"
proof (induction es)
  case (Cons e es)
  have "eq (fst e) key = eq' (fst e) key" using Cons.prems [of e] by simp
  moreover have "al_get eq es key = al_get eq' es key" using Cons by simp
  ultimately show ?case by (cases e) simp
qed simp

lemma entries_eq_cong [fundef_cong]:
  assumes "xs = xs'" "ys = ys'"
    and "\<And>x y. x \<in> set xs' \<Longrightarrow> y \<in> set ys' \<Longrightarrow> keq (fst y) (fst x) = keq' (fst y) (fst x)"
    and "\<And>x y. x \<in> set xs' \<Longrightarrow> y \<in> set ys' \<Longrightarrow> veq (snd y) (snd x) = veq' (snd y) (snd x)"
  shows "entries_eq keq veq xs ys = entries_eq keq' veq' xs' ys'"
proof -
  have "(case al_get keq ys' k of None \<Rightarrow> False | Some ov \<Rightarrow> veq ov v) =
    (case al_get keq' ys' k of None \<Rightarrow> False | Some ov \<Rightarrow> veq' ov v)" if kv: "(k, v) \<in> set xs'" for k v
  proof -
    have "al_get keq ys' k = al_get keq' ys' k" using assms(3) [OF kv] by (intro al_get_eq_cong) simp
    moreover have "veq ov v = veq' ov v" if "al_get keq' ys' k = Some ov" for ov
      using al_get_Some_mem [OF that] assms(4) [OF kv] by auto
    ultimately show ?thesis by (simp split: option.split)
  qed
  then show ?thesis using assms(1,2) by (auto simp: entries_eq_def list_all_iff)
qed

definition cls2 :: "'k set \<Rightarrow> ('k \<Rightarrow> 'k \<Rightarrow> bool) \<Rightarrow> 'v set \<Rightarrow> ('v \<Rightarrow> 'v \<Rightarrow> bool) \<Rightarrow> 'k \<times> 'v \<Rightarrow> 'k set \<times> 'v set" where
  "cls2 A keq B veq e = (cls A keq (fst e), cls B veq (snd e))"

lemma distinct_cls2:
  assumes "eq_on A keq" "fst ` set es \<subseteq> A" "keys_apart keq es"
  shows "distinct (map (cls2 A keq B veq) es)"
  using assms(2,3)
proof (induction es)
  case (Cons e es)
  have "cls A keq (fst e) \<noteq> cls A keq (fst e')" if "e' \<in> set es" for e'
    using that Cons.prems cls_iff [OF assms(1), of "fst e" "fst e'"] by (auto simp: keys_apart_def)
  then show ?case using Cons by (auto simp: keys_apart_def cls2_def)
qed simp

lemma al_get_pair_apart:
  assumes "eq_on A keq" "fst ` set es \<subseteq> A" "key \<in> A" "keys_apart keq es"
  shows "al_get keq es key = Some v \<longleftrightarrow> (\<exists>k. (k, v) \<in> set es \<and> keq k key)"
  using assms(2,4)
proof (induction es)
  case (Cons e es)
  obtain k0 v0 where e: "e = (k0, v0)" by (cases e)
  have "\<not> keq k key" if "keq k0 key" "(k, w) \<in> set es" for k w
  proof
    assume "keq k key"
    moreover have "k \<in> A" "k0 \<in> A" using Cons.prems(1) that(2) e by auto
    ultimately have "keq k0 k" using that(1) eq_onD(2,3) [OF assms(1)] assms(3) by blast
    then show False using Cons.prems that(2) e by (auto simp: keys_apart_def)
  qed
  then show ?case using Cons e by (auto simp: keys_apart_def)
qed simp

lemma entries_eq_cls:
  assumes k: "eq_on A keq" and v: "eq_on B veq"
    and xs: "set xs \<subseteq> A \<times> B" "keys_apart keq xs" and ys: "set ys \<subseteq> A \<times> B" "keys_apart keq ys"
  shows "entries_eq keq veq xs ys \<longleftrightarrow>
    mset (map (cls2 A keq B veq) xs) = mset (map (cls2 A keq B veq) ys)"
proof -
  let ?c = "cls2 A keq B veq"
  have fx: "fst ` set xs \<subseteq> A" and fy: "fst ` set ys \<subseteq> A" using xs ys by auto
  note dx = distinct_cls2 [OF k fx xs(2), of B veq] and dy = distinct_cls2 [OF k fy ys(2), of B veq]
  have one: "(case al_get keq ys (fst e) of None \<Rightarrow> False | Some ov \<Rightarrow> veq ov (snd e)) \<longleftrightarrow>
    ?c e \<in> ?c ` set ys" if e: "e \<in> set xs" for e
  proof -
    have "(case al_get keq ys (fst e) of None \<Rightarrow> False | Some ov \<Rightarrow> veq ov (snd e)) \<longleftrightarrow>
      (\<exists>ov. al_get keq ys (fst e) = Some ov \<and> veq ov (snd e))" by (auto split: option.split)
    also have "\<dots> \<longleftrightarrow> (\<exists>e' \<in> set ys. keq (fst e') (fst e) \<and> veq (snd e') (snd e))"
      using al_get_pair_apart [OF k fy, of "fst e"] fx ys(2) e by force
    also have "\<dots> \<longleftrightarrow> (\<exists>e' \<in> set ys. ?c e' = ?c e)"
    proof (intro bex_cong refl)
      fix e' assume "e' \<in> set ys"
      then have "fst e' \<in> A" "snd e' \<in> B" "fst e \<in> A" "snd e \<in> B" using xs(1) ys(1) e by auto
      then show "keq (fst e') (fst e) \<and> veq (snd e') (snd e) \<longleftrightarrow> ?c e' = ?c e"
        by (simp add: cls2_def cls_iff [OF k] cls_iff [OF v])
    qed
    finally show ?thesis by (simp add: image_iff eq_commute)
  qed
  have "entries_eq keq veq xs ys \<longleftrightarrow> length xs = length ys \<and> ?c ` set xs \<subseteq> ?c ` set ys"
    using one by (auto simp: entries_eq_def list_all_iff split_def)
  also have "\<dots> \<longleftrightarrow> mset (map ?c xs) = mset (map ?c ys)"
  proof
    assume a: "length xs = length ys \<and> ?c ` set xs \<subseteq> ?c ` set ys"
    then have "card (?c ` set ys) = card (?c ` set xs)"
      using distinct_card [OF dx] distinct_card [OF dy] by simp
    then have "set (map ?c xs) = set (map ?c ys)" using a by (simp add: card_subset_eq)
    then show "mset (map ?c xs) = mset (map ?c ys)" using set_eq_iff_mset_eq_distinct [OF dx dy] by blast
  next
    assume a: "mset (map ?c xs) = mset (map ?c ys)"
    have "length xs = length ys" using mset_eq_length [OF a] by simp
    moreover have "set (map ?c xs) = set (map ?c ys)" using a by (rule mset_eq_setD)
    ultimately show "length xs = length ys \<and> ?c ` set xs \<subseteq> ?c ` set ys" by simp
  qed
  finally show ?thesis .
qed

text \<open>What respects the classes does not see the order of the entries.\<close>

lemma mset_map_respects:
  assumes "mset (map c xs) = mset (map c ys)" and "set xs \<subseteq> S" "set ys \<subseteq> S"
    and "\<And>e e'. e \<in> S \<Longrightarrow> e' \<in> S \<Longrightarrow> c e = c e' \<Longrightarrow> f e = f e'"
  shows "mset (map f xs) = mset (map f ys)"
proof -
  define g where "g q = f (SOME e. e \<in> S \<and> c e = q)" for q
  have g: "g (c e) = f e" if e: "e \<in> S" for e
  proof -
    have "(SOME e'. e' \<in> S \<and> c e' = c e) \<in> S \<and> c (SOME e'. e' \<in> S \<and> c e' = c e) = c e"
      by (rule someI [of _ e]) (simp add: e)
    then show ?thesis unfolding g_def using assms(4) e by blast
  qed
  have m: "mset (map f zs) = image_mset g (mset (map c zs))" if "set zs \<subseteq> S" for zs
  proof -
    have "map f zs = map g (map c zs)" using that g by (simp add: subsetD)
    then show ?thesis by (metis mset_map)
  qed
  show ?thesis by (simp only: m [OF assms(2)] m [OF assms(3)] assms(1))
qed

subsection \<open>Total preorders on a carrier\<close>

definition cmp_on :: "'a set \<Rightarrow> ('a \<Rightarrow> 'a \<Rightarrow> ordering) \<Rightarrow> bool" where
  "cmp_on A c \<longleftrightarrow> (\<forall>x\<in>A. \<forall>y\<in>A. c y x = swap_ord (c x y)) \<and>
     (\<forall>x\<in>A. \<forall>y\<in>A. \<forall>z\<in>A. c x y \<noteq> Greater \<longrightarrow> c y z \<noteq> Greater \<longrightarrow> c x z \<noteq> Greater)"

lemma swap_ord_simps [simp]:
  "swap_ord (swap_ord r) = r" "swap_ord r = Equal \<longleftrightarrow> r = Equal"
  "swap_ord r = Less \<longleftrightarrow> r = Greater" "swap_ord r = Greater \<longleftrightarrow> r = Less"
  by (cases r; simp)+

lemma then_with_simps [simp]:
  "then_with a b = Equal \<longleftrightarrow> a = Equal \<and> b = Equal"
  "then_with a b = Greater \<longleftrightarrow> a = Greater \<or> a = Equal \<and> b = Greater"
  "then_with a b = Less \<longleftrightarrow> a = Less \<or> a = Equal \<and> b = Less"
  "swap_ord (then_with a b) = then_with (swap_ord a) (swap_ord b)"
  by (cases a; simp)+

lemma cmp_onD:
  assumes "cmp_on A c" "x \<in> A" "y \<in> A"
  shows "c y x = swap_ord (c x y)"
    "z \<in> A \<Longrightarrow> c x y \<noteq> Greater \<Longrightarrow> c y z \<noteq> Greater \<Longrightarrow> c x z \<noteq> Greater"
  using assms unfolding cmp_on_def by blast+

lemma cmp_on_subset: "cmp_on A c \<Longrightarrow> B \<subseteq> A \<Longrightarrow> cmp_on B c"
  unfolding cmp_on_def by blast

lemma cmp_on_refl: "cmp_on A c \<Longrightarrow> x \<in> A \<Longrightarrow> c x x = Equal"
  using cmp_onD(1) [of A c x x] by (cases "c x x") simp_all

text \<open>Equivalent arguments can be exchanged.\<close>

lemma cmp_on_equal_left:
  assumes "cmp_on A c" "x \<in> A" "y \<in> A" "z \<in> A" "c x y = Equal"
  shows "c x z = c y z"
proof -
  have yx: "c y x = Equal" using cmp_onD(1) [OF assms(1-3)] assms(5) by simp
  have zx: "c z x = swap_ord (c x z)" and zy: "c z y = swap_ord (c y z)"
    by (rule cmp_onD(1) [OF assms(1,2,4)], rule cmp_onD(1) [OF assms(1,3,4)])
  have "c x z \<noteq> Greater \<longleftrightarrow> c y z \<noteq> Greater"
    using cmp_onD(2) [OF assms(1,2,3,4)] cmp_onD(2) [OF assms(1,3,2,4)] assms(5) yx by auto
  moreover have "c z x \<noteq> Greater \<longleftrightarrow> c z y \<noteq> Greater"
    using cmp_onD(2) [OF assms(1,4,2,3)] cmp_onD(2) [OF assms(1,4,3,2)] assms(5) yx by auto
  ultimately show ?thesis using zx zy by (cases "c x z"; cases "c y z") simp_all
qed

lemma cmp_on_equal_right:
  assumes "cmp_on A c" "x \<in> A" "y \<in> A" "z \<in> A" "c x y = Equal"
  shows "c z x = c z y"
  using cmp_on_equal_left [OF assms] cmp_onD(1) [OF assms(1,2,4)] cmp_onD(1) [OF assms(1,3,4)] by simp

lemma cmp_on_less_trans:
  assumes "cmp_on A c" "x \<in> A" "y \<in> A" "z \<in> A" "c x y = Less" "c y z = Less"
  shows "c x z = Less"
proof (cases "c x z")
  case Equal
  then have "c x y = c z y" by (rule cmp_on_equal_left [OF assms(1,2,4,3)])
  then show ?thesis using cmp_onD(1) [OF assms(1,3,4)] assms(5,6) by simp
next
  case Greater
  then show ?thesis using cmp_onD(2) [OF assms(1,2,3,4)] assms(5,6) by simp
qed

lemma cmp_on_eq_on: "cmp_on A c \<Longrightarrow> eq_on A (\<lambda>x y. c x y = Equal)"
  unfolding eq_on_def
proof (intro conjI ballI impI)
  fix x y assume c: "cmp_on A c" and xy: "x \<in> A" "y \<in> A"
  show "c x x = Equal" by (rule cmp_on_refl [OF c xy(1)])
  assume e: "c x y = Equal"
  then show "c y x = Equal" using cmp_onD(1) [OF c xy] by simp
  fix z assume "z \<in> A" "c y z = Equal"
  then show "c x z = Equal" using cmp_on_equal_left [OF c xy _ e] by simp
qed

text \<open>Conversely, three laws about \<^term>\<open>Less\<close> and \<^term>\<open>Equal\<close> are enough.\<close>

lemma cmp_on_linorder [simp]: "cmp_on A (cmp_of :: 'a::linorder \<Rightarrow> _)"
  unfolding cmp_on_def cmp_of_def by auto

lemma cmp_of_simps [simp]:
  "cmp_of a b = Equal \<longleftrightarrow> a = b" "cmp_of a b = Less \<longleftrightarrow> a < b" "cmp_of a b = Greater \<longleftrightarrow> b < a"
  by (auto simp: cmp_of_def)

lemma cmp_on_pullback:
  assumes "cmp_on B d" "f ` A \<subseteq> B" "\<And>x y. x \<in> A \<Longrightarrow> y \<in> A \<Longrightarrow> c x y = d (f x) (f y)"
  shows "cmp_on A c"
unfolding cmp_on_def
proof (intro conjI ballI impI)
  have f: "f x \<in> B" if "x \<in> A" for x using that assms(2) by blast
  fix x y assume xy: "x \<in> A" "y \<in> A"
  show "c y x = swap_ord (c x y)"
    unfolding assms(3) [OF xy] assms(3) [OF xy(2,1)] by (rule cmp_onD(1) [OF assms(1) f f, OF xy])
  fix z assume z: "z \<in> A" and le: "c x y \<noteq> Greater" "c y z \<noteq> Greater"
  show "c x z \<noteq> Greater"
    using cmp_onD(2) [OF assms(1) f f f, OF xy z] le
    unfolding assms(3) [OF xy] assms(3) [OF xy(2) z] assms(3) [OF xy(1) z] by blast
qed

lemma cmp_on_image:
  assumes "cmp_on A d" "\<And>x y. x \<in> A \<Longrightarrow> y \<in> A \<Longrightarrow> c (f x) (f y) = d x y"
  shows "cmp_on (f ` A) c"
  unfolding cmp_on_def
proof (clarsimp, intro conjI ballI impI)
  fix x y assume xy: "x \<in> A" "y \<in> A"
  show "c (f y) (f x) = swap_ord (c (f x) (f y))"
    unfolding assms(2) [OF xy] assms(2) [OF xy(2,1)] by (rule cmp_onD(1) [OF assms(1) xy])
  fix z assume z: "z \<in> A" and le: "c (f x) (f y) \<noteq> Greater" "c (f y) (f z) \<noteq> Greater"
  show "c (f x) (f z) \<noteq> Greater"
    using cmp_onD(2) [OF assms(1) xy z] le
    unfolding assms(2) [OF xy] assms(2) [OF xy(2) z] assms(2) [OF xy(1) z] by blast
qed

text \<open>A comparison that decides on a key first, and inside one key class by a preorder.\<close>

lemma cmp_on_classes:
  fixes f :: "'a \<Rightarrow> 'b::linorder"
  assumes same: "\<And>k. cmp_on {x \<in> A. f x = k} c"
    and diff: "\<And>x y. x \<in> A \<Longrightarrow> y \<in> A \<Longrightarrow> f x \<noteq> f y \<Longrightarrow> c x y = cmp_of (f x) (f y)"
  shows "cmp_on A c"
  unfolding cmp_on_def
proof (intro conjI ballI impI)
  fix x y assume xy: "x \<in> A" "y \<in> A"
  show "c y x = swap_ord (c x y)"
  proof (cases "f x = f y")
    case True
    then show ?thesis using cmp_onD(1) [OF same [of "f y"], of x y] xy by simp
  next
    case False
    then show ?thesis using diff xy by (auto simp: cmp_of_def)
  qed
  fix z assume z: "z \<in> A" and le: "c x y \<noteq> Greater" "c y z \<noteq> Greater"
  have fxy: "f x \<le> f y" and fyz: "f y \<le> f z"
    using le diff xy z by (metis cmp_of_simps(3) linorder_le_less_linear order_less_irrefl)+
  show "c x z \<noteq> Greater"
  proof (cases "f x = f z")
    case True
    then have "f y = f x" using fxy fyz by simp
    then show ?thesis using cmp_onD(2) [OF same [of "f x"], of x y z] True xy z le by simp
  next
    case False
    then show ?thesis using diff [OF xy(1) z] fxy fyz by simp
  qed
qed

lemma then_with_trans:
  assumes c: "cmp_on A c" and m: "x \<in> A" "y \<in> A" "z \<in> A"
    and le: "then_with (c x y) r1 \<noteq> Greater" "then_with (c y z) r2 \<noteq> Greater"
    and r: "r1 \<noteq> Greater \<Longrightarrow> r2 \<noteq> Greater \<Longrightarrow> r3 \<noteq> Greater"
  shows "then_with (c x z) r3 \<noteq> Greater"
proof (cases "c x y")
  case Less
  have "c x z = Less"
  proof (cases "c y z")
    case Less
    show ?thesis by (rule cmp_on_less_trans [OF c m \<open>c x y = Less\<close> Less])
  next
    case Equal
    then show ?thesis using cmp_on_equal_right [OF c m(2,3,1)] \<open>c x y = Less\<close> by simp
  qed (use le in simp)
  then show ?thesis by simp
next
  case Equal
  then have "c x z = c y z" by (rule cmp_on_equal_left [OF c m])
  then show ?thesis using le r Equal by auto
qed (use le in simp)

lemma cmp_on_lift2:
  assumes "cmp_on A c" "cmp_on B d"
  shows "cmp_on (A \<times> B) (pair_cmp c d)"
  unfolding cmp_on_def
proof (intro conjI ballI impI)
  fix x y assume xy: "x \<in> A \<times> B" "y \<in> A \<times> B"
  show "pair_cmp c d y x = swap_ord (pair_cmp c d x y)"
    using cmp_onD(1) [OF assms(1), of "fst x" "fst y"] cmp_onD(1) [OF assms(2), of "snd x" "snd y"] xy
    by (simp add: pair_cmp_def mem_Times_iff)
  fix z assume z: "z \<in> A \<times> B" and le: "pair_cmp c d x y \<noteq> Greater" "pair_cmp c d y z \<noteq> Greater"
  have m: "fst x \<in> A" "fst y \<in> A" "fst z \<in> A" "snd x \<in> B" "snd y \<in> B" "snd z \<in> B" using xy z by auto
  show "pair_cmp c d x z \<noteq> Greater"
    using le cmp_onD(2) [OF assms(2) m(4-6)] unfolding pair_cmp_def by (rule then_with_trans [OF assms(1) m(1-3)])
qed

lemma lex_cmp_Equal: "lex_cmp c xs ys = Equal \<longleftrightarrow> list_all2 (\<lambda>x y. c x y = Equal) xs ys"
  by (induction c xs ys rule: lex_cmp.induct) auto

lemma lex_cmp_swap:
  "cmp_on A c \<Longrightarrow> set xs \<subseteq> A \<Longrightarrow> set ys \<subseteq> A \<Longrightarrow> lex_cmp c ys xs = swap_ord (lex_cmp c xs ys)"
proof (induction c xs ys rule: lex_cmp.induct)
  case (4 f x xs y ys)
  then show ?case using cmp_onD(1) [of A f x y] by simp
qed auto

lemma lex_cmp_trans:
  assumes c: "cmp_on A c" and "set xs \<subseteq> A" "set ys \<subseteq> A" "set zs \<subseteq> A"
    and "lex_cmp c xs ys \<noteq> Greater" "lex_cmp c ys zs \<noteq> Greater"
  shows "lex_cmp c xs zs \<noteq> Greater"
  using assms(2-)
proof (induction xs arbitrary: ys zs)
  case Nil
  then show ?case by (cases zs) simp_all
next
  case (Cons x xs)
  then obtain y ys' where y: "ys = y # ys'" by (cases ys) auto
  then obtain z zs' where z: "zs = z # zs'" using Cons.prems by (cases zs) auto
  have m: "x \<in> A" "y \<in> A" "z \<in> A" using Cons.prems y z by auto
  have "lex_cmp c xs zs' \<noteq> Greater" if "lex_cmp c xs ys' \<noteq> Greater" "lex_cmp c ys' zs' \<noteq> Greater"
    using Cons.IH [of ys' zs'] Cons.prems y z that by simp
  then show ?case using Cons.prems(4,5) unfolding y z lex_cmp.simps
    by (intro then_with_trans [OF c m])
qed

lemma cmp_on_lists: "cmp_on A c \<Longrightarrow> cmp_on {xs. set xs \<subseteq> A} (lex_cmp c)"
  unfolding cmp_on_def [of "{xs. set xs \<subseteq> A}"] using lex_cmp_swap lex_cmp_trans by blast

subsection \<open>Comparison after sorting\<close>

abbreviation le_by :: "('a \<Rightarrow> 'a \<Rightarrow> ordering) \<Rightarrow> 'a \<Rightarrow> 'a \<Rightarrow> bool" where
  "le_by c x y \<equiv> c x y \<noteq> Greater"

lemma sorted_insort_by:
  assumes "cmp_on A c" "x \<in> A" "set ys \<subseteq> A" "sorted_wrt (le_by c) ys"
  shows "sorted_wrt (le_by c) (insort_by c x ys)"
  using assms(3,4)
proof (induction ys)
  case (Cons y ys)
  have y: "y \<in> A" "set ys \<subseteq> A" "\<forall>z \<in> set ys. le_by c y z" "sorted_wrt (le_by c) ys"
    using Cons.prems by auto
  show ?case
  proof (cases "c x y = Greater")
    case True
    then have "le_by c y x" using cmp_onD(1) [OF assms(1,2) y(1)] by simp
    then show ?thesis using True Cons.IH [OF y(2,4)] y(3) by simp
  next
    case False
    then have "le_by c x z" if "z \<in> set ys" for z
      using cmp_onD(2) [OF assms(1,2) y(1), of z] y(2,3) that by blast
    then show ?thesis using False y(3,4) by simp
  qed
qed simp

lemma sorted_sort_by:
  assumes "cmp_on A c" "set xs \<subseteq> A"
  shows "sorted_wrt (le_by c) (sort_by c xs)"
  using assms(2)
proof (induction xs)
  case (Cons x xs)
  then show ?case using sorted_insort_by [OF assms(1), of x "sort_by c xs"] by simp
qed simp

abbreviation cmp_cls :: "'a set \<Rightarrow> ('a \<Rightarrow> 'a \<Rightarrow> ordering) \<Rightarrow> 'a \<Rightarrow> 'a set" where
  "cmp_cls A c \<equiv> cls A (\<lambda>x y. c x y = Equal)"

text \<open>Two sorted sequences with the same classes agree position by position.\<close>

lemma sorted_classes_unique:
  assumes c: "cmp_on A c"
  shows "set xs \<subseteq> A \<Longrightarrow> set ys \<subseteq> A \<Longrightarrow> sorted_wrt (le_by c) xs \<Longrightarrow> sorted_wrt (le_by c) ys \<Longrightarrow>
    mset (map (cmp_cls A c) xs) = mset (map (cmp_cls A c) ys) \<Longrightarrow>
    map (cmp_cls A c) xs = map (cmp_cls A c) ys"
proof (induction xs arbitrary: ys)
  case (Cons x xs)
  note iff = cls_iff [OF cmp_on_eq_on [OF c]]
  obtain y ys' where y: "ys = y # ys'" using Cons.prems(5) by (cases ys) auto
  have m: "x \<in> A" "y \<in> A" "set xs \<subseteq> A" "set ys' \<subseteq> A" using Cons.prems y by auto
  have min: "le_by c a b" if "b \<in> set (a # bs)" "sorted_wrt (le_by c) (a # bs)" "a \<in> A" for a b bs
    using that cmp_on_refl [OF c] by auto
  have sets: "cmp_cls A c ` set (x # xs) = cmp_cls A c ` set (y # ys')"
    using mset_eq_setD [OF Cons.prems(5)] y by simp
  have half: "le_by c a b" if h: "a \<in> A" "b \<in> A" "set as \<subseteq> A" "sorted_wrt (le_by c) (a # as)"
    "cmp_cls A c b \<in> cmp_cls A c ` set (a # as)" for a b as
  proof -
    obtain a' where a': "a' \<in> set (a # as)" "cmp_cls A c b = cmp_cls A c a'" using h(5) by blast
    then have "a' \<in> A" using h by auto
    then have "c b a' = Equal" using iff a' h by simp
    then have "c a b = c a a'" using cmp_on_equal_right [OF c h(2) \<open>a' \<in> A\<close> h(1)] by simp
    then show ?thesis using min [OF a'(1) h(4,1)] by simp
  qed
  have "le_by c x y"
    by (rule half [OF m(1,2,3) Cons.prems(3)]) (unfold sets, simp)
  moreover have "le_by c y x"
    by (rule half [OF m(2,1,4)]) (use Cons.prems(4) y in simp, unfold sets [symmetric], simp)
  ultimately have "c x y = Equal" using cmp_onD(1) [OF c m(1,2)] by (cases "c x y") simp_all
  then have cxy: "cmp_cls A c x = cmp_cls A c y" using iff m by simp
  then have "map (cmp_cls A c) xs = map (cmp_cls A c) ys'"
    using Cons.prems m y by (intro Cons.IH) auto
  then show ?case using cxy y by simp
qed simp

lemma sorted_cmp_Equal:
  assumes c: "cmp_on A c" and s: "set xs \<subseteq> A" "set ys \<subseteq> A"
    and "sorted_wrt (le_by c) xs" "sorted_wrt (le_by c) ys"
  shows "lex_cmp c xs ys = Equal \<longleftrightarrow> mset (map (cmp_cls A c) xs) = mset (map (cmp_cls A c) ys)"
proof -
  have "lex_cmp c xs ys = Equal \<longleftrightarrow> map (cmp_cls A c) xs = map (cmp_cls A c) ys"
    unfolding lex_cmp_Equal by (rule list_all2_cls [OF cmp_on_eq_on [OF c] s])
  then show ?thesis using sorted_classes_unique [OF c s assms(4,5)] by metis
qed

text \<open>With pairwise different keys, sorting by key sorts the pairs.\<close>

lemma distinct_map_sorted_wrt: "distinct (map f xs) \<Longrightarrow> sorted_wrt (\<lambda>a b. f a \<noteq> f b) xs"
  by (induction xs) auto

lemma sorted_wrt_combine:
  "sorted_wrt P xs \<Longrightarrow> sorted_wrt Q xs \<Longrightarrow>
   (\<And>x y. x \<in> set xs \<Longrightarrow> y \<in> set xs \<Longrightarrow> P x y \<Longrightarrow> Q x y \<Longrightarrow> R x y) \<Longrightarrow> sorted_wrt R xs"
  by (induction xs) auto

lemma sorted_pairs:
  assumes kc: "cmp_on A kc" and xs: "fst ` set xs \<subseteq> A"
    and apart: "distinct (map (cmp_cls A kc \<circ> fst) xs)"
  shows "sorted_wrt (le_by (pair_cmp kc vc)) (sort_by (\<lambda>a b. kc (fst a) (fst b)) xs)"
proof -
  let ?s = "sort_by (\<lambda>a b. kc (fst a) (fst b)) xs"
  have "cmp_on (set xs) (\<lambda>a b. kc (fst a) (fst b))" by (rule cmp_on_pullback [OF kc xs]) simp
  then have "sorted_wrt (le_by (\<lambda>a b. kc (fst a) (fst b))) ?s" by (rule sorted_sort_by) simp
  moreover have "mset (map (cmp_cls A kc \<circ> fst) ?s) = mset (map (cmp_cls A kc \<circ> fst) xs)" by simp
  then have "distinct (map (cmp_cls A kc \<circ> fst) ?s)" using apart mset_eq_imp_distinct_iff by blast
  then have "sorted_wrt (\<lambda>a b. (cmp_cls A kc \<circ> fst) a \<noteq> (cmp_cls A kc \<circ> fst) b) ?s"
    by (rule distinct_map_sorted_wrt)
  ultimately show ?thesis
  proof (rule sorted_wrt_combine)
    fix a b assume "a \<in> set ?s" "b \<in> set ?s" and le: "le_by (\<lambda>a b. kc (fst a) (fst b)) a b"
      and ne: "(cmp_cls A kc \<circ> fst) a \<noteq> (cmp_cls A kc \<circ> fst) b"
    then have "fst a \<in> A" "fst b \<in> A" using xs by auto
    then have "kc (fst a) (fst b) \<noteq> Equal" using ne cls_iff [OF cmp_on_eq_on [OF kc]] by simp
    then show "le_by (pair_cmp kc vc) a b" using le by (simp add: pair_cmp_def)
  qed
qed

lemma cmp_cls_pair:
  assumes "cmp_on A kc" "cmp_on B vc" "e \<in> A \<times> B" "e' \<in> A \<times> B"
  shows "cmp_cls (A \<times> B) (pair_cmp kc vc) e = cmp_cls (A \<times> B) (pair_cmp kc vc) e' \<longleftrightarrow>
    cls2 A (\<lambda>x y. kc x y = Equal) B (\<lambda>x y. vc x y = Equal) e =
    cls2 A (\<lambda>x y. kc x y = Equal) B (\<lambda>x y. vc x y = Equal) e'"
  using assms(3,4) cls_iff [OF cmp_on_eq_on [OF assms(1)]] cls_iff [OF cmp_on_eq_on [OF assms(2)]]
    cls_iff [OF cmp_on_eq_on [OF cmp_on_lift2 [OF assms(1,2)]]]
  by (simp add: cls2_def mem_Times_iff pair_cmp_def)

text \<open>
  The order of a map agrees with its equality: the sorted entry sequences compare equal
  exactly when every key looks up to an equal value.
\<close>

lemma entries_cmp_Equal:
  assumes kc: "cmp_on A kc" and vc: "cmp_on B vc"
    and xs: "set xs \<subseteq> A \<times> B" "keys_apart (\<lambda>x y. kc x y = Equal) xs"
    and ys: "set ys \<subseteq> A \<times> B" "keys_apart (\<lambda>x y. kc x y = Equal) ys"
  shows "entries_cmp kc vc xs ys = Equal \<longleftrightarrow>
    entries_eq (\<lambda>x y. kc x y = Equal) (\<lambda>x y. vc x y = Equal) xs ys"
proof -
  let ?keq = "\<lambda>x y. kc x y = Equal" and ?veq = "\<lambda>x y. vc x y = Equal"
  let ?k = "\<lambda>a b. kc (fst a) (fst b)" and ?c = "cmp_cls (A \<times> B) (pair_cmp kc vc)"
  let ?d = "cls2 A ?keq B ?veq"
  note ek = cmp_on_eq_on [OF kc] and ev = cmp_on_eq_on [OF vc]
  have key: "sorted_wrt (le_by (pair_cmp kc vc)) (sort_by ?k zs)"
    if "set zs \<subseteq> A \<times> B" "keys_apart ?keq zs" for zs
  proof (rule sorted_pairs [OF kc])
    show f: "fst ` set zs \<subseteq> A" using that(1) by auto
    have "distinct (map (cls2 A ?keq UNIV (\<lambda>_ _. True)) zs)" by (rule distinct_cls2 [OF ek f that(2)])
    then show "distinct (map (cmp_cls A kc \<circ> fst) zs)"
      by (simp add: distinct_map inj_on_def cls2_def cls_def)
  qed
  have "entries_cmp kc vc xs ys = Equal \<longleftrightarrow> mset (map ?c xs) = mset (map ?c ys)"
    unfolding entries_cmp_def
    using sorted_cmp_Equal [OF cmp_on_lift2 [OF kc vc] _ _ key [OF xs] key [OF ys]] xs(1) ys(1) by simp
  also have "\<dots> \<longleftrightarrow> mset (map ?d xs) = mset (map ?d ys)"
  proof
    assume "mset (map ?c xs) = mset (map ?c ys)"
    then show "mset (map ?d xs) = mset (map ?d ys)"
      using cmp_cls_pair [OF kc vc] by (elim mset_map_respects [OF _ xs(1) ys(1)]) blast
  next
    assume "mset (map ?d xs) = mset (map ?d ys)"
    then show "mset (map ?c xs) = mset (map ?c ys)"
      using cmp_cls_pair [OF kc vc] by (elim mset_map_respects [OF _ xs(1) ys(1)]) blast
  qed
  also have "\<dots> \<longleftrightarrow> entries_eq ?keq ?veq xs ys"
    using entries_eq_cls [OF ek ev xs ys] by blast
  finally show ?thesis .
qed

lemma cmp_on_entries:
  assumes "cmp_on A kc" "cmp_on B vc"
  shows "cmp_on {es. set es \<subseteq> A \<times> B} (entries_cmp kc vc)"
  by (rule cmp_on_pullback [OF cmp_on_lists [OF cmp_on_lift2 [OF assms]],
        where f = "sort_by (\<lambda>a b. kc (fst a) (fst b))"]) (auto simp: entries_cmp_def)

lemma entries_hash_sum:
  "entries_hash dh kt vt es = sum_list (map (\<lambda>e. dh (kt (fst e) @ vt (snd e))) es)"
proof -
  have "foldl (\<lambda>s e. s + f e) a es = a + sum_list (map f es)" for f :: "'a \<times> 'b \<Rightarrow> u64" and a
    by (induction es arbitrary: a) (simp_all add: add.assoc)
  then show ?thesis by (simp add: entries_hash_def)
qed

text \<open>Equal maps feed the same words to a hasher, whatever their insertion orders.\<close>

lemma entries_hash_eq:
  assumes k: "eq_on A keq" and v: "eq_on B veq"
    and xs: "set xs \<subseteq> A \<times> B" "keys_apart keq xs" and ys: "set ys \<subseteq> A \<times> B" "keys_apart keq ys"
    and eq: "entries_eq keq veq xs ys"
    and kt: "\<And>x y. x \<in> A \<Longrightarrow> y \<in> A \<Longrightarrow> keq x y \<Longrightarrow> kt x = kt y"
    and vt: "\<And>x y. x \<in> B \<Longrightarrow> y \<in> B \<Longrightarrow> veq x y \<Longrightarrow> vt x = vt y"
  shows "entries_hash dh kt vt xs = entries_hash dh kt vt ys"
proof -
  let ?f = "\<lambda>e. dh (kt (fst e) @ vt (snd e))"
  have "mset (map (cls2 A keq B veq) xs) = mset (map (cls2 A keq B veq) ys)"
    using eq entries_eq_cls [OF k v xs ys] by blast
  then have "mset (map ?f xs) = mset (map ?f ys)"
  proof (rule mset_map_respects [OF _ xs(1) ys(1)])
    fix e e' assume "e \<in> A \<times> B" "e' \<in> A \<times> B" "cls2 A keq B veq e = cls2 A keq B veq e'"
    then have "kt (fst e) = kt (fst e')" "vt (snd e) = vt (snd e')"
      using kt [of "fst e" "fst e'"] vt [of "snd e" "snd e'"] cls_iff [OF k] cls_iff [OF v]
      by (auto simp: cls2_def)
    then show "?f e = ?f e'" by simp
  qed
  then have "sum_mset (mset (map ?f xs)) = sum_mset (mset (map ?f ys))" by (rule arg_cong)
  then show ?thesis unfolding entries_hash_sum sum_mset_sum_list .
qed

end
