(* ===== verification/Mux_Value.thy ===== *)
theory Mux_Value
  imports Equality_Order
begin

text \<open>
  The universal value type of the runtime (\<open>Value\<close> in \<open>src/src/lib.rs\<close>) with its
  equality, order, hash, printed form and type tags. A map or a set inside a value is its list of
  entries in insertion order, which is what the ordered map refines to; the lookups that its
  equality performs are lookups in that list. The argument \<open>H\<close> of type \<open>hooks\<close> carries what
  lies outside the repository: the \<open>ordered_float\<close> crate, the formatting of floats, the
  callbacks a class registers, the comparison and hash glue of compiled enums, and the
  fixed-key hasher of the standard library.
\<close>

type_synonym type_id = "32 word"
type_synonym f64 = "64 word"  \<comment> \<open>the bit pattern\<close>

record object_ref =
  obj_ptr :: u64
  obj_type_id :: type_id
  obj_size :: nat

text \<open>
  A boxed enum: the inline bytes padded to whole 8-byte words, their number, and the addresses
  of the four glue functions.
\<close>

record boxed_enum =
  be_words :: "u8 list"
  be_len :: nat
  be_clone_glue :: u64
  be_drop_glue :: u64
  be_cmp_glue :: u64
  be_hash_glue :: u64

definition enum_from_bytes :: "u8 list \<Rightarrow> u64 \<Rightarrow> u64 \<Rightarrow> u64 \<Rightarrow> u64 \<Rightarrow> boxed_enum" where
  "enum_from_bytes src clone_glue drop_glue cmp_glue hash_glue =
     (let words = max 1 ((length src + 7) div 8) in
      \<lparr> be_words = src @ replicate (8 * words - length src) 0, be_len = length src,
        be_clone_glue = clone_glue, be_drop_glue = drop_glue, be_cmp_glue = cmp_glue,
        be_hash_glue = hash_glue \<rparr>)"

definition enum_bytes :: "boxed_enum \<Rightarrow> u8 list" where
  "enum_bytes be = take (be_len be) (be_words be)"

datatype mux_value =
    VUnit
  | VBool bool
  | VInt i64
  | VFloat f64
  | VString string
  | VList "mux_value list"
  | VBytes "u8 list"
  | VMap "(mux_value \<times> mux_value) list"
  | VSet "mux_value list"
  | VTuple mux_value mux_value
  | VOptional "mux_value option"
  | VResult "mux_value + mux_value"  \<comment> \<open>error on the left\<close>
  | VObject object_ref
  | VOpaque "u8 list"
  | VBoxedEnum boxed_enum

record object_callbacks =
  cb_equals :: "(object_ref \<Rightarrow> object_ref \<Rightarrow> bool) option"
  cb_compare :: "(object_ref \<Rightarrow> object_ref \<Rightarrow> int) option"
  cb_hash :: "(object_ref \<Rightarrow> u64) option"
  cb_can_snapshot :: bool

definition default_callbacks :: object_callbacks where
  "default_callbacks = \<lparr> cb_equals = None, cb_compare = None, cb_hash = None, cb_can_snapshot = False \<rparr>"

record hooks =
  hk_float_eq :: "f64 \<Rightarrow> f64 \<Rightarrow> bool"
  hk_float_cmp :: "f64 \<Rightarrow> f64 \<Rightarrow> ordering"
  hk_float_hash :: "f64 \<Rightarrow> hash_token list"
  hk_float_fmt :: "f64 \<Rightarrow> string"
  hk_callbacks :: "type_id \<Rightarrow> object_callbacks"
  hk_enum_cmp :: "u64 \<Rightarrow> u8 list \<Rightarrow> u8 list \<Rightarrow> int"
  hk_enum_hash :: "u64 \<Rightarrow> u8 list \<Rightarrow> u64"
  hk_hash_glue_of :: "u64 \<Rightarrow> u64"  \<comment> \<open>the hash glue emitted beside a comparison glue\<close>
  hk_enum_clone :: "u64 \<Rightarrow> u8 list \<Rightarrow> u8 list"
  hk_default_hash :: "hash_token list \<Rightarrow> u64"

subsection \<open>Objects\<close>

definition keying :: "hooks \<Rightarrow> object_ref \<Rightarrow> object_callbacks" where
  "keying H a =
     (let callbacks = hk_callbacks H (obj_type_id a);
          has_equality = (cb_equals callbacks \<noteq> None \<or> cb_compare callbacks \<noteq> None)
      in if cb_can_snapshot callbacks \<and> has_equality then callbacks else default_callbacks)"

definition structural_key :: "hooks \<Rightarrow> object_ref \<Rightarrow> u64" where
  "structural_key H a =
     (let callbacks = keying H a in
      case cb_hash callbacks of
        Some hash \<Rightarrow> hash a
      | None \<Rightarrow> (if cb_equals callbacks \<noteq> None \<or> cb_compare callbacks \<noteq> None then 0 else obj_ptr a))"

definition structural_eq :: "hooks \<Rightarrow> object_ref \<Rightarrow> object_ref \<Rightarrow> bool option" where
  "structural_eq H a b =
     (if obj_type_id a \<noteq> obj_type_id b then None
      else let callbacks = keying H a in
        case cb_equals callbacks of
          Some equals \<Rightarrow> Some (equals a b)
        | None \<Rightarrow> (case cb_compare callbacks of
              None \<Rightarrow> None
            | Some compare \<Rightarrow> Some (compare a b = 0)))"

definition structural_cmp :: "hooks \<Rightarrow> object_ref \<Rightarrow> object_ref \<Rightarrow> ordering option" where
  "structural_cmp H a b =
     (if obj_type_id a \<noteq> obj_type_id b then None
      else map_option (\<lambda>compare. cmp_of (compare a b) 0) (cb_compare (keying H a)))"

definition object_eq :: "hooks \<Rightarrow> object_ref \<Rightarrow> object_ref \<Rightarrow> bool" where
  "object_eq H a b = (case structural_eq H a b of
       Some equal \<Rightarrow> equal
     | None \<Rightarrow> obj_ptr a = obj_ptr b \<and> obj_type_id a = obj_type_id b)"

definition object_cmp :: "hooks \<Rightarrow> object_ref \<Rightarrow> object_ref \<Rightarrow> ordering" where
  "object_cmp H a b = (case structural_cmp H a b of
       Some r \<Rightarrow> r
     | None \<Rightarrow> then_with (cmp_of (obj_type_id a) (obj_type_id b))
         (cmp_of (structural_key H a) (structural_key H b)))"

definition enum_compare :: "hooks \<Rightarrow> boxed_enum \<Rightarrow> boxed_enum \<Rightarrow> ordering" where
  "enum_compare H a b =
     (if be_cmp_glue a = be_cmp_glue b
      then cmp_of (hk_enum_cmp H (be_cmp_glue a) (be_words a) (be_words b)) 0
      else cmp_of (be_cmp_glue a) (be_cmp_glue b))"

definition enum_hash_value :: "hooks \<Rightarrow> boxed_enum \<Rightarrow> u64" where
  "enum_hash_value H be = hk_enum_hash H (be_hash_glue be) (be_words be)"

subsection \<open>Equality\<close>

definition opt_eq :: "('a \<Rightarrow> 'a \<Rightarrow> bool) \<Rightarrow> 'a option \<Rightarrow> 'a option \<Rightarrow> bool" where
  "opt_eq f a b = (case (a, b) of (None, None) \<Rightarrow> True | (Some x, Some y) \<Rightarrow> f x y | _ \<Rightarrow> False)"

definition res_eq :: "('a \<Rightarrow> 'a \<Rightarrow> bool) \<Rightarrow> 'a + 'a \<Rightarrow> 'a + 'a \<Rightarrow> bool" where
  "res_eq f a b = (case (a, b) of (Inl x, Inl y) \<Rightarrow> f x y | (Inr x, Inr y) \<Rightarrow> f x y | _ \<Rightarrow> False)"

text \<open>Set equality: same size, and every member of one is found in the other.\<close>

definition members_eq :: "('a \<Rightarrow> 'a \<Rightarrow> bool) \<Rightarrow> 'a list \<Rightarrow> 'a list \<Rightarrow> bool" where
  "members_eq f xs ys \<longleftrightarrow> length xs = length ys \<and> list_all (\<lambda>x. list_ex (\<lambda>y. f y x) ys) xs"

lemma list_all2_fcong [fundef_cong]:
  assumes "xs = xs'" "ys = ys'" "\<And>x y. x \<in> set xs' \<Longrightarrow> y \<in> set ys' \<Longrightarrow> f x y = g x y"
  shows "list_all2 f xs ys = list_all2 g xs' ys'"
  using assms by (intro list.rel_cong) auto

lemma opt_eq_cong [fundef_cong]:
  "a = a' \<Longrightarrow> b = b' \<Longrightarrow> (\<And>x y. a' = Some x \<Longrightarrow> b' = Some y \<Longrightarrow> f x y = g x y) \<Longrightarrow>
     opt_eq f a b = opt_eq g a' b'"
  by (auto simp: opt_eq_def split: option.split)

lemma res_eq_cong [fundef_cong]:
  "a = a' \<Longrightarrow> b = b' \<Longrightarrow>
     (\<And>x y. x \<in> Basic_BNFs.setl a' \<union> Basic_BNFs.setr a' \<Longrightarrow> y \<in> Basic_BNFs.setl b' \<union> Basic_BNFs.setr b' \<Longrightarrow> f x y = g x y) \<Longrightarrow>
     res_eq f a b = res_eq g a' b'"
  by (auto simp: res_eq_def split: sum.split)

lemma members_eq_cong [fundef_cong]:
  assumes "xs = xs'" "ys = ys'" "\<And>x y. x \<in> set xs' \<Longrightarrow> y \<in> set ys' \<Longrightarrow> f y x = g y x"
  shows "members_eq f xs ys = members_eq g xs' ys'"
  using assms by (auto simp: members_eq_def list_all_iff list_ex_iff)

lemma max_less_max:
  "x < (a::nat) \<or> x < b \<Longrightarrow> y < a \<or> y < b \<Longrightarrow> max x y < max a b"
  by auto

lemma size_value_less:
  "x \<in> set xs \<Longrightarrow> size x < size (VList xs)"
  "x \<in> set xs \<Longrightarrow> size x < size (VSet xs)"
  "(k, v) \<in> set es \<Longrightarrow> size k < size (VMap es)"
  "(k, v) \<in> set es \<Longrightarrow> size v < size (VMap es)"
  "size a < size (VTuple a b)" "size b < size (VTuple a b)"
  "size x < size (VOptional (Some x))"
  "x \<in> Basic_BNFs.setl r \<union> Basic_BNFs.setr r \<Longrightarrow> size x < size (VResult r)"
proof -
  show "x \<in> set xs \<Longrightarrow> size x < size (VList xs)" "x \<in> set xs \<Longrightarrow> size x < size (VSet xs)"
    by (induction xs) auto
  show "(k, v) \<in> set es \<Longrightarrow> size k < size (VMap es)" "(k, v) \<in> set es \<Longrightarrow> size v < size (VMap es)"
    by (induction es) auto
  show "x \<in> Basic_BNFs.setl r \<union> Basic_BNFs.setr r \<Longrightarrow> size x < size (VResult r)"
    by (cases r) auto
qed simp_all

function value_eq :: "hooks \<Rightarrow> mux_value \<Rightarrow> mux_value \<Rightarrow> bool" where
  "value_eq H a b = (case a of
       VUnit \<Rightarrow> (case b of VUnit \<Rightarrow> True | _ \<Rightarrow> False)
     | VBool x \<Rightarrow> (case b of VBool y \<Rightarrow> x = y | _ \<Rightarrow> False)
     | VInt x \<Rightarrow> (case b of VInt y \<Rightarrow> x = y | _ \<Rightarrow> False)
     | VFloat x \<Rightarrow> (case b of VFloat y \<Rightarrow> hk_float_eq H x y | _ \<Rightarrow> False)
     | VString x \<Rightarrow> (case b of VString y \<Rightarrow> x = y | _ \<Rightarrow> False)
     | VList x \<Rightarrow> (case b of VList y \<Rightarrow> list_all2 (value_eq H) x y | _ \<Rightarrow> False)
     | VBytes x \<Rightarrow> (case b of VBytes y \<Rightarrow> x = y | _ \<Rightarrow> False)
     | VMap x \<Rightarrow> (case b of VMap y \<Rightarrow> entries_eq (value_eq H) (value_eq H) x y | _ \<Rightarrow> False)
     | VSet x \<Rightarrow> (case b of VSet y \<Rightarrow> members_eq (value_eq H) x y | _ \<Rightarrow> False)
     | VTuple x1 x2 \<Rightarrow> (case b of VTuple y1 y2 \<Rightarrow> value_eq H x1 y1 \<and> value_eq H x2 y2 | _ \<Rightarrow> False)
     | VOptional x \<Rightarrow> (case b of VOptional y \<Rightarrow> opt_eq (value_eq H) x y | _ \<Rightarrow> False)
     | VResult x \<Rightarrow> (case b of VResult y \<Rightarrow> res_eq (value_eq H) x y | _ \<Rightarrow> False)
     | VObject x \<Rightarrow> (case b of VObject y \<Rightarrow> object_eq H x y | _ \<Rightarrow> False)
     | VOpaque x \<Rightarrow> (case b of VOpaque y \<Rightarrow> x = y | _ \<Rightarrow> False)
     | VBoxedEnum x \<Rightarrow> (case b of VBoxedEnum y \<Rightarrow> enum_compare H x y = Equal | _ \<Rightarrow> False))"
  by pat_completeness auto

termination
  by (relation "measure (\<lambda>(H, a, b). max (size a) (size b))")
    (auto simp del: mux_value.size max_less_iff_conj simp: size_value_less intro!: max_less_max)

declare value_eq.simps [simp del]

subsection \<open>Order\<close>

fun variant_order :: "mux_value \<Rightarrow> nat" where
  "variant_order VUnit = 0"
| "variant_order (VBool _) = 1"
| "variant_order (VInt _) = 2"
| "variant_order (VFloat _) = 3"
| "variant_order (VString _) = 4"
| "variant_order (VList _) = 5"
| "variant_order (VBytes _) = 6"
| "variant_order (VMap _) = 7"
| "variant_order (VSet _) = 8"
| "variant_order (VTuple _ _) = 9"
| "variant_order (VOptional _) = 10"
| "variant_order (VResult _) = 11"
| "variant_order (VObject _) = 12"
| "variant_order (VOpaque _) = 13"
| "variant_order (VBoxedEnum _) = 14"

definition tag_by_order :: "int list" where
  "tag_by_order = [11, 0, 1, 2, 3, 4, 13, 5, 6, 10, 7, 8, 9, 12, 12]"

definition type_tag :: "mux_value \<Rightarrow> int" where
  "type_tag v = tag_by_order ! variant_order v"

definition opt_cmp :: "('a \<Rightarrow> 'a \<Rightarrow> ordering) \<Rightarrow> 'a option \<Rightarrow> 'a option \<Rightarrow> ordering" where
  "opt_cmp f a b = (case (a, b) of
       (None, None) \<Rightarrow> Equal | (None, Some _) \<Rightarrow> Less | (Some _, None) \<Rightarrow> Greater
     | (Some x, Some y) \<Rightarrow> f x y)"

text \<open>\<open>Ok\<close> is the first variant of \<open>Result\<close> and therefore the smaller one.\<close>

definition res_cmp :: "('a \<Rightarrow> 'a \<Rightarrow> ordering) \<Rightarrow> 'a + 'a \<Rightarrow> 'a + 'a \<Rightarrow> ordering" where
  "res_cmp f a b = (case (a, b) of
       (Inr x, Inr y) \<Rightarrow> f x y | (Inr _, Inl _) \<Rightarrow> Less | (Inl _, Inr _) \<Rightarrow> Greater
     | (Inl x, Inl y) \<Rightarrow> f x y)"

definition set_cmp :: "('a \<Rightarrow> 'a \<Rightarrow> ordering) \<Rightarrow> 'a list \<Rightarrow> 'a list \<Rightarrow> ordering" where
  "set_cmp f xs ys = lex_cmp f (sort_by f xs) (sort_by f ys)"

definition string_cmp :: "string \<Rightarrow> string \<Rightarrow> ordering" where
  "string_cmp a b = lex_cmp (\<lambda>c d. cmp_of (of_char c :: nat) (of_char d)) a b"

definition bytes_cmp :: "u8 list \<Rightarrow> u8 list \<Rightarrow> ordering" where
  "bytes_cmp = lex_cmp cmp_of"

lemma opt_cmp_cong [fundef_cong]:
  "a = a' \<Longrightarrow> b = b' \<Longrightarrow> (\<And>x y. a' = Some x \<Longrightarrow> b' = Some y \<Longrightarrow> f x y = g x y) \<Longrightarrow>
     opt_cmp f a b = opt_cmp g a' b'"
  by (auto simp: opt_cmp_def split: option.split)

lemma res_cmp_cong [fundef_cong]:
  "a = a' \<Longrightarrow> b = b' \<Longrightarrow>
     (\<And>x y. x \<in> Basic_BNFs.setl a' \<union> Basic_BNFs.setr a' \<Longrightarrow> y \<in> Basic_BNFs.setl b' \<union> Basic_BNFs.setr b' \<Longrightarrow> f x y = g x y) \<Longrightarrow>
     res_cmp f a b = res_cmp g a' b'"
  by (auto simp: res_cmp_def split: sum.split)

lemma set_cmp_cong [fundef_cong]:
  assumes "xs = xs'" "ys = ys'"
    "\<And>x y. x \<in> set xs' \<union> set ys' \<Longrightarrow> y \<in> set xs' \<union> set ys' \<Longrightarrow> f x y = g x y"
  shows "set_cmp f xs ys = set_cmp g xs' ys'"
proof -
  have "sort_by f xs' = sort_by g xs'" "sort_by f ys' = sort_by g ys'"
    using assms(3) by (auto intro!: sort_by_cong)
  then show ?thesis using assms unfolding set_cmp_def by (auto intro!: lex_cmp_cong)
qed

lemma entries_cmp_cong [fundef_cong]:
  assumes "xs = xs'" "ys = ys'"
    and k: "\<And>x y. x \<in> set xs' \<union> set ys' \<Longrightarrow> y \<in> set xs' \<union> set ys' \<Longrightarrow> f (fst x) (fst y) = g (fst x) (fst y)"
    and v: "\<And>x y. x \<in> set xs' \<union> set ys' \<Longrightarrow> y \<in> set xs' \<union> set ys' \<Longrightarrow> f' (snd x) (snd y) = g' (snd x) (snd y)"
  shows "entries_cmp f f' xs ys = entries_cmp g g' xs' ys'"
proof -
  have "sort_by (\<lambda>a b. f (fst a) (fst b)) xs' = sort_by (\<lambda>a b. g (fst a) (fst b)) xs'"
    "sort_by (\<lambda>a b. f (fst a) (fst b)) ys' = sort_by (\<lambda>a b. g (fst a) (fst b)) ys'"
    using k by (auto intro!: sort_by_cong)
  moreover have "lex_cmp (pair_cmp f f') zs ws = lex_cmp (pair_cmp g g') zs ws"
    if "set zs = set xs'" "set ws = set ys'" for zs ws
    using that k v by (intro lex_cmp_cong refl) (simp add: pair_cmp_def)
  ultimately show ?thesis using assms(1,2) unfolding entries_cmp_def by simp
qed

function value_cmp :: "hooks \<Rightarrow> mux_value \<Rightarrow> mux_value \<Rightarrow> ordering" where
  "value_cmp H a b = (let other = cmp_of (variant_order a) (variant_order b) in case a of
       VUnit \<Rightarrow> (case b of VUnit \<Rightarrow> Equal | _ \<Rightarrow> other)
     | VBool x \<Rightarrow> (case b of VBool y \<Rightarrow> cmp_of x y | _ \<Rightarrow> other)
     | VInt x \<Rightarrow> (case b of VInt y \<Rightarrow> cmp_of x y | _ \<Rightarrow> other)
     | VFloat x \<Rightarrow> (case b of VFloat y \<Rightarrow> hk_float_cmp H x y | _ \<Rightarrow> other)
     | VString x \<Rightarrow> (case b of VString y \<Rightarrow> string_cmp x y | _ \<Rightarrow> other)
     | VList x \<Rightarrow> (case b of VList y \<Rightarrow> lex_cmp (value_cmp H) x y | _ \<Rightarrow> other)
     | VBytes x \<Rightarrow> (case b of VBytes y \<Rightarrow> bytes_cmp x y | _ \<Rightarrow> other)
     | VMap x \<Rightarrow> (case b of VMap y \<Rightarrow> entries_cmp (value_cmp H) (value_cmp H) x y | _ \<Rightarrow> other)
     | VSet x \<Rightarrow> (case b of VSet y \<Rightarrow> set_cmp (value_cmp H) x y | _ \<Rightarrow> other)
     | VTuple x1 x2 \<Rightarrow> (case b of VTuple y1 y2 \<Rightarrow> then_with (value_cmp H x1 y1) (value_cmp H x2 y2) | _ \<Rightarrow> other)
     | VOptional x \<Rightarrow> (case b of VOptional y \<Rightarrow> opt_cmp (value_cmp H) x y | _ \<Rightarrow> other)
     | VResult x \<Rightarrow> (case b of VResult y \<Rightarrow> res_cmp (value_cmp H) x y | _ \<Rightarrow> other)
     | VObject x \<Rightarrow> (case b of VObject y \<Rightarrow> object_cmp H x y | _ \<Rightarrow> other)
     | VOpaque x \<Rightarrow> (case b of VOpaque y \<Rightarrow> bytes_cmp x y | _ \<Rightarrow> other)
     | VBoxedEnum x \<Rightarrow> (case b of VBoxedEnum y \<Rightarrow> enum_compare H x y | _ \<Rightarrow> other))"
  by pat_completeness auto

termination
  by (relation "measure (\<lambda>(H, a, b). max (size a) (size b))")
    (auto simp del: mux_value.size max_less_iff_conj simp: size_value_less intro!: max_less_max)

declare value_cmp.simps [simp del]

subsection \<open>Hash\<close>

fun value_hash :: "hooks \<Rightarrow> mux_value \<Rightarrow> hash_token list" where
  "value_hash H VUnit = [HDiscr 0]"
| "value_hash H (VBool b) = [HDiscr 1, HU8 (if b then 1 else 0)]"
| "value_hash H (VInt i) = [HDiscr 2, HI64 i]"
| "value_hash H (VFloat f) = HDiscr 3 # hk_float_hash H f"
| "value_hash H (VString s) = [HDiscr 4, HStr s]"
| "value_hash H (VList l) = HDiscr 5 # HLen (length l) # concat (map (value_hash H) l)"
| "value_hash H (VBytes bs) = [HDiscr 6, HLen (length bs), HBytes bs]"
| "value_hash H (VMap m) = [HDiscr 7, HLen (length m),
     HU64 (foldl (\<lambda>combined e. combined + hk_default_hash H (value_hash H (fst e) @ value_hash H (snd e))) 0 m)]"
| "value_hash H (VSet s) = [HDiscr 8, HLen (length s),
     HU64 (foldl (\<lambda>combined e. combined + hk_default_hash H (value_hash H e)) 0 s)]"
| "value_hash H (VTuple a b) = HDiscr 9 # value_hash H a @ value_hash H b"
| "value_hash H (VOptional None) = [HDiscr 10, HDiscr 0]"
| "value_hash H (VOptional (Some v)) = HDiscr 10 # HDiscr 1 # value_hash H v"
| "value_hash H (VResult (Inr v)) = HDiscr 11 # HDiscr 0 # value_hash H v"
| "value_hash H (VResult (Inl v)) = HDiscr 11 # HDiscr 1 # value_hash H v"
| "value_hash H (VObject obj) = [HDiscr 12, HU32 (obj_type_id obj), HU64 (structural_key H obj)]"
| "value_hash H (VOpaque bs) = [HDiscr 13, HLen (length bs), HBytes bs]"
| "value_hash H (VBoxedEnum be) = [HDiscr 14, HU64 (enum_hash_value H be)]"

subsection \<open>Printed form\<close>

definition hex_digit :: "nat \<Rightarrow> char" where
  "hex_digit n = (if n < 10 then char_of (48 + n) else char_of (87 + n))"

fun show_hex :: "nat \<Rightarrow> string" where
  "show_hex n = (if n < 16 then [hex_digit n] else show_hex (n div 16) @ [hex_digit (n mod 16)])"

declare show_hex.simps [simp del]

definition show_byte :: "u8 \<Rightarrow> string" where
  "show_byte b = (let n = unat b in
     if n = 92 then [char_of (92::nat), char_of (92::nat)]
     else if n = 34 then [char_of (92::nat), char_of (34::nat)]
     else if 0x20 \<le> n \<and> n \<le> 0x7e then [char_of n]
     else [char_of (92::nat), CHR ''x'', hex_digit (n div 16), hex_digit (n mod 16)])"

definition write_delimited :: "string \<Rightarrow> string \<Rightarrow> string list \<Rightarrow> string" where
  "write_delimited open close items = open @ join '', '' items @ close"

fun value_display :: "hooks \<Rightarrow> mux_value \<Rightarrow> string" where
  "value_display H VUnit = ''()''"
| "value_display H (VBool b) = (if b then ''true'' else ''false'')"
| "value_display H (VInt i) = show_int i"
| "value_display H (VFloat f) = hk_float_fmt H f"
| "value_display H (VString s) = s"
| "value_display H (VList xs) = write_delimited ''['' '']'' (map (value_display H) xs)"
| "value_display H (VBytes bs) = ''b'' @ [char_of (34::nat)] @ concat (map show_byte bs) @ [char_of (34::nat)]"
| "value_display H (VMap es) =
     write_delimited ''{'' ''}'' (map (\<lambda>e. value_display H (fst e) @ '': '' @ value_display H (snd e)) es)"
| "value_display H (VSet xs) = write_delimited ''{'' ''}'' (map (value_display H) xs)"
| "value_display H (VTuple a b) = ''('' @ value_display H a @ '', '' @ value_display H b @ '')''"
| "value_display H (VOptional None) = ''None''"
| "value_display H (VOptional (Some v)) = ''Some('' @ value_display H v @ '')''"
| "value_display H (VResult (Inr v)) = ''Ok('' @ value_display H v @ '')''"
| "value_display H (VResult (Inl v)) = ''Err('' @ value_display H v @ '')''"
| "value_display H (VObject obj) = ''<Object at 0x'' @ show_hex (unat (obj_ptr obj)) @ '' type_id='' @
     show_nat (unat (obj_type_id obj)) @ ''>''"
| "value_display H (VOpaque bs) = ''<Opaque '' @ show_nat (length bs) @ '' bytes>''"
| "value_display H (VBoxedEnum be) = ''<enum '' @ show_nat (be_len be) @ '' bytes>''"

subsection \<open>Cloning\<close>

text \<open>
  The structure of a clone: everything owned is copied, an object handle is shared, and
  the clone glue of an enum runs on the copied bytes.
\<close>

definition enum_clone :: "hooks \<Rightarrow> boxed_enum \<Rightarrow> boxed_enum" where
  "enum_clone H be = be\<lparr>be_words := hk_enum_clone H (be_clone_glue be) (be_words be)\<rparr>"

fun value_clone :: "hooks \<Rightarrow> mux_value \<Rightarrow> mux_value" where
  "value_clone H (VList xs) = VList (map (value_clone H) xs)"
| "value_clone H (VMap es) = VMap (map (\<lambda>e. (value_clone H (fst e), value_clone H (snd e))) es)"
| "value_clone H (VSet xs) = VSet (map (value_clone H) xs)"
| "value_clone H (VTuple a b) = VTuple (value_clone H a) (value_clone H b)"
| "value_clone H (VOptional (Some v)) = VOptional (Some (value_clone H v))"
| "value_clone H (VResult (Inl v)) = VResult (Inl (value_clone H v))"
| "value_clone H (VResult (Inr v)) = VResult (Inr (value_clone H v))"
| "value_clone H (VBoxedEnum be) = VBoxedEnum (enum_clone H be)"
| "value_clone H v = v"

end
