(* ===== verification/Value_Laws.thy ===== *)
theory Value_Laws
  imports Mux_Value
begin

text \<open>
  Equality of runtime values is an equivalence and their hash respects it. The hypotheses
  on what a class registers and on what the compiler emits are the assumptions of the locale
  \<open>value_env\<close>; they are the contracts written at the registration functions of
  \<open>src/src/object.rs\<close> and at the glue types of \<open>src/src/lib.rs\<close>. All laws are about values whose
  maps and sets have pairwise different keys, which every constructor and operation keeps.
\<close>

subsection \<open>Well-formed values\<close>

abbreviation members_apart :: "('a \<Rightarrow> 'a \<Rightarrow> bool) \<Rightarrow> 'a list \<Rightarrow> bool" where
  "members_apart eq xs \<equiv> sorted_wrt (\<lambda>x y. \<not> eq x y) xs"

fun wf_value :: "hooks \<Rightarrow> mux_value \<Rightarrow> bool" where
  "wf_value H (VList xs) \<longleftrightarrow> (\<forall>x\<in>set xs. wf_value H x)"
| "wf_value H (VMap es) \<longleftrightarrow> keys_apart (value_eq H) es \<and>
     (\<forall>e\<in>set es. wf_value H (fst e) \<and> wf_value H (snd e))"
| "wf_value H (VSet xs) \<longleftrightarrow> members_apart (value_eq H) xs \<and> (\<forall>x\<in>set xs. wf_value H x)"
| "wf_value H (VTuple a b) \<longleftrightarrow> wf_value H a \<and> wf_value H b"
| "wf_value H (VOptional None) \<longleftrightarrow> True"
| "wf_value H (VOptional (Some v)) \<longleftrightarrow> wf_value H v"
| "wf_value H (VResult (Inl v)) \<longleftrightarrow> wf_value H v"
| "wf_value H (VResult (Inr v)) \<longleftrightarrow> wf_value H v"
| "wf_value H (VBoxedEnum be) \<longleftrightarrow> be_hash_glue be = hk_hash_glue_of H (be_cmp_glue be)"
| "wf_value H _ \<longleftrightarrow> True"

fun parts :: "mux_value \<Rightarrow> mux_value set" where
  "parts (VList xs) = set xs"
| "parts (VMap es) = fst ` set es \<union> snd ` set es"
| "parts (VSet xs) = set xs"
| "parts (VTuple a b) = {a, b}"
| "parts (VOptional (Some v)) = {v}"
| "parts (VResult (Inl v)) = {v}"
| "parts (VResult (Inr v)) = {v}"
| "parts _ = {}"

definition wf_below :: "hooks \<Rightarrow> nat \<Rightarrow> mux_value set" where
  "wf_below H n = {v. wf_value H v \<and> size v < n}"

lemma parts_below:
  assumes "v \<in> wf_below H (Suc n)" shows "parts v \<subseteq> wf_below H n"
proof
  fix x assume x: "x \<in> parts v"
  have "size x < size v" using x by (cases v rule: parts.cases) (auto simp del: mux_value.size simp: size_value_less)
  moreover have "wf_value H x" using x assms by (cases v rule: parts.cases) (auto simp: wf_below_def)
  ultimately show "x \<in> wf_below H n" using assms by (auto simp: wf_below_def)
qed

subsection \<open>Equations\<close>

lemma value_eq_simps [simp]:
  "value_eq H VUnit VUnit"
  "value_eq H (VBool b1) (VBool b2) \<longleftrightarrow> b1 = b2"
  "value_eq H (VInt i1) (VInt i2) \<longleftrightarrow> i1 = i2"
  "value_eq H (VFloat f1) (VFloat f2) \<longleftrightarrow> hk_float_eq H f1 f2"
  "value_eq H (VString s1) (VString s2) \<longleftrightarrow> s1 = s2"
  "value_eq H (VList l1) (VList l2) \<longleftrightarrow> list_all2 (value_eq H) l1 l2"
  "value_eq H (VBytes y1) (VBytes y2) \<longleftrightarrow> y1 = y2"
  "value_eq H (VMap m1) (VMap m2) \<longleftrightarrow> entries_eq (value_eq H) (value_eq H) m1 m2"
  "value_eq H (VSet l1) (VSet l2) \<longleftrightarrow> members_eq (value_eq H) l1 l2"
  "value_eq H (VTuple a1 c1) (VTuple a2 c2) \<longleftrightarrow> value_eq H a1 a2 \<and> value_eq H c1 c2"
  "value_eq H (VOptional o1) (VOptional o2) \<longleftrightarrow> opt_eq (value_eq H) o1 o2"
  "value_eq H (VResult r1) (VResult r2) \<longleftrightarrow> res_eq (value_eq H) r1 r2"
  "value_eq H (VObject ob1) (VObject ob2) \<longleftrightarrow> object_eq H ob1 ob2"
  "value_eq H (VOpaque y1) (VOpaque y2) \<longleftrightarrow> y1 = y2"
  "value_eq H (VBoxedEnum e1) (VBoxedEnum e2) \<longleftrightarrow> enum_compare H e1 e2 = Equal"
  by (simp_all add: value_eq.simps)

lemma value_eq_variant: "value_eq H a b \<Longrightarrow> variant_order a = variant_order b"
  by (cases a; cases b) (simp_all add: value_eq.simps)

lemma members_eq_entries:
  "members_eq f xs ys = entries_eq f (\<lambda>_ _. True) (map (\<lambda>x. (x, ())) xs) (map (\<lambda>x. (x, ())) ys)"
proof -
  have "(case al_get f (map (\<lambda>x. (x, ())) ys) x of None \<Rightarrow> False | Some _ \<Rightarrow> True) \<longleftrightarrow>
    list_ex (\<lambda>y. f y x) ys" for x
    by (induction ys) auto
  then show ?thesis by (simp add: members_eq_def entries_eq_def list_all_iff)
qed

lemma members_eq_cls:
  assumes "eq_on A f" "set xs \<subseteq> A" "members_apart f xs" "set ys \<subseteq> A" "members_apart f ys"
  shows "members_eq f xs ys \<longleftrightarrow> mset (map (cls A f) xs) = mset (map (cls A f) ys)"
proof -
  let ?u = "\<lambda>x. (x, ())" and ?c = "cls2 A f UNIV (\<lambda>_ _. True)"
  have c: "?c (?u x) = (cls A f x, UNIV)" for x by (simp add: cls2_def cls_def)
  have "members_eq f xs ys \<longleftrightarrow> mset (map ?c (map ?u xs)) = mset (map ?c (map ?u ys))"
    unfolding members_eq_entries
  proof (rule entries_eq_cls [OF assms(1)])
    show "eq_on UNIV (\<lambda>_ _. True)" by (simp add: eq_on_def)
  qed (use assms(2-5) in \<open>auto simp: keys_apart_def sorted_wrt_map\<close>)
  also have "\<dots> \<longleftrightarrow> mset (map (cls A f) xs) = mset (map (cls A f) ys)"
  proof
    assume "mset (map ?c (map ?u xs)) = mset (map ?c (map ?u ys))"
    then have "image_mset fst (mset (map ?c (map ?u xs))) = image_mset fst (mset (map ?c (map ?u ys)))"
      by (rule arg_cong)
    then show "mset (map (cls A f) xs) = mset (map (cls A f) ys)"
      by (simp add: c image_mset.compositionality comp_def)
  next
    assume "mset (map (cls A f) xs) = mset (map (cls A f) ys)"
    then have "image_mset (\<lambda>k. (k, UNIV :: unit set)) (mset (map (cls A f) xs)) =
      image_mset (\<lambda>k. (k, UNIV)) (mset (map (cls A f) ys))" by (rule arg_cong)
    then show "mset (map ?c (map ?u xs)) = mset (map ?c (map ?u ys))"
      by (simp add: c image_mset.compositionality comp_def)
  qed
  finally show ?thesis .
qed

subsection \<open>The contracts of registered callbacks and emitted glue\<close>

locale value_env =
  fixes H :: hooks
  assumes float_eq: "eq_on UNIV (hk_float_eq H)"
    and float_hash: "hk_float_eq H f g \<Longrightarrow> hk_float_hash H f = hk_float_hash H g"
    and class_equals: "cb_equals (hk_callbacks H t) = Some e \<Longrightarrow> eq_on {a. obj_type_id a = t} e"
    and class_compare: "cb_compare (hk_callbacks H t) = Some c \<Longrightarrow>
      cmp_on {a. obj_type_id a = t} (\<lambda>a b. cmp_of (c a b) 0)"
    and class_hash: "cb_hash (hk_callbacks H (obj_type_id a)) = Some h \<Longrightarrow>
      structural_eq H a b = Some True \<Longrightarrow> h a = h b"
    and enum_cmp: "cmp_on UNIV (\<lambda>a b. cmp_of (hk_enum_cmp H glue a b) 0)"
    and enum_hash: "hk_enum_cmp H glue x y = 0 \<Longrightarrow>
      hk_enum_hash H (hk_hash_glue_of H glue) x = hk_enum_hash H (hk_hash_glue_of H glue) y"
begin

lemma keying_type: "obj_type_id a = obj_type_id b \<Longrightarrow> keying H a = keying H b"
  by (simp add: keying_def)

lemma keying_cases:
  obtains (identity) "keying H a = default_callbacks"
  | (content) "keying H a = hk_callbacks H (obj_type_id a)"
      "cb_equals (keying H a) \<noteq> None \<or> cb_compare (keying H a) \<noteq> None"
proof (cases "keying H a = default_callbacks")
  case False
  then have "keying H a = hk_callbacks H (obj_type_id a)"
    "cb_equals (keying H a) \<noteq> None \<or> cb_compare (keying H a) \<noteq> None"
    unfolding keying_def Let_def by presburger+
  then show thesis by (rule content)
qed (rule identity)

lemma object_eq_type: "object_eq H a b \<Longrightarrow> obj_type_id a = obj_type_id b"
  by (auto simp: object_eq_def structural_eq_def split: if_splits)

lemma object_eq_on: "eq_on UNIV (object_eq H)"
proof (rule eq_on_classes)
  fix t
  let ?A = "{x \<in> UNIV. obj_type_id x = t}"
  define a where "a = \<lparr> obj_ptr = 0, obj_type_id = t, obj_size = 0 \<rparr>"
  have key: "keying H x = keying H a" if "x \<in> ?A" for x
    using that by (intro keying_type) (simp add: a_def)
  show "eq_on ?A (object_eq H)"
  proof (cases rule: keying_cases [of a])
    case identity
    then show ?thesis using key
      by (intro eq_on_kernel [where f = obj_ptr])
        (simp add: object_eq_def structural_eq_def default_callbacks_def)
  next
    case content
    then have cb: "keying H a = hk_callbacks H t" by (simp add: a_def)
    show ?thesis
    proof (cases "cb_equals (keying H a)")
      case (Some e)
      have "eq_on ?A e" using class_equals [of t e] Some cb by simp
      moreover have "object_eq H x y = e x y" if "x \<in> ?A" "y \<in> ?A" for x y
        using that key [of x] Some by (simp add: object_eq_def structural_eq_def)
      ultimately show ?thesis by (rule eq_on_cong)
    next
      case None
      then obtain c where c: "cb_compare (keying H a) = Some c" using content by auto
      then have "eq_on ?A (\<lambda>x y. cmp_of (c x y) 0 = Equal)"
        using cmp_on_eq_on [OF class_compare [of t c]] cb by simp
      moreover have "object_eq H x y = (cmp_of (c x y) 0 = Equal)" if "x \<in> ?A" "y \<in> ?A" for x y
        using that key [of x] None c by (simp add: object_eq_def structural_eq_def)
      ultimately show ?thesis by (rule eq_on_cong)
    qed
  qed
qed (rule object_eq_type)

lemma object_key_eq:
  assumes "object_eq H a b" shows "structural_key H a = structural_key H b"
proof -
  note t = object_eq_type [OF assms]
  then have k: "keying H b = keying H a" by (intro keying_type) simp
  show ?thesis
  proof (cases rule: keying_cases [of a])
    case identity
    then show ?thesis using assms t k
      by (simp add: object_eq_def structural_eq_def structural_key_def default_callbacks_def)
  next
    case content
    then have "structural_eq H a b = Some True"
      using assms t by (auto simp: object_eq_def structural_eq_def Let_def split: option.splits)
    then show ?thesis using class_hash [of a _ b] content k
      by (auto simp: structural_key_def Let_def split: option.split)
  qed
qed

lemma enum_compare_on: "cmp_on UNIV (enum_compare H)"
proof (rule cmp_on_classes [where f = be_cmp_glue])
  fix g
  show "cmp_on {x \<in> UNIV. be_cmp_glue x = g} (enum_compare H)"
    by (rule cmp_on_pullback [OF enum_cmp [of g], where f = be_words]) (simp_all add: enum_compare_def)
qed (simp add: enum_compare_def)

lemma enum_hash_eq:
  assumes "enum_compare H a b = Equal" "wf_value H (VBoxedEnum a)" "wf_value H (VBoxedEnum b)"
  shows "enum_hash_value H a = enum_hash_value H b"
proof -
  have "be_cmp_glue a = be_cmp_glue b" "hk_enum_cmp H (be_cmp_glue a) (be_words a) (be_words b) = 0"
    using assms(1) by (auto simp: enum_compare_def split: if_splits)
  then show ?thesis using enum_hash assms(2,3) by (simp add: enum_hash_value_def)
qed

text \<open>
  What equality looks at in a value whose components lie in a carrier on which it is
  already known to be an equivalence.
\<close>

end

datatype eq_shape =
    ShLeaf mux_value | ShFloat "f64 set" | ShList "mux_value set list"
  | ShMap "(mux_value set \<times> mux_value set) multiset" | ShSet "mux_value set multiset"
  | ShTuple "mux_value set" "mux_value set" | ShOptional "mux_value set option"
  | ShResult "mux_value set + mux_value set" | ShObject "object_ref set" | ShEnum "boxed_enum set"

fun shape :: "hooks \<Rightarrow> mux_value set \<Rightarrow> mux_value \<Rightarrow> eq_shape" where
  "shape H A (VFloat f) = ShFloat (cls UNIV (hk_float_eq H) f)"
| "shape H A (VList xs) = ShList (map (cls A (value_eq H)) xs)"
| "shape H A (VMap es) = ShMap (mset (map (cls2 A (value_eq H) A (value_eq H)) es))"
| "shape H A (VSet xs) = ShSet (mset (map (cls A (value_eq H)) xs))"
| "shape H A (VTuple a b) = ShTuple (cls A (value_eq H) a) (cls A (value_eq H) b)"
| "shape H A (VOptional v) = ShOptional (map_option (cls A (value_eq H)) v)"
| "shape H A (VResult r) = ShResult (map_sum (cls A (value_eq H)) (cls A (value_eq H)) r)"
| "shape H A (VObject a) = ShObject (cls UNIV (object_eq H) a)"
| "shape H A (VBoxedEnum e) = ShEnum (cls UNIV (\<lambda>x y. enum_compare H x y = Equal) e)"
| "shape H A v = ShLeaf v"

lemma shape_variant: "shape H A a = shape H A b \<Longrightarrow> variant_order a = variant_order b"
  by (cases a; cases b) simp_all

context value_env
begin

lemma value_eq_shape:
  assumes e: "eq_on A (value_eq H)" and p: "parts a \<subseteq> A" "parts b \<subseteq> A"
    and w: "wf_value H a" "wf_value H b"
  shows "value_eq H a b \<longleftrightarrow> shape H A a = shape H A b"
proof (cases "variant_order a = variant_order b")
  case False
  then show ?thesis using value_eq_variant shape_variant by blast
next
  case True
  note iff = cls_iff [OF e]
  show ?thesis
  proof (cases a)
    case (VMap es)
    then obtain fs where b: "b = VMap fs" using True by (cases b) auto
    have "set es \<subseteq> A \<times> A" "set fs \<subseteq> A \<times> A" using p VMap b by auto
    then show ?thesis using entries_eq_cls [OF e e, of es fs] w VMap b by simp
  next
    case (VSet xs)
    then obtain ys where b: "b = VSet ys" using True by (cases b) auto
    then show ?thesis using members_eq_cls [OF e, of xs ys] w p VSet by simp
  next
    case (VList xs)
    then obtain ys where b: "b = VList ys" using True by (cases b) auto
    then show ?thesis using list_all2_cls [OF e, of xs ys] p VList by simp
  next
    case (VOptional x)
    then obtain y where b: "b = VOptional y" using True by (cases b) auto
    then show ?thesis using p VOptional iff by (cases x; cases y) (simp_all add: opt_eq_def)
  next
    case (VResult x)
    then obtain y where b: "b = VResult y" using True by (cases b) auto
    then show ?thesis using p VResult iff by (cases x; cases y) (simp_all add: res_eq_def)
  next
    case (VTuple x1 x2)
    then obtain y1 y2 where b: "b = VTuple y1 y2" using True by (cases b) auto
    then show ?thesis using p VTuple iff by simp
  qed (use True cls_iff [OF float_eq] cls_iff [OF object_eq_on]
      cls_iff [OF cmp_on_eq_on [OF enum_compare_on]] in \<open>cases b; simp\<close>)+
qed

lemma value_eq_below: "eq_on (wf_below H n) (value_eq H)"
proof (induction n)
  case 0
  show ?case by (simp add: wf_below_def eq_on_def)
next
  case (Suc n)
  show ?case
  proof (rule eq_on_kernel)
    fix x y assume "x \<in> wf_below H (Suc n)" "y \<in> wf_below H (Suc n)"
    then show "value_eq H x y \<longleftrightarrow> shape H (wf_below H n) x = shape H (wf_below H n) y"
      using parts_below by (intro value_eq_shape Suc) (auto simp: wf_below_def)
  qed
qed

lemma wf_in_below: "wf_value H v \<Longrightarrow> size v < n \<Longrightarrow> v \<in> wf_below H n"
  by (simp add: wf_below_def)

lemma value_eq_on: "eq_on {v. wf_value H v} (value_eq H)"
  unfolding eq_on_def
proof (intro conjI ballI impI)
  fix x y assume x: "x \<in> {v. wf_value H v}" and y: "y \<in> {v. wf_value H v}"
  show "value_eq H x x" using eq_onD(1) [OF value_eq_below wf_in_below [of x "Suc (size x)"]] x by simp
  let ?n = "Suc (size x + size y)"
  assume xy: "value_eq H x y"
  then show "value_eq H y x"
    using eq_onD(2) [OF value_eq_below wf_in_below [of x ?n] wf_in_below [of y ?n]] x y by simp
  fix z assume z: "z \<in> {v. wf_value H v}" and yz: "value_eq H y z"
  let ?m = "Suc (size x + size y + size z)"
  show "value_eq H x z"
    using eq_onD(3) [OF value_eq_below wf_in_below [of x ?m] wf_in_below [of y ?m] wf_in_below [of z ?m]]
      x y z xy yz by simp
qed

subsection \<open>Hash respects equality\<close>

lemma hash_entries: "value_hash H (VMap es) = [HDiscr 7, HLen (length es),
    HU64 (entries_hash (hk_default_hash H) (value_hash H) (value_hash H) es)]"
  by (simp add: entries_hash_def)

lemma hash_members: "value_hash H (VSet xs) = [HDiscr 8, HLen (length xs),
    HU64 (entries_hash (hk_default_hash H) (value_hash H) (\<lambda>_. []) (map (\<lambda>x. (x, ())) xs))]"
proof -
  have "foldl (\<lambda>s e. s + f e) a xs = foldl (\<lambda>s e. s + f (fst e)) a (map (\<lambda>x. (x, ())) xs)"
    for f :: "mux_value \<Rightarrow> u64" and a
    by (induction xs arbitrary: a) simp_all
  then show ?thesis by (simp add: entries_hash_def)
qed

lemma value_hash_step:
  assumes e: "eq_on A (value_eq H)"
    and IH: "\<And>x y. x \<in> A \<Longrightarrow> y \<in> A \<Longrightarrow> value_eq H x y \<Longrightarrow> value_hash H x = value_hash H y"
    and p: "parts a \<subseteq> A" "parts b \<subseteq> A" and w: "wf_value H a" "wf_value H b"
    and ab: "value_eq H a b"
  shows "value_hash H a = value_hash H b"
proof -
  note v = value_eq_variant [OF ab]
  show ?thesis
  proof (cases a)
    case (VMap es)
    then obtain fs where b: "b = VMap fs" using v by (cases b) auto
    have "set es \<subseteq> A \<times> A" "set fs \<subseteq> A \<times> A" "entries_eq (value_eq H) (value_eq H) es fs"
      "keys_apart (value_eq H) es" "keys_apart (value_eq H) fs" using p w ab VMap b by auto
    then have "entries_hash (hk_default_hash H) (value_hash H) (value_hash H) es =
      entries_hash (hk_default_hash H) (value_hash H) (value_hash H) fs" "length es = length fs"
      using IH by (auto intro!: entries_hash_eq [OF e e] simp: entries_eq_def)
    then show ?thesis using VMap b by (simp add: hash_entries del: value_hash.simps)
  next
    case (VSet xs)
    then obtain ys where b: "b = VSet ys" using v by (cases b) auto
    let ?u = "\<lambda>x. (x, ())"
    have "members_eq (value_eq H) xs ys" using ab VSet b by simp
    then have eq: "entries_eq (value_eq H) (\<lambda>_ _. True) (map ?u xs) (map ?u ys)" "length xs = length ys"
      by (simp_all add: members_eq_entries) (simp add: entries_eq_def)
    have "entries_hash (hk_default_hash H) (value_hash H) (\<lambda>_. []) (map ?u xs) =
      entries_hash (hk_default_hash H) (value_hash H) (\<lambda>_. []) (map ?u ys)"
    proof (rule entries_hash_eq [OF e _ _ _ _ _ eq(1)])
      show "eq_on UNIV (\<lambda>_ _. True)" by (simp add: eq_on_def)
    qed (use p w IH VSet b in \<open>auto simp: keys_apart_def sorted_wrt_map\<close>)
    then show ?thesis using eq(2) VSet b by (simp add: hash_members del: value_hash.simps)
  next
    case (VList xs)
    then obtain ys where b: "b = VList ys" using v by (cases b) auto
    have l: "list_all2 (value_eq H) xs ys" using ab VList b by simp
    then have "list_all2 (\<lambda>x y. value_hash H x = value_hash H y) xs ys"
      using p VList b by (elim list.rel_mono_strong) (auto intro!: IH)
    then have "map (value_hash H) xs = map (value_hash H) ys"
      by (simp add: list_all2_map1 list_all2_map2 flip: list.rel_eq)
    then show ?thesis using list_all2_lengthD [OF l] VList b by simp
  next
    case (VOptional x)
    then obtain y where b: "b = VOptional y" using v by (cases b) auto
    then show ?thesis using p ab VOptional IH by (cases x; cases y) (simp_all add: opt_eq_def)
  next
    case (VResult x)
    then obtain y where b: "b = VResult y" using v by (cases b) auto
    then show ?thesis using p ab VResult IH by (cases x; cases y) (simp_all add: res_eq_def)
  next
    case (VTuple x1 x2)
    then obtain y1 y2 where b: "b = VTuple y1 y2" using v by (cases b) auto
    then show ?thesis using p ab VTuple IH [of x1 y1] IH [of x2 y2] by simp
  next
    case (VObject x)
    then obtain y where b: "b = VObject y" using v by (cases b) auto
    then show ?thesis using ab VObject object_eq_type [of x y] object_key_eq [of x y] by simp
  next
    case (VBoxedEnum x)
    then obtain y where b: "b = VBoxedEnum y" using v by (cases b) auto
    then show ?thesis using ab VBoxedEnum w enum_hash_eq [of x y] by simp
  qed (use v ab float_hash in \<open>cases b; simp\<close>)+
qed

lemma value_hash_below:
  "x \<in> wf_below H n \<Longrightarrow> y \<in> wf_below H n \<Longrightarrow> value_eq H x y \<Longrightarrow> value_hash H x = value_hash H y"
proof (induction n arbitrary: x y)
  case 0
  then show ?case by (simp add: wf_below_def)
next
  case (Suc n)
  show ?case
    by (rule value_hash_step [OF value_eq_below Suc.IH parts_below [OF Suc.prems(1)] parts_below [OF Suc.prems(2)]])
      (use Suc.prems in \<open>simp_all add: wf_below_def\<close>)
qed

lemma value_hash_eq:
  "wf_value H x \<Longrightarrow> wf_value H y \<Longrightarrow> value_eq H x y \<Longrightarrow> value_hash H x = value_hash H y"
  using value_hash_below [of x "Suc (size x + size y)" y] by (simp add: wf_below_def)

end

end
