(* ===== verification/Value_Order.thy ===== *)
theory Value_Order
  imports Value_Laws
begin

text \<open>
  The order of runtime values: a total preorder for every choice of registered classes,
  consistent with equality when every class that declares an equality also declares an order.
\<close>

lemma value_cmp_simps [simp]:
  "value_cmp H VUnit VUnit = Equal"
  "value_cmp H (VBool b1) (VBool b2) = cmp_of b1 b2"
  "value_cmp H (VInt i1) (VInt i2) = cmp_of i1 i2"
  "value_cmp H (VFloat f1) (VFloat f2) = hk_float_cmp H f1 f2"
  "value_cmp H (VString s1) (VString s2) = string_cmp s1 s2"
  "value_cmp H (VList l1) (VList l2) = lex_cmp (value_cmp H) l1 l2"
  "value_cmp H (VBytes y1) (VBytes y2) = bytes_cmp y1 y2"
  "value_cmp H (VMap m1) (VMap m2) = entries_cmp (value_cmp H) (value_cmp H) m1 m2"
  "value_cmp H (VSet l1) (VSet l2) = set_cmp (value_cmp H) l1 l2"
  "value_cmp H (VTuple a1 c1) (VTuple a2 c2) = then_with (value_cmp H a1 a2) (value_cmp H c1 c2)"
  "value_cmp H (VOptional o1) (VOptional o2) = opt_cmp (value_cmp H) o1 o2"
  "value_cmp H (VResult r1) (VResult r2) = res_cmp (value_cmp H) r1 r2"
  "value_cmp H (VObject ob1) (VObject ob2) = object_cmp H ob1 ob2"
  "value_cmp H (VOpaque y1) (VOpaque y2) = bytes_cmp y1 y2"
  "value_cmp H (VBoxedEnum e1) (VBoxedEnum e2) = enum_compare H e1 e2"
  by (simp_all add: value_cmp.simps)

lemma value_cmp_variant:
  "variant_order a \<noteq> variant_order b \<Longrightarrow> value_cmp H a b = cmp_of (variant_order a) (variant_order b)"
  by (cases a; cases b) (simp_all add: value_cmp.simps)

subsection \<open>Lifting to the containers\<close>

lemma cmp_on_option:
  assumes "cmp_on A c" shows "cmp_on {x. set_option x \<subseteq> A} (opt_cmp c)"
proof (rule cmp_on_classes [where f = "\<lambda>x. x \<noteq> None"])
  fix k
  show "cmp_on {x \<in> {x. set_option x \<subseteq> A}. (x \<noteq> None) = k} (opt_cmp c)"
  proof (cases k)
    case True
    show ?thesis by (rule cmp_on_pullback [OF assms, where f = the]) (use True in \<open>auto simp: opt_cmp_def\<close>)
  next
    case False
    show ?thesis using False by (auto simp: opt_cmp_def cmp_on_def)
  qed
qed (auto simp: opt_cmp_def cmp_of_def split: option.split)

lemma cmp_on_sum:
  assumes "cmp_on A c" shows "cmp_on {r. Basic_BNFs.setl r \<union> Basic_BNFs.setr r \<subseteq> A} (res_cmp c)"
proof (rule cmp_on_classes [where f = isl])
  fix k
  show "cmp_on {x \<in> {r. Basic_BNFs.setl r \<union> Basic_BNFs.setr r \<subseteq> A}. isl x = k} (res_cmp c)"
    by (rule cmp_on_pullback [OF assms, where f = "\<lambda>r. case r of Inl x \<Rightarrow> x | Inr x \<Rightarrow> x"])
      (auto simp: res_cmp_def split: sum.split)
qed (auto simp: res_cmp_def cmp_of_def split: sum.split)

lemma cmp_on_set: "cmp_on A c \<Longrightarrow> cmp_on {xs. set xs \<subseteq> A} (set_cmp c)"
  by (rule cmp_on_pullback [OF cmp_on_lists [of A c], where f = "sort_by c"]) (auto simp: set_cmp_def)

lemma cmp_on_bytes: "cmp_on UNIV bytes_cmp"
  using cmp_on_lists [OF cmp_on_linorder [of UNIV]] by (simp add: bytes_cmp_def)

lemma cmp_on_string: "cmp_on UNIV string_cmp"
proof -
  have "cmp_on UNIV (\<lambda>c d. cmp_of (of_char c :: nat) (of_char d))"
    by (rule cmp_on_pullback [OF cmp_on_linorder [of UNIV], where f = of_char]) auto
  then show ?thesis using cmp_on_lists [of UNIV] by (simp add: string_cmp_def [abs_def])
qed

lemma lex_cmp_eq_iff: "(\<And>x y. c x y = Equal \<longleftrightarrow> x = y) \<Longrightarrow> lex_cmp c xs ys = Equal \<longleftrightarrow> xs = ys"
  by (simp add: lex_cmp_Equal list.rel_eq)

lemma bytes_cmp_Equal [simp]: "bytes_cmp a b = Equal \<longleftrightarrow> a = b"
  by (simp add: bytes_cmp_def lex_cmp_eq_iff)

lemma string_cmp_Equal [simp]: "string_cmp a b = Equal \<longleftrightarrow> a = b"
  unfolding string_cmp_def by (rule lex_cmp_eq_iff) simp

subsection \<open>A total preorder\<close>

text \<open>The values of the same variant as a given one, with components from a carrier.\<close>

fun variant_set :: "mux_value set \<Rightarrow> mux_value \<Rightarrow> mux_value set" where
  "variant_set A VUnit = {VUnit}"
| "variant_set A (VBool _) = range VBool"
| "variant_set A (VInt _) = range VInt"
| "variant_set A (VFloat _) = range VFloat"
| "variant_set A (VString _) = range VString"
| "variant_set A (VList _) = VList ` {xs. set xs \<subseteq> A}"
| "variant_set A (VBytes _) = range VBytes"
| "variant_set A (VMap _) = VMap ` {es. set es \<subseteq> A \<times> A}"
| "variant_set A (VSet _) = VSet ` {xs. set xs \<subseteq> A}"
| "variant_set A (VTuple _ _) = case_prod VTuple ` (A \<times> A)"
| "variant_set A (VOptional _) = VOptional ` {x. set_option x \<subseteq> A}"
| "variant_set A (VResult _) = VResult ` {r. Basic_BNFs.setl r \<union> Basic_BNFs.setr r \<subseteq> A}"
| "variant_set A (VObject _) = range VObject"
| "variant_set A (VOpaque _) = range VOpaque"
| "variant_set A (VBoxedEnum _) = range VBoxedEnum"

lemma in_variant_set:
  assumes "variant_order w = variant_order v" "parts w \<subseteq> A" shows "w \<in> variant_set A v"
proof (cases w rule: parts.cases)
  case (2 es)
  then have "set es \<subseteq> A \<times> A" using assms(2) by auto
  then show ?thesis using assms(1) 2 by (cases v) auto
qed (use assms in \<open>cases v; force\<close>)+

locale value_total = value_env +
  assumes float_cmp: "cmp_on UNIV (hk_float_cmp H)"
    and float_cmp_eq: "hk_float_cmp H f g = Equal \<longleftrightarrow> hk_float_eq H f g"
begin

lemma object_cmp_on: "cmp_on UNIV (object_cmp H)"
proof (rule cmp_on_classes [where f = obj_type_id])
  fix t
  let ?A = "{x \<in> UNIV. obj_type_id x = t}"
  define a where "a = \<lparr> obj_ptr = 0, obj_type_id = t, obj_size = 0 \<rparr>"
  have key: "keying H x = keying H a" if "x \<in> ?A" for x
    using that by (intro keying_type) (simp add: a_def)
  show "cmp_on ?A (object_cmp H)"
  proof (cases "cb_compare (keying H a)")
    case None
    show ?thesis
      by (rule cmp_on_pullback [OF cmp_on_linorder [of UNIV], where f = "structural_key H"])
        (use key None in \<open>auto simp: object_cmp_def structural_cmp_def cmp_of_def\<close>)
  next
    case (Some c)
    have "keying H a = hk_callbacks H t"
      using Some by (cases rule: keying_cases [of a]) (auto simp: default_callbacks_def a_def)
    then have "cmp_on {a. obj_type_id a = t} (\<lambda>a b. cmp_of (c a b) 0)" using class_compare [of t c] Some by simp
    then show ?thesis
      by (rule cmp_on_pullback [where f = id]) (use key Some in \<open>auto simp: object_cmp_def structural_cmp_def\<close>)
  qed
qed (auto simp: object_cmp_def structural_cmp_def cmp_of_def)

lemma value_cmp_variants:
  assumes c: "cmp_on A (value_cmp H)" shows "cmp_on (variant_set A v) (value_cmp H)"
proof (cases v)
  case VUnit
  then show ?thesis by (simp add: cmp_on_def)
next
  case (VBool x)
  show ?thesis unfolding VBool variant_set.simps by (rule cmp_on_image [OF cmp_on_linorder]) simp
next
  case (VInt x)
  show ?thesis unfolding VInt variant_set.simps by (rule cmp_on_image [OF cmp_on_linorder]) simp
next
  case (VFloat x)
  show ?thesis unfolding VFloat variant_set.simps by (rule cmp_on_image [OF float_cmp]) simp
next
  case (VString x)
  show ?thesis unfolding VString variant_set.simps by (rule cmp_on_image [OF cmp_on_string]) simp
next
  case (VList x)
  show ?thesis unfolding VList variant_set.simps by (rule cmp_on_image [OF cmp_on_lists [OF c]]) simp
next
  case (VBytes x)
  show ?thesis unfolding VBytes variant_set.simps by (rule cmp_on_image [OF cmp_on_bytes]) simp
next
  case (VMap x)
  show ?thesis unfolding VMap variant_set.simps by (rule cmp_on_image [OF cmp_on_entries [OF c c]]) simp
next
  case (VSet x)
  show ?thesis unfolding VSet variant_set.simps by (rule cmp_on_image [OF cmp_on_set [OF c]]) simp
next
  case (VTuple x y)
  show ?thesis unfolding VTuple variant_set.simps by (rule cmp_on_image [OF cmp_on_lift2 [OF c c]]) (auto simp: pair_cmp_def)
next
  case (VOptional x)
  show ?thesis unfolding VOptional variant_set.simps by (rule cmp_on_image [OF cmp_on_option [OF c]]) simp
next
  case (VResult x)
  show ?thesis unfolding VResult variant_set.simps by (rule cmp_on_image [OF cmp_on_sum [OF c]]) simp
next
  case (VObject x)
  show ?thesis unfolding VObject variant_set.simps by (rule cmp_on_image [OF object_cmp_on]) simp
next
  case (VOpaque x)
  show ?thesis unfolding VOpaque variant_set.simps by (rule cmp_on_image [OF cmp_on_bytes]) simp
next
  case (VBoxedEnum x)
  show ?thesis unfolding VBoxedEnum variant_set.simps by (rule cmp_on_image [OF enum_compare_on]) simp
qed

lemma value_cmp_step:
  assumes c: "cmp_on A (value_cmp H)" shows "cmp_on {v. parts v \<subseteq> A} (value_cmp H)"
proof (rule cmp_on_classes [where f = variant_order])
  fix k
  let ?V = "{v \<in> {v. parts v \<subseteq> A}. variant_order v = k}"
  show "cmp_on ?V (value_cmp H)"
  proof (cases "?V = {}")
    case False
    then obtain v where "variant_order v = k" by blast
    then have "w \<in> variant_set A v" if "w \<in> ?V" for w using in_variant_set [of w v A] that by simp
    then have "?V \<subseteq> variant_set A v" by (rule subsetI)
    then show ?thesis by (rule cmp_on_subset [OF value_cmp_variants [OF c]])
  qed (simp only: cmp_on_def ball_empty)
qed (simp add: value_cmp_variant)

lemma value_cmp_on: "cmp_on UNIV (value_cmp H)"
proof -
  have below: "cmp_on {v. size v < n} (value_cmp H)" for n
  proof (induction n)
    case (Suc n)
    have "parts v \<subseteq> {v. size v < n}" if "size v < Suc n" for v
    proof
      fix x assume "x \<in> parts v"
      then have "size x < size v"
        by (cases v rule: parts.cases) (auto simp del: mux_value.size simp: size_value_less)
      then show "x \<in> {v. size v < n}" using that by simp
    qed
    then have "{v. size v < Suc n} \<subseteq> {v. parts v \<subseteq> {v. size v < n}}"
      by (intro Collect_mono impI)
    then show ?case by (rule cmp_on_subset [OF value_cmp_step [OF Suc]])
  qed (simp add: cmp_on_def)
  show ?thesis
    unfolding cmp_on_def
  proof (intro conjI ballI impI)
    fix x y
    show "value_cmp H y x = swap_ord (value_cmp H x y)"
      by (rule cmp_onD(1) [OF below [of "Suc (size x + size y)"]]) simp_all
    fix z assume "value_cmp H x y \<noteq> Greater" "value_cmp H y z \<noteq> Greater"
    then show "value_cmp H x z \<noteq> Greater"
      by (intro cmp_onD(2) [OF below [of "Suc (size x + size y + size z)"], of x y z]) simp_all
  qed
qed

end

subsection \<open>Agreement with equality\<close>

lemma set_cmp_Equal:
  assumes c: "cmp_on A c" and xs: "set xs \<subseteq> A" "members_apart (\<lambda>x y. c x y = Equal) xs"
    and ys: "set ys \<subseteq> A" "members_apart (\<lambda>x y. c x y = Equal) ys"
  shows "set_cmp c xs ys = Equal \<longleftrightarrow> members_eq (\<lambda>x y. c x y = Equal) xs ys"
  using sorted_cmp_Equal [OF c, of "sort_by c xs" "sort_by c ys"] sorted_sort_by [OF c xs(1)]
    sorted_sort_by [OF c ys(1)] members_eq_cls [OF cmp_on_eq_on [OF c] xs ys] xs(1) ys(1)
  by (simp add: set_cmp_def)

lemma sorted_wrt_cong_on:
  "(\<And>x y. x \<in> set xs \<Longrightarrow> y \<in> set xs \<Longrightarrow> P x y = Q x y) \<Longrightarrow> sorted_wrt P xs = sorted_wrt Q xs"
  by (induction xs) auto

locale value_order = value_total +
  assumes class_order: "cb_equals (hk_callbacks H t) = Some e \<Longrightarrow>
    \<exists>c. cb_compare (hk_callbacks H t) = Some c \<and>
      (\<forall>a b. obj_type_id a = t \<longrightarrow> obj_type_id b = t \<longrightarrow> (e a b \<longleftrightarrow> c a b = 0))"
begin

lemma object_cmp_Equal: "object_cmp H a b = Equal \<longleftrightarrow> object_eq H a b"
proof (cases "obj_type_id a = obj_type_id b")
  case False
  then show ?thesis using object_eq_type [of a b] by (auto simp: object_cmp_def structural_cmp_def)
next
  case True
  show ?thesis
  proof (cases rule: keying_cases [of a])
    case identity
    moreover have "keying H b = default_callbacks" using keying_type [OF True] identity by simp
    ultimately show ?thesis using True
      by (simp add: object_cmp_def structural_cmp_def object_eq_def structural_eq_def
          structural_key_def default_callbacks_def)
  next
    case content
    show ?thesis
    proof (cases "cb_equals (keying H a)")
      case None
      then show ?thesis using content True
        by (auto simp: object_cmp_def structural_cmp_def object_eq_def structural_eq_def)
    next
      case (Some e)
      then obtain c where "cb_compare (keying H a) = Some c" "e a b \<longleftrightarrow> c a b = 0"
        using class_order [of "obj_type_id a" e] content True by auto
      then show ?thesis using Some True
        by (simp add: object_cmp_def structural_cmp_def object_eq_def structural_eq_def)
    qed
  qed
qed

lemma value_cmp_Equal_step:
  assumes IH: "\<And>x y. x \<in> A \<Longrightarrow> y \<in> A \<Longrightarrow> value_cmp H x y = Equal \<longleftrightarrow> value_eq H x y"
    and p: "parts a \<subseteq> A" "parts b \<subseteq> A" and w: "wf_value H a" "wf_value H b"
  shows "value_cmp H a b = Equal \<longleftrightarrow> value_eq H a b"
proof (cases "variant_order a = variant_order b")
  case False
  then show ?thesis using value_eq_variant [of H a b] value_cmp_variant [of a b H] by auto
next
  case v: True
  note c = cmp_on_subset [OF value_cmp_on, of A, simplified]
  show ?thesis
  proof (cases a)
    case (VMap es)
    then obtain fs where b: "b = VMap fs" using v by (cases b) auto
    have s: "set es \<subseteq> A \<times> A" "set fs \<subseteq> A \<times> A" using p VMap b by auto
    have "keys_apart (\<lambda>x y. value_cmp H x y = Equal) gs = keys_apart (value_eq H) gs"
      if "set gs \<subseteq> A \<times> A" for gs
      unfolding keys_apart_def using that IH by (intro sorted_wrt_cong_on) force
    then have "entries_cmp (value_cmp H) (value_cmp H) es fs = Equal \<longleftrightarrow>
      entries_eq (\<lambda>x y. value_cmp H x y = Equal) (\<lambda>x y. value_cmp H x y = Equal) es fs"
      using s w VMap b by (intro entries_cmp_Equal [OF c c]) simp_all
    also have "\<dots> \<longleftrightarrow> entries_eq (value_eq H) (value_eq H) es fs"
      using s IH by (intro entries_eq_cong refl) force+
    finally show ?thesis using VMap b by simp
  next
    case (VSet xs)
    then obtain ys where b: "b = VSet ys" using v by (cases b) auto
    have "members_apart (\<lambda>x y. value_cmp H x y = Equal) zs = members_apart (value_eq H) zs"
      if "set zs \<subseteq> A" for zs
      using that IH by (intro sorted_wrt_cong_on) (simp add: subset_iff)
    then have "set_cmp (value_cmp H) xs ys = Equal \<longleftrightarrow> members_eq (\<lambda>x y. value_cmp H x y = Equal) xs ys"
      using p w VSet b by (intro set_cmp_Equal [OF c]) simp_all
    also have "\<dots> \<longleftrightarrow> members_eq (value_eq H) xs ys"
      using p IH VSet b by (intro members_eq_cong refl) (simp add: subset_iff)
    finally show ?thesis using VSet b by simp
  next
    case (VList xs)
    then obtain ys where b: "b = VList ys" using v by (cases b) auto
    have "list_all2 (\<lambda>x y. value_cmp H x y = Equal) xs ys = list_all2 (value_eq H) xs ys"
      using p IH VList b by (intro list_all2_fcong refl) (simp add: subset_iff)
    then show ?thesis using VList b by (simp add: lex_cmp_Equal)
  next
    case (VOptional x)
    then obtain y where b: "b = VOptional y" using v by (cases b) auto
    then show ?thesis using p VOptional IH by (cases x; cases y) (simp_all add: opt_eq_def opt_cmp_def)
  next
    case (VResult x)
    then obtain y where b: "b = VResult y" using v by (cases b) auto
    then show ?thesis using p VResult IH by (cases x; cases y) (simp_all add: res_eq_def res_cmp_def)
  next
    case (VTuple x1 x2)
    then obtain y1 y2 where b: "b = VTuple y1 y2" using v by (cases b) auto
    then show ?thesis using p VTuple IH by simp
  qed (use v float_cmp_eq object_cmp_Equal in \<open>cases b; simp\<close>)+
qed

lemma value_cmp_Equal:
  assumes "wf_value H a" "wf_value H b" shows "value_cmp H a b = Equal \<longleftrightarrow> value_eq H a b"
proof -
  have "x \<in> wf_below H n \<Longrightarrow> y \<in> wf_below H n \<Longrightarrow> value_cmp H x y = Equal \<longleftrightarrow> value_eq H x y" for x y n
  proof (induction n arbitrary: x y)
    case (Suc n)
    show ?case
      by (rule value_cmp_Equal_step [OF Suc.IH parts_below [OF Suc.prems(1)] parts_below [OF Suc.prems(2)]])
        (use Suc.prems in \<open>simp_all add: wf_below_def\<close>)
  qed (simp add: wf_below_def)
  then show ?thesis using assms by (simp add: wf_below_def) (metis less_add_Suc1 less_add_Suc2)
qed

end

end
