(* ===== verification/Value_Keys.thy ===== *)
theory Value_Keys
  imports Value_Order Ordered_Map_Refine
begin

text \<open>
  The two users of each other: ordered maps keyed by runtime values, and runtime values that
  contain ordered maps. An ordered map over well-formed keys, with the equality and the hash of
  values, refines its entry list, which is how a map is written inside a value.
\<close>

definition value_cfg ::
  "hooks \<Rightarrow> 't ht_ops \<Rightarrow> (hash_token list \<Rightarrow> u64) \<Rightarrow> (mux_value, 't) om_cfg" where
  "value_cfg H T sh = \<lparr> cfg_ops = T, cfg_hash = (\<lambda>v. sh (value_hash H v)), cfg_eq = value_eq H \<rparr>"

text \<open>The same configuration with the equality completed to an equivalence on all terms of the type.\<close>

definition guarded_cfg ::
  "hooks \<Rightarrow> 't ht_ops \<Rightarrow> (hash_token list \<Rightarrow> u64) \<Rightarrow> (mux_value, 't) om_cfg" where
  "guarded_cfg H T sh = (value_cfg H T sh)\<lparr> cfg_eq := (\<lambda>a b. if wf_value H a \<and> wf_value H b
     then value_eq H a b else a = b) \<rparr>"

lemma guarded_hash_key:
  assumes "value_env H"
  shows "hash_key (cfg_eq (guarded_cfg H T sh)) (cfg_hash (guarded_cfg H T sh))"
proof -
  note L = eq_onD [OF value_env.value_eq_on [OF assms]]
  show ?thesis
  proof
    fix a b c :: mux_value
    let ?e = "cfg_eq (guarded_cfg H T sh)"
    show "?e a a" using L(1) [of a] by (simp add: guarded_cfg_def)
    assume ab: "?e a b"
    then show "?e b a" using L(2) [of a b] by (auto simp: guarded_cfg_def split: if_splits)
    show "cfg_hash (guarded_cfg H T sh) a = cfg_hash (guarded_cfg H T sh) b"
      using ab value_env.value_hash_eq [OF assms, of a b]
      by (auto simp: guarded_cfg_def value_cfg_def split: if_splits)
    assume "?e b c"
    then show "?e a c" using ab L(3) [of a b c] by (auto simp: guarded_cfg_def split: if_splits)
  qed
qed

subsection \<open>Only the key comparison depends on the equality\<close>

definition slab_keys :: "('k, 'v) slot list \<Rightarrow> 'k set" where
  "slab_keys xs = {k. \<exists>i v p n. slab_get xs i = Some (Occupied k v p n)}"

lemma slab_keys_update:
  "slab_keys (xs[i := Free f]) \<subseteq> slab_keys xs"
  "slab_keys (xs[i := Occupied k v p n]) \<subseteq> insert k (slab_keys xs)"
  "slab_keys (xs @ [Occupied k v p n]) \<subseteq> insert k (slab_keys xs)"
  by (auto simp: slab_keys_def split: if_splits)

lemma slab_keys_mem: "slab_get xs i = Some (Occupied k v p n) \<Longrightarrow> k \<in> slab_keys xs"
  by (auto simp: slab_keys_def)

lemma slab_keys_replace:
  assumes "slab_get xs i = Some (Occupied k v p n)"
  shows "slab_keys (xs[i := Occupied k v' p' n']) \<subseteq> slab_keys xs"
  using slab_keys_update(2) [of xs i k v' p' n'] slab_keys_mem [OF assms] by (simp add: insert_absorb)

lemma slab_keys_links:
  "slab_keys (set_next xs i l) \<subseteq> slab_keys xs" "slab_keys (set_prev xs i l) \<subseteq> slab_keys xs"
  by (simp_all add: set_next_def set_prev_def slab_keys_replace split: option.split slot.split)

lemma slab_keys_alloc:
  "slab_keys (om_slab (snd (alloc_slot m (Occupied k v p n)))) \<subseteq> insert k (slab_keys (om_slab m))"
  by (simp add: alloc_slot_def slab_keys_update split: option.split slot.split)

lemma slab_keys_push:
  "slab_keys (om_slab (push_entry C m h k v)) \<subseteq> insert k (slab_keys (om_slab m))"
proof -
  obtain i m1 where a: "alloc_slot m (Occupied k v (om_tail m) None) = (i, m1)" by fastforce
  then have "slab_keys (om_slab m1) \<subseteq> insert k (slab_keys (om_slab m))"
    using slab_keys_alloc [of m k v "om_tail m" None] by simp
  then show ?thesis using slab_keys_links(1) [of "om_slab m1"]
    by (auto simp: push_entry_def a split: option.split)
qed

lemma slab_keys_insert: "slab_keys (om_slab (snd (om_insert C m k v))) \<subseteq> insert k (slab_keys (om_slab m))"
proof (cases "replace_value m (index_of_hashed C m (cfg_hash C k) k) v")
  case None
  then show ?thesis using slab_keys_push by (simp add: om_insert_def)
next
  case (Some r)
  then have "slab_keys (om_slab (snd r)) \<subseteq> slab_keys (om_slab m)"
    by (auto simp: replace_value_def dest!: slab_keys_replace split: option.splits slot.splits)
  then show ?thesis using Some by (cases r) (auto simp: om_insert_def)
qed

lemma slab_keys_unlink: "slab_keys (om_slab (unlink m p n)) \<subseteq> slab_keys (om_slab m)"
proof -
  let ?m1 = "case p of Some i \<Rightarrow> m\<lparr>om_slab := set_next (om_slab m) i n\<rparr> | None \<Rightarrow> m\<lparr>om_head := n\<rparr>"
  have "slab_keys (om_slab (unlink m p n)) \<subseteq> slab_keys (om_slab ?m1)"
    by (simp add: unlink_def Let_def slab_keys_links split: option.split)
  also have "\<dots> \<subseteq> slab_keys (om_slab m)" by (simp add: slab_keys_links split: option.split)
  finally show ?thesis .
qed

lemma slab_keys_remove: "slab_keys (om_slab (snd (om_remove C m k))) \<subseteq> slab_keys (om_slab m)"
proof -
  have "slab_keys (om_slab (unlink m' p n)) \<subseteq> slab_keys (om_slab m)"
    if "om_slab m' = (om_slab m)[i := Free f]" for m' :: "('a, 'b, 'c) ordered_map" and p n i f
    using slab_keys_unlink [of m' p n] slab_keys_update(1) [of "om_slab m" i f] that by simp
  then show ?thesis by (auto simp: om_remove_def Let_def split: option.split slot.split)
qed

lemma slab_keys_get_mut: "slab_keys (om_slab (snd (om_get_mut C m k f))) \<subseteq> slab_keys (om_slab m)"
  by (simp add: om_get_mut_def slab_keys_replace split: option.split slot.split)

lemma slab_keys_clear: "slab_keys (om_slab (om_clear C m)) = {}"
  by (simp add: om_clear_def slab_keys_def slab_get_def)

lemma cfg_eq_irrelevant:
  assumes "\<And>i. key_matches C m key i = key_matches C' m key i"
    and "cfg_ops C = cfg_ops C'" "cfg_hash C = cfg_hash C'"
  shows "om_insert C m key v = om_insert C' m key v" "om_remove C m key = om_remove C' m key"
    "om_get C m key = om_get C' m key" "om_get_mut C m key f = om_get_mut C' m key f"
proof -
  have k: "key_matches C m key = key_matches C' m key" using assms(1) by blast
  have h: "slot_hash C = slot_hash C'" using assms(3) by (intro ext) (simp add: slot_hash_def split: option.split slot.split)
  have i: "index_of_hashed C m hh key = index_of_hashed C' m hh key" for hh
    using k assms(2) by (simp add: index_of_hashed_def)
  then have io: "index_of C m key = index_of C' m key" using assms(3) by (simp add: index_of_def)
  have "push_entry C m hh key v = push_entry C' m hh key v" for hh
    by (simp add: push_entry_def h assms(2))
  then show "om_insert C m key v = om_insert C' m key v" using i assms(3)
    by (simp add: om_insert_def Let_def split: option.split)
  show "om_remove C m key = om_remove C' m key" unfolding om_remove_def k assms(2,3) ..
  show "om_get C m key = om_get C' m key" using io by (simp add: om_get_def)
  show "om_get_mut C m key f = om_get_mut C' m key f" using io by (simp add: om_get_mut_def)
qed

subsection \<open>Maps keyed by values\<close>

text \<open>Maps the runtime can build: every key that is ever stored or looked up is well-formed.\<close>

inductive vm_reach ::
  "hooks \<Rightarrow> 't ht_ops \<Rightarrow> (hash_token list \<Rightarrow> u64) \<Rightarrow> (mux_value, 'v, 't) ordered_map \<Rightarrow> bool"
  for H T sh where
  new: "vm_reach H T sh (om_new (value_cfg H T sh))"
| insert: "vm_reach H T sh m \<Longrightarrow> wf_value H k \<Longrightarrow> vm_reach H T sh (snd (om_insert (value_cfg H T sh) m k v))"
| remove: "vm_reach H T sh m \<Longrightarrow> wf_value H k \<Longrightarrow> vm_reach H T sh (snd (om_remove (value_cfg H T sh) m k))"
| get_mut: "vm_reach H T sh m \<Longrightarrow> wf_value H k \<Longrightarrow> vm_reach H T sh (snd (om_get_mut (value_cfg H T sh) m k f))"
| clear: "vm_reach H T sh m \<Longrightarrow> vm_reach H T sh (om_clear (value_cfg H T sh) m)"

lemma guarded_matches:
  assumes "slab_keys (om_slab m) \<subseteq> {v. wf_value H v}" "wf_value H key"
  shows "key_matches (value_cfg H T sh) m key i = key_matches (guarded_cfg H T sh) m key i"
proof (cases "slab_get (om_slab m) i")
  case (Some x)
  then show ?thesis using assms slab_keys_mem [of "om_slab m" i]
    by (cases x) (auto simp: key_matches_def key_at_def entry_at_def guarded_cfg_def value_cfg_def)
qed (simp add: key_matches_def key_at_def entry_at_def)

lemma vm_reach_guarded:
  "vm_reach H T sh m \<Longrightarrow> om_reach (guarded_cfg H T sh) m \<and> slab_keys (om_slab m) \<subseteq> {v. wf_value H v}"
proof (induction rule: vm_reach.induct)
  case new
  have "om_new (value_cfg H T sh) = om_new (guarded_cfg H T sh)"
    by (simp add: om_new_def guarded_cfg_def value_cfg_def)
  then show ?case using om_reach.new [of "guarded_cfg H T sh"]
    by (simp add: om_new_def slab_keys_def slab_get_def)
next
  case (insert m k v)
  have "om_insert (value_cfg H T sh) m k v = om_insert (guarded_cfg H T sh) m k v"
    using insert by (intro cfg_eq_irrelevant guarded_matches) (simp_all add: guarded_cfg_def)
  then show ?case using insert slab_keys_insert [of "guarded_cfg H T sh" m k v]
    by (auto intro: om_reach.insert)
next
  case (remove m k)
  have "om_remove (value_cfg H T sh) m k = om_remove (guarded_cfg H T sh) m k"
    using remove by (intro cfg_eq_irrelevant guarded_matches) (simp_all add: guarded_cfg_def)
  then show ?case using remove slab_keys_remove [of "guarded_cfg H T sh" m k]
    by (auto intro: om_reach.remove)
next
  case (get_mut m k f)
  have "om_get_mut (value_cfg H T sh) m k f = om_get_mut (guarded_cfg H T sh) m k f"
    using get_mut by (intro cfg_eq_irrelevant guarded_matches) (simp_all add: guarded_cfg_def)
  then show ?case using get_mut slab_keys_get_mut [of "guarded_cfg H T sh" m k f]
    by (auto intro: om_reach.get_mut)
next
  case (clear m)
  have "om_clear (value_cfg H T sh) m = om_clear (guarded_cfg H T sh) m"
    by (simp add: om_clear_def guarded_cfg_def value_cfg_def)
  then show ?case using clear by (simp add: slab_keys_clear om_reach.clear)
qed

lemma seg_keys: "seg xs p c ns q n \<Longrightarrow> (i, k, v) \<in> set ns \<Longrightarrow> k \<in> slab_keys xs"
  by (induction xs p c ns q n rule: seg.induct) (auto intro: slab_keys_mem)

lemma entries_keys:
  assumes "om_inv C E m" "e \<in> set (om_entries m)" shows "fst e \<in> slab_keys (om_slab m)"
proof -
  obtain ns fs where r: "om_rep C E m ns fs" using assms(1) by (auto simp: om_inv_def)
  obtain i where "(i, fst e, snd e) \<in> set ns" using assms(2) om_rep_entries [OF r] by auto
  then show ?thesis by (rule seg_keys [OF om_repD(1) [OF r]])
qed

lemma al_cong_on:
  assumes "\<And>e. e \<in> set es \<Longrightarrow> eq (fst e) key = eq' (fst e) key"
  shows "al_get eq es key = al_get eq' es key" "al_insert eq es key v = al_insert eq' es key v"
    "al_remove eq es key = al_remove eq' es key"
proof -
  show "al_get eq es key = al_get eq' es key" using assms by (rule al_get_eq_cong)
  have "al_insert eq es key v = al_insert eq' es key v \<and> al_remove eq es key = al_remove eq' es key"
    using assms
  proof (induction es)
    case (Cons e es)
    have "eq (fst e) key = eq' (fst e) key" using Cons.prems [of e] by simp
    moreover have "al_insert eq es key v = al_insert eq' es key v \<and> al_remove eq es key = al_remove eq' es key"
      using Cons by simp
    ultimately show ?case by (cases e) simp
  qed simp
  then show "al_insert eq es key v = al_insert eq' es key v" "al_remove eq es key = al_remove eq' es key"
    by simp_all
qed

text \<open>The refinement of the ordered map, restated for the equality of values itself.\<close>

lemma vm_facts:
  assumes "value_env H" "hash_table T E" "vm_reach H T sh m" "wf_value H k"
  defines "C \<equiv> value_cfg H T sh" and "G \<equiv> guarded_cfg H T sh"
  shows "omap G E" "om_inv G E m"
    "om_insert C m k v = om_insert G m k v" "om_remove C m k = om_remove G m k" "om_get C m k = om_get G m k"
    "al_get (cfg_eq G) (om_entries m) k = al_get (value_eq H) (om_entries m) k"
    "al_insert (cfg_eq G) (om_entries m) k v = al_insert (value_eq H) (om_entries m) k v"
    "al_remove (cfg_eq G) (om_entries m) k = al_remove (value_eq H) (om_entries m) k"
proof -
  note g = vm_reach_guarded [OF assms(3)]
  show om: "omap G E"
    unfolding G_def using assms(2) guarded_hash_key [OF assms(1), of T sh]
    by (intro omap.intro) (simp_all add: guarded_cfg_def value_cfg_def)
  show inv: "om_inv G E m" using om_reach_inv [OF om] g unfolding G_def by blast
  have km: "key_matches C m k i = key_matches G m k i" for i
    unfolding C_def G_def using g assms(4) by (intro guarded_matches) simp_all
  note same = cfg_eq_irrelevant [OF km, unfolded C_def G_def]
  show "om_insert C m k v = om_insert G m k v" "om_remove C m k = om_remove G m k" "om_get C m k = om_get G m k"
    unfolding C_def G_def by (rule same; simp add: guarded_cfg_def)+
  have eq: "cfg_eq G (fst e) k = value_eq H (fst e) k" if "e \<in> set (om_entries m)" for e
    using entries_keys [OF inv that] g assms(4) unfolding G_def
    by (auto simp: guarded_cfg_def value_cfg_def)
  show "al_get (cfg_eq G) (om_entries m) k = al_get (value_eq H) (om_entries m) k"
    "al_insert (cfg_eq G) (om_entries m) k v = al_insert (value_eq H) (om_entries m) k v"
    "al_remove (cfg_eq G) (om_entries m) k = al_remove (value_eq H) (om_entries m) k"
    using eq by (intro al_cong_on; simp)+
qed

lemma vm_keys_wf:
  assumes "value_env H" "hash_table T E" "vm_reach H T sh m" "e \<in> set (om_entries m)"
  shows "wf_value H (fst e)"
  using entries_keys [OF vm_facts(2) [OF assms(1-3), of VUnit] assms(4)] vm_reach_guarded [OF assms(3)]
  by (auto)

lemma vm_eq_entries:
  assumes "value_env H" "hash_table T E" "vm_reach H T sh m" "vm_reach H T sh m'"
  shows "om_eq (value_cfg H T sh) veq m m' = entries_eq (value_eq H) veq (om_entries m) (om_entries m')"
proof -
  have len: "om_len n = length (om_entries n)" if n: "vm_reach H T sh n" for n :: "(mux_value, 'b, 'a) ordered_map"
  proof -
    obtain ns fs where r: "om_rep (guarded_cfg H T sh) E n ns fs"
      using vm_facts(2) [OF assms(1,2) n, of VUnit] by (auto simp: om_inv_def)
    show ?thesis using om_rep_entries [OF r] om_repD(6) [OF r] by simp
  qed
  have "om_get (value_cfg H T sh) m' k = al_get (value_eq H) (om_entries m') k" if "wf_value H k" for k
    using vm_facts(5,6) [OF assms(1,2,4) that]
      omap.lookup_laws [OF vm_facts(1,2) [OF assms(1,2,4) that], THEN conjunct1, of k] by simp
  then show ?thesis
    unfolding om_eq_def entries_eq_def len [OF assms(3)] len [OF assms(4)]
    using vm_keys_wf [OF assms(1-3)] by (auto simp: list_all_iff)
qed

end
