(* ===== verification/Value_Properties.thy ===== *)
theory Value_Properties
  imports Value_Keys
begin

text \<open>
  A concrete environment that satisfies every contract of the value laws, and the
  properties of values: equality and hash, order, and maps keyed by values.
\<close>

unbundle bit_operations_syntax

subsection \<open>A concrete environment\<close>

definition float_key :: "f64 \<Rightarrow> int" where
  "float_key w = (if w AND 0x7FF0000000000000 = 0x7FF0000000000000 \<and> w AND 0x000FFFFFFFFFFFFF \<noteq> 0
      then 2 ^ 64
      else if w AND 0x8000000000000000 \<noteq> 0 then - uint (w AND 0x7FFFFFFFFFFFFFFF) else uint w)"

definition digit_cmp :: "object_ref \<Rightarrow> object_ref \<Rightarrow> int" where
  "digit_cmp a b = uint (obj_ptr a) mod 10 - uint (obj_ptr b) mod 10"

definition first_byte :: "u8 list \<Rightarrow> int" where
  "first_byte bs = (case bs of [] \<Rightarrow> 0 | b # _ \<Rightarrow> uint b)"

definition demo_callbacks :: "type_id \<Rightarrow> object_callbacks" where
  "demo_callbacks t = (if t = 1
     then \<lparr> cb_equals = Some (\<lambda>a b. digit_cmp a b = 0), cb_compare = Some digit_cmp,
            cb_hash = Some (\<lambda>a. word_of_int (uint (obj_ptr a) mod 10)), cb_can_snapshot = True \<rparr>
     else default_callbacks)"

definition demo_hooks :: hooks where
  "demo_hooks = \<lparr> hk_float_eq = (\<lambda>a b. float_key a = float_key b),
     hk_float_cmp = (\<lambda>a b. cmp_of (float_key a) (float_key b)),
     hk_float_hash = (\<lambda>a. [HI64 (float_key a)]), hk_float_fmt = (\<lambda>_. []),
     hk_callbacks = demo_callbacks,
     hk_enum_cmp = (\<lambda>_ a b. first_byte a - first_byte b),
     hk_enum_hash = (\<lambda>_ a. word_of_int (first_byte a)), hk_hash_glue_of = id, hk_enum_clone = (\<lambda>_ a. a),
     hk_default_hash = (\<lambda>ts. of_nat (length ts)) \<rparr>"

lemma cmp_of_diff: "cmp_of (a - b) (0::int) = cmp_of a b"
  by (simp add: cmp_of_def)

interpretation demo: value_order demo_hooks
proof
  fix t e c and a b :: object_ref and h
  show "eq_on UNIV (hk_float_eq demo_hooks)"
    by (rule eq_on_kernel [where f = float_key]) (simp add: demo_hooks_def)
  show "cmp_on UNIV (hk_float_cmp demo_hooks)"
    by (rule cmp_on_pullback [OF cmp_on_linorder [of UNIV], where f = float_key]) (simp_all add: demo_hooks_def)
  show "cb_equals (hk_callbacks demo_hooks t) = Some e \<Longrightarrow> eq_on {a. obj_type_id a = t} e"
    by (rule eq_on_kernel [where f = "\<lambda>a. uint (obj_ptr a) mod 10"])
      (auto simp: demo_hooks_def demo_callbacks_def default_callbacks_def digit_cmp_def split: if_splits)
  show "cb_compare (hk_callbacks demo_hooks t) = Some c \<Longrightarrow>
      cmp_on {a. obj_type_id a = t} (\<lambda>a b. cmp_of (c a b) 0)"
    by (rule cmp_on_pullback [OF cmp_on_linorder [of UNIV], where f = "\<lambda>a. uint (obj_ptr a) mod 10"])
      (auto simp: demo_hooks_def demo_callbacks_def default_callbacks_def digit_cmp_def cmp_of_diff split: if_splits)
  show "cb_hash (hk_callbacks demo_hooks (obj_type_id a)) = Some h \<Longrightarrow>
      structural_eq demo_hooks a b = Some True \<Longrightarrow> h a = h b"
    by (auto simp: demo_hooks_def demo_callbacks_def default_callbacks_def digit_cmp_def
        structural_eq_def keying_def split: if_splits)
  show "cb_equals (hk_callbacks demo_hooks t) = Some e \<Longrightarrow>
    \<exists>c. cb_compare (hk_callbacks demo_hooks t) = Some c \<and>
      (\<forall>a b. obj_type_id a = t \<longrightarrow> obj_type_id b = t \<longrightarrow> (e a b \<longleftrightarrow> c a b = 0))"
    by (auto simp: demo_hooks_def demo_callbacks_def default_callbacks_def split: if_splits)
next
  fix glue :: u64
  show "cmp_on UNIV (\<lambda>a b. cmp_of (hk_enum_cmp demo_hooks glue a b) 0)"
    by (rule cmp_on_pullback [OF cmp_on_linorder [of UNIV], where f = first_byte])
      (simp_all add: demo_hooks_def cmp_of_diff)
  fix x y
  assume "hk_enum_cmp demo_hooks glue x y = 0"
  then have "first_byte x = first_byte y" by (simp add: demo_hooks_def)
  then show "hk_enum_hash demo_hooks (hk_hash_glue_of demo_hooks glue) x =
      hk_enum_hash demo_hooks (hk_hash_glue_of demo_hooks glue) y" by (simp add: demo_hooks_def)
next
  fix f g
  show "hk_float_cmp demo_hooks f g = Equal \<longleftrightarrow> hk_float_eq demo_hooks f g"
    by (simp add: demo_hooks_def)
  assume "hk_float_eq demo_hooks f g"
  then show "hk_float_hash demo_hooks f = hk_float_hash demo_hooks g" by (simp add: demo_hooks_def)
qed

subsection \<open>Properties\<close>

text \<open>C6. On values whose maps and sets have pairwise different keys, equality is reflexive,
  symmetric and transitive, and equal values feed the same words to every hasher: the contract a
  hash table needs of its keys.\<close>

theorem value_eq_hash_contract:
  assumes "value_env H" and "wf_value H a" "wf_value H b" "wf_value H c"
  shows "value_eq H a a \<and> (value_eq H a b \<longrightarrow> value_eq H b a) \<and>
    (value_eq H a b \<and> value_eq H b c \<longrightarrow> value_eq H a c) \<and>
    (value_eq H a b \<longrightarrow> value_hash H a = value_hash H b)"
proof -
  note L = eq_onD [OF value_env.value_eq_on [OF assms(1)], unfolded mem_Collect_eq]
  show ?thesis
    using L(1) [OF assms(2)] L(2) [OF assms(2,3)] L(3) [OF assms(2-4)]
      value_env.value_hash_eq [OF assms(1-3)] by blast
qed

definition ex_a :: mux_value where
  "ex_a = VMap [(VInt 1, VSet [VString ''x'', VFloat 0]),
                (VObject \<lparr> obj_ptr = 13, obj_type_id = 1, obj_size = 8 \<rparr>, VUnit)]"

definition ex_b :: mux_value where
  "ex_b = VMap [(VObject \<lparr> obj_ptr = 23, obj_type_id = 1, obj_size = 8 \<rparr>, VUnit),
                (VInt 1, VSet [VFloat 0x8000000000000000, VString ''x''])]"

lemmas value_eval = ex_a_def ex_b_def demo_hooks_def demo_callbacks_def default_callbacks_def
  digit_cmp_def float_key_def keys_apart_def entries_eq_def members_eq_def object_eq_def
  structural_eq_def keying_def cmp_of_def value_eq.simps

lemma ex_wf: "wf_value demo_hooks ex_a" "wf_value demo_hooks ex_b"
  by (simp_all add: value_eval)

lemma ex_eq: "value_eq demo_hooks ex_a ex_b"
  by (simp add: value_eval)

theorem value_eq_hash_contract_witness:
  "value_env demo_hooks \<and> wf_value demo_hooks ex_a \<and> wf_value demo_hooks ex_b \<and>
   ex_a \<noteq> ex_b \<and> value_eq demo_hooks ex_b ex_a \<and> value_hash demo_hooks ex_a = value_hash demo_hooks ex_b"
  using value_eq_hash_contract [OF demo.value_env_axioms ex_wf ex_wf(1)] ex_wf ex_eq demo.value_env_axioms
  by (simp add: ex_a_def ex_b_def)

text \<open>C7. The order of values is a total preorder for every set of registered classes, those
  that declare an equality and no order included: swapping the arguments reverses the answer
  and the relation is transitive, so sorting the entries of a map never sees an inconsistent
  comparison and yields a sorted sequence.\<close>

theorem value_cmp_total_preorder:
  assumes "value_total H"
  shows "value_cmp H b a = swap_ord (value_cmp H a b) \<and>
    (value_cmp H a b \<noteq> Greater \<and> value_cmp H b c \<noteq> Greater \<longrightarrow> value_cmp H a c \<noteq> Greater) \<and>
    sorted_wrt (\<lambda>x y. value_cmp H x y \<noteq> Greater) (sort_by (value_cmp H) xs)"
  using cmp_onD [OF value_total.value_cmp_on [OF assms], of a b] 
    sorted_sort_by [OF value_total.value_cmp_on [OF assms], of xs] by blast

theorem value_cmp_total_preorder_witness:
  "value_total demo_hooks \<and> value_cmp demo_hooks (VInt 3) (VList []) = Less \<and>
   value_cmp demo_hooks (VList []) (VInt 3) = Greater"
proof -
  have "value_cmp demo_hooks (VInt 3) (VList []) = Less" by (simp add: value_cmp_variant)
  then show ?thesis
    using value_cmp_total_preorder [OF demo.value_total_axioms, of "VList []" "VInt 3" VUnit "[]"]
      demo.value_total_axioms by simp
qed

text \<open>C8. When every class that declares an equality also declares an order that agrees with it,
  two well-formed values compare as equal exactly when they are equal, maps and sets compared
  after sorting included.\<close>

theorem value_cmp_agrees_with_eq:
  assumes "value_order H" and "wf_value H a" "wf_value H b"
  shows "value_cmp H a b = Equal \<longleftrightarrow> value_eq H a b"
  by (rule value_order.value_cmp_Equal [OF assms])

theorem value_cmp_agrees_with_eq_witness:
  "value_order demo_hooks \<and> wf_value demo_hooks ex_a \<and> wf_value demo_hooks ex_b \<and>
   value_cmp demo_hooks ex_a ex_b = Equal"
  using value_cmp_agrees_with_eq [OF demo.value_order_axioms ex_wf] demo.value_order_axioms ex_wf ex_eq
  by blast

text \<open>C9. An ordered map keyed by values, over any hash table that keeps its contract and any
  seeded hasher, behaves as its list of entries under value equality: insertion, removal, lookup
  and the map equality that value equality recurses into.\<close>

theorem value_map_refines:
  assumes "value_env H" "hash_table T E" "vm_reach H T sh m" "vm_reach H T sh m'" "wf_value H k"
  shows "om_entries (snd (om_insert (value_cfg H T sh) m k v)) = al_insert (value_eq H) (om_entries m) k v \<and>
    fst (om_insert (value_cfg H T sh) m k v) = al_get (value_eq H) (om_entries m) k \<and>
    om_entries (snd (om_remove (value_cfg H T sh) m k)) = al_remove (value_eq H) (om_entries m) k \<and>
    om_get (value_cfg H T sh) m k = al_get (value_eq H) (om_entries m) k \<and>
    om_eq (value_cfg H T sh) (value_eq H) m m' = value_eq H (VMap (om_entries m)) (VMap (om_entries m'))"
proof -
  note f = vm_facts [OF assms(1-3,5)] and e = vm_eq_entries [OF assms(1-4), of "value_eq H"]
  show ?thesis
    unfolding f(3-5) e value_eq_simps
    using omap.insert_refines [OF f(1,2), of k v] omap.remove_refines [OF f(1,2), of k]
      omap.lookup_laws [OF f(1,2), THEN conjunct1, of k] f(6-8)
    by simp
qed

definition ex_vm :: "(mux_value, mux_value, (u64 \<times> nat) list) ordered_map" where
  "ex_vm = snd (om_insert (value_cfg demo_hooks list_table (\<lambda>ts. of_nat (length ts)))
     (om_new (value_cfg demo_hooks list_table (\<lambda>ts. of_nat (length ts)))) ex_a (VInt 1))"

lemma ex_vm_reach: "vm_reach demo_hooks list_table (\<lambda>ts. of_nat (length ts)) ex_vm"
  unfolding ex_vm_def by (intro vm_reach.intros ex_wf)

theorem value_map_refines_witness:
  "value_env demo_hooks \<and> hash_table list_table mset \<and>
   vm_reach demo_hooks list_table (\<lambda>ts. of_nat (length ts)) ex_vm \<and>
   om_get (value_cfg demo_hooks list_table (\<lambda>ts. of_nat (length ts))) ex_vm ex_b =
     al_get (value_eq demo_hooks) (om_entries ex_vm) ex_b"
  using value_map_refines [OF demo.value_env_axioms list_table.hash_table_axioms ex_vm_reach ex_vm_reach ex_wf(2),
      of VUnit] demo.value_env_axioms list_table.hash_table_axioms ex_vm_reach by blast

subsection \<open>Classes with an equality and no order\<close>

text \<open>
  The hypothesis of C9 is needed, and not only because unequal instances may order as equal:
  with a class that declares an equality and no order, two equal maps can order as different.
  All instances share one sorting key, so the stable sort keeps the insertion orders of the two
  maps and pairs different keys with each other.
\<close>

definition eq_only_hooks :: hooks where
  "eq_only_hooks = demo_hooks\<lparr> hk_callbacks := (\<lambda>t. if t = 1
     then \<lparr> cb_equals = Some (\<lambda>a b. digit_cmp a b = 0), cb_compare = None, cb_hash = None,
            cb_can_snapshot = True \<rparr>
     else default_callbacks) \<rparr>"

interpretation eq_only: value_total eq_only_hooks
proof
  fix t e c and a b :: object_ref and h
  show "eq_on UNIV (hk_float_eq eq_only_hooks)" "cmp_on UNIV (hk_float_cmp eq_only_hooks)"
    using demo.float_eq demo.float_cmp by (simp_all add: eq_only_hooks_def)
  show "cb_equals (hk_callbacks eq_only_hooks t) = Some e \<Longrightarrow> eq_on {a. obj_type_id a = t} e"
    by (rule eq_on_kernel [where f = "\<lambda>a. uint (obj_ptr a) mod 10"])
      (auto simp: eq_only_hooks_def default_callbacks_def digit_cmp_def split: if_splits)
  show "cb_compare (hk_callbacks eq_only_hooks t) = Some c \<Longrightarrow>
      cmp_on {a. obj_type_id a = t} (\<lambda>a b. cmp_of (c a b) 0)"
    by (simp add: eq_only_hooks_def default_callbacks_def split: if_splits)
  show "cb_hash (hk_callbacks eq_only_hooks (obj_type_id a)) = Some h \<Longrightarrow>
      structural_eq eq_only_hooks a b = Some True \<Longrightarrow> h a = h b"
    by (simp add: eq_only_hooks_def default_callbacks_def split: if_splits)
next
  fix glue :: u64 and x y
  show "cmp_on UNIV (\<lambda>a b. cmp_of (hk_enum_cmp eq_only_hooks glue a b) 0)"
    using demo.enum_cmp [of glue] by (simp add: eq_only_hooks_def)
  show "hk_enum_cmp eq_only_hooks glue x y = 0 \<Longrightarrow>
    hk_enum_hash eq_only_hooks (hk_hash_glue_of eq_only_hooks glue) x =
    hk_enum_hash eq_only_hooks (hk_hash_glue_of eq_only_hooks glue) y"
    using demo.enum_hash [of glue x y] by (simp add: eq_only_hooks_def)
next
  fix f g
  show "hk_float_cmp eq_only_hooks f g = Equal \<longleftrightarrow> hk_float_eq eq_only_hooks f g"
    "hk_float_eq eq_only_hooks f g \<Longrightarrow> hk_float_hash eq_only_hooks f = hk_float_hash eq_only_hooks g"
    using demo.float_cmp_eq [of f g] demo.float_hash [of f g] by (simp_all add: eq_only_hooks_def)
qed

definition ex_obj :: "u64 \<Rightarrow> mux_value" where
  "ex_obj p = VObject \<lparr> obj_ptr = p, obj_type_id = 1, obj_size = 8 \<rparr>"

definition ex_m1 :: mux_value where
  "ex_m1 = VMap [(ex_obj 1, VInt 1), (ex_obj 2, VInt 2)]"

definition ex_m2 :: mux_value where
  "ex_m2 = VMap [(ex_obj 2, VInt 2), (ex_obj 1, VInt 1)]"

text \<open>Order and equality part for maps whose keys belong to a class with a registered equality and
  no registered order: two maps with the same entries, inserted in opposite orders, are equal, and the
  first is ordered before the second.\<close>

lemma equal_maps_order_differently:
  "value_total eq_only_hooks \<and> wf_value eq_only_hooks ex_m1 \<and> wf_value eq_only_hooks ex_m2 \<and>
   value_eq eq_only_hooks ex_m1 ex_m2 \<and> value_cmp eq_only_hooks ex_m1 ex_m2 = Less"
  using eq_only.value_total_axioms
  by (simp add: ex_m1_def ex_m2_def ex_obj_def value_eval eq_only_hooks_def entries_cmp_def pair_cmp_def
      object_cmp_def structural_cmp_def structural_key_def)

end
