(* ===== verification/Runtime_Heap.thy ===== *)
theory Runtime_Heap
  imports Value_Keys "HOL-Library.Monad_Syntax"
begin

text \<open>
  Reference-counted blocks (\<open>src/src/refcount.rs\<close>), the object registry and object storage
  (\<open>src/src/object.rs\<close>, \<open>ObjectData\<close> in \<open>src/src/lib.rs\<close>). The state is the record \<open>heap\<close>. Address
  0 is the null pointer. An access through a pointer that is not live is undefined behaviour
  in the source and the value \<^term>\<open>None\<close> here, so that a theorem about a result also says that no
  such access happens. The system allocator is the two fields \<open>hp_oom\<close> (which allocations fail)
  and \<open>hp_buf\<close> (the address of the n-th object buffer, 0 on failure).
\<close>

subsection \<open>State\<close>

record obj_type =
  ot_name :: string
  ot_size :: nat
  ot_destructor :: "u64 option"  \<comment> \<open>address of the callback\<close>
  ot_copy :: "(u8 list \<Rightarrow> u8 list) option"
  ot_shared :: bool
  ot_equals :: "(u8 list \<Rightarrow> u8 list \<Rightarrow> bool) option"
  ot_compare :: "(u8 list \<Rightarrow> u8 list \<Rightarrow> int) option"
  ot_hash :: "(u8 list \<Rightarrow> u64) option"

record heap =
  hp_blocks :: "nat \<rightharpoonup> nat \<times> mux_value"  \<comment> \<open>reference count and payload\<close>
  hp_next :: nat
  hp_oom :: "nat \<Rightarrow> bool"
  hp_live :: int
  hp_panicked :: bool
  hp_strong :: "object_ref \<Rightarrow> nat"  \<comment> \<open>handles to each object\<close>
  hp_log :: "(u64 \<times> u64) list"  \<comment> \<open>destructor calls, latest first\<close>
  hp_freed :: "u64 list"  \<comment> \<open>released buffers, latest first\<close>
  hp_types :: "type_id \<rightharpoonup> obj_type"
  hp_next_type :: type_id
  hp_mem :: "u64 \<Rightarrow> u8 list"
  hp_buf :: "nat \<Rightarrow> u64"
  hp_nbuf :: nat

definition heap_init :: "(nat \<Rightarrow> bool) \<Rightarrow> (nat \<Rightarrow> u64) \<Rightarrow> heap" where
  "heap_init oom buf = \<lparr> hp_blocks = Map.empty, hp_next = 1, hp_oom = oom, hp_live = 0,
     hp_panicked = False, hp_strong = (\<lambda>_. 0), hp_log = [], hp_freed = [], hp_types = Map.empty,
     hp_next_type = 1, hp_mem = (\<lambda>_. []), hp_buf = buf, hp_nbuf = 0 \<rparr>"

subsection \<open>Handles inside a value\<close>

fun objs :: "mux_value \<Rightarrow> object_ref list" where
  "objs (VList xs) = concat (map objs xs)"
| "objs (VMap es) = concat (map (\<lambda>e. objs (fst e) @ objs (snd e)) es)"
| "objs (VSet xs) = concat (map objs xs)"
| "objs (VTuple a b) = objs a @ objs b"
| "objs (VOptional (Some v)) = objs v"
| "objs (VResult (Inl v)) = objs v"
| "objs (VResult (Inr v)) = objs v"
| "objs (VObject obj) = [obj]"
| "objs _ = []"

definition retain_obj :: "object_ref \<Rightarrow> 'z heap_scheme \<Rightarrow> 'z heap_scheme" where
  "retain_obj obj h = h\<lparr>hp_strong := (hp_strong h)(obj := hp_strong h obj + 1)\<rparr>"

definition call_object_destructor :: "type_id \<Rightarrow> u64 \<Rightarrow> 'z heap_scheme \<Rightarrow> 'z heap_scheme" where
  "call_object_destructor t ptr h =
     (if ptr = 0 then h
      else case Option.bind (hp_types h t) ot_destructor of
        None \<Rightarrow> h
      | Some func \<Rightarrow> h\<lparr>hp_log := (func, ptr) # hp_log h\<rparr>)"

definition drop_object_data :: "object_ref \<Rightarrow> 'z heap_scheme \<Rightarrow> 'z heap_scheme" where
  "drop_object_data obj h =
     (if obj_ptr obj \<noteq> 0 \<and> obj_size obj > 0
      then let h1 = call_object_destructor (obj_type_id obj) (obj_ptr obj) h
           in h1\<lparr>hp_freed := obj_ptr obj # hp_freed h1\<rparr>
      else h)"

text \<open>Dropping a handle; the last one drops the object data.\<close>

definition release_obj :: "object_ref \<Rightarrow> 'z heap_scheme \<Rightarrow> 'z heap_scheme" where
  "release_obj obj h =
     (let h1 = h\<lparr>hp_strong := (hp_strong h)(obj := hp_strong h obj - 1)\<rparr>
      in if hp_strong h obj = 1 then drop_object_data obj h1 else h1)"

definition drop_value :: "mux_value \<Rightarrow> 'z heap_scheme \<Rightarrow> 'z heap_scheme" where
  "drop_value v h = fold release_obj (objs v) h"

definition clone_value :: "hooks \<Rightarrow> mux_value \<Rightarrow> 'z heap_scheme \<Rightarrow> mux_value \<times> 'z heap_scheme" where
  "clone_value H v h = (value_clone H v, fold retain_obj (objs v) h)"

subsection \<open>Blocks\<close>

definition mux_rc_alloc :: "mux_value \<Rightarrow> 'z heap_scheme \<Rightarrow> nat \<times> 'z heap_scheme" where
  "mux_rc_alloc v h =
     (let p = hp_next h; h1 = h\<lparr>hp_next := p + 1\<rparr> in
      if hp_oom h p then (0, drop_value v h1)
      else (p, h1\<lparr>hp_blocks := (hp_blocks h1)(p \<mapsto> (1, v)), hp_live := hp_live h1 + 1\<rparr>))"

definition deref :: "nat \<Rightarrow> 'z heap_scheme \<Rightarrow> mux_value option" where
  "deref p h = map_option snd (hp_blocks h p)"

definition set_block :: "nat \<Rightarrow> mux_value \<Rightarrow> 'z heap_scheme \<Rightarrow> 'z heap_scheme" where
  "set_block p v h = h\<lparr>hp_blocks := (hp_blocks h)(p := map_option (\<lambda>(n, _). (n, v)) (hp_blocks h p))\<rparr>"

definition mux_rc_inc :: "nat \<Rightarrow> 'z heap_scheme \<Rightarrow> 'z heap_scheme option" where
  "mux_rc_inc p h = (if p = 0 then Some h
     else case hp_blocks h p of
       None \<Rightarrow> None
     | Some (n, v) \<Rightarrow> Some (h\<lparr>hp_blocks := (hp_blocks h)(p \<mapsto> (n + 1, v))\<rparr>))"

definition mux_rc_dec :: "nat \<Rightarrow> 'z heap_scheme \<Rightarrow> (bool \<times> 'z heap_scheme) option" where
  "mux_rc_dec p h = (if p = 0 then Some (False, h)
     else case hp_blocks h p of
       None \<Rightarrow> None
     | Some (old_count, v) \<Rightarrow>
         let h1 = h\<lparr>hp_blocks := (hp_blocks h)(p \<mapsto> (old_count - 1, v))\<rparr> in
         if old_count = 1
         then let h2 = drop_value v h1
              in Some (True, h2\<lparr>hp_blocks := (hp_blocks h2)(p := None), hp_live := hp_live h2 - 1\<rparr>)
         else Some (False, h1))"

definition mux_rc_count :: "nat \<Rightarrow> 'z heap_scheme \<Rightarrow> nat option" where
  "mux_rc_count p h = (if p = 0 then Some 0 else map_option fst (hp_blocks h p))"

definition mux_rc_clone :: "nat \<Rightarrow> 'z heap_scheme \<Rightarrow> (nat \<times> 'z heap_scheme) option" where
  "mux_rc_clone p h = (if p = 0 then Some (0, h) else map_option (\<lambda>h'. (p, h')) (mux_rc_inc p h))"

definition note_panic_for_leak_check :: "'z heap_scheme \<Rightarrow> 'z heap_scheme" where
  "note_panic_for_leak_check h = h\<lparr>hp_panicked := True\<rparr>"

definition rc_leak_message :: "int \<Rightarrow> string option" where
  "rc_leak_message live = (if live = 0 then None
     else Some (''mux-runtime rc-leak-check: '' @ show_int live @
       '' reference-counted block(s) still live at exit (expected 0); a value outlived global teardown - see mux-compiler#284.''))"

text \<open>The exit handler: \<^term>\<open>None\<close> when it stays silent, otherwise the report and the exit status.\<close>

definition check_live_rc_blocks_at_exit :: "'z heap_scheme \<Rightarrow> (string \<times> int) option" where
  "check_live_rc_blocks_at_exit h =
     (if hp_panicked h then None else map_option (\<lambda>m. (m, 101)) (rc_leak_message (hp_live h)))"

subsection \<open>Object types\<close>

definition object_type_new ::
  "string \<Rightarrow> nat \<Rightarrow> u64 option \<Rightarrow> (u8 list \<Rightarrow> u8 list) option \<Rightarrow> 'z heap_scheme \<Rightarrow>
     (type_id \<times> obj_type) \<times> 'z heap_scheme" where
  "object_type_new name sz destructor copy h =
     (let id = hp_next_type h in
      ((id, \<lparr> ot_name = name, ot_size = sz, ot_destructor = destructor, ot_copy = copy,
              ot_shared = False, ot_equals = None, ot_compare = None, ot_hash = None \<rparr>),
       h\<lparr>hp_next_type := id + 1\<rparr>))"

definition register_object_type_with_copy ::
  "string \<Rightarrow> nat \<Rightarrow> u64 option \<Rightarrow> (u8 list \<Rightarrow> u8 list) option \<Rightarrow> 'z heap_scheme \<Rightarrow> type_id \<times> 'z heap_scheme" where
  "register_object_type_with_copy name sz destructor copy h =
     (let ((id, t), h1) = object_type_new name sz destructor copy h
      in (id, h1\<lparr>hp_types := (hp_types h1)(id \<mapsto> t)\<rparr>))"

definition register_object_type ::
  "string \<Rightarrow> nat \<Rightarrow> u64 option \<Rightarrow> 'z heap_scheme \<Rightarrow> type_id \<times> 'z heap_scheme" where
  "register_object_type name sz destructor h = register_object_type_with_copy name sz destructor None h"

definition register_shared_object_type ::
  "string \<Rightarrow> nat \<Rightarrow> u64 option \<Rightarrow> 'z heap_scheme \<Rightarrow> type_id \<times> 'z heap_scheme" where
  "register_shared_object_type name sz destructor h =
     (let ((id, t), h1) = object_type_new name sz destructor None h
      in (id, h1\<lparr>hp_types := (hp_types h1)(id \<mapsto> t\<lparr>ot_shared := True\<rparr>)\<rparr>))"

definition mux_register_object_type :: "string \<Rightarrow> nat \<Rightarrow> 'z heap_scheme \<Rightarrow> type_id \<times> 'z heap_scheme" where
  "mux_register_object_type name sz h = register_object_type name sz None h"

definition update_type :: "type_id \<Rightarrow> (obj_type \<Rightarrow> obj_type) \<Rightarrow> 'z heap_scheme \<Rightarrow> 'z heap_scheme" where
  "update_type t f h = h\<lparr>hp_types := (hp_types h)(t := map_option f (hp_types h t))\<rparr>"

definition mux_register_object_copy :: "type_id \<Rightarrow> (u8 list \<Rightarrow> u8 list) \<Rightarrow> 'z heap_scheme \<Rightarrow> 'z heap_scheme" where
  "mux_register_object_copy t copy_fn h = update_type t (ot_copy_update (\<lambda>_. Some copy_fn)) h"

definition mux_register_object_destructor :: "type_id \<Rightarrow> u64 \<Rightarrow> 'z heap_scheme \<Rightarrow> 'z heap_scheme" where
  "mux_register_object_destructor t destructor h = update_type t (ot_destructor_update (\<lambda>_. Some destructor)) h"

definition mux_register_object_equals ::
  "type_id \<Rightarrow> (u8 list \<Rightarrow> u8 list \<Rightarrow> bool) \<Rightarrow> 'z heap_scheme \<Rightarrow> 'z heap_scheme" where
  "mux_register_object_equals t equals_fn h = update_type t (ot_equals_update (\<lambda>_. Some equals_fn)) h"

definition mux_register_object_compare ::
  "type_id \<Rightarrow> (u8 list \<Rightarrow> u8 list \<Rightarrow> int) \<Rightarrow> 'z heap_scheme \<Rightarrow> 'z heap_scheme" where
  "mux_register_object_compare t compare_fn h = update_type t (ot_compare_update (\<lambda>_. Some compare_fn)) h"

definition mux_register_object_hash :: "type_id \<Rightarrow> (u8 list \<Rightarrow> u64) \<Rightarrow> 'z heap_scheme \<Rightarrow> 'z heap_scheme" where
  "mux_register_object_hash t hash_fn h = update_type t (ot_hash_update (\<lambda>_. Some hash_fn)) h"

text \<open>
  What the registry answers for a type. A callback reads the buffers of its arguments, so in a
  given heap it is a function of the handles.
\<close>

definition object_callbacks :: "'z heap_scheme \<Rightarrow> type_id \<Rightarrow> object_callbacks" where
  "object_callbacks h t = (case hp_types h t of
       None \<Rightarrow> default_callbacks
     | Some ty \<Rightarrow> \<lparr> cb_equals = map_option (\<lambda>f a b. f (hp_mem h (obj_ptr a)) (hp_mem h (obj_ptr b))) (ot_equals ty),
                    cb_compare = map_option (\<lambda>f a b. f (hp_mem h (obj_ptr a)) (hp_mem h (obj_ptr b))) (ot_compare ty),
                    cb_hash = map_option (\<lambda>f a. f (hp_mem h (obj_ptr a))) (ot_hash ty),
                    cb_can_snapshot = (ot_copy ty \<noteq> None) \<rparr>)"

text \<open>The environment of value equality, order and hash in a given heap.\<close>

definition heap_hooks :: "hooks \<Rightarrow> 'z heap_scheme \<Rightarrow> hooks" where
  "heap_hooks H h = H\<lparr>hk_callbacks := object_callbacks h\<rparr>"

subsection \<open>Objects\<close>

definition alloc_object :: "type_id \<Rightarrow> 'z heap_scheme \<Rightarrow> nat \<times> 'z heap_scheme" where
  "alloc_object t h = (case hp_types h t of
       None \<Rightarrow> (0, h)
     | Some ty \<Rightarrow>
         if ot_size ty > 2 ^ 63 - 1 then (0, h)
         else let ptr = hp_buf h (hp_nbuf h); h1 = h\<lparr>hp_nbuf := hp_nbuf h + 1\<rparr> in
           if ptr = 0 then (0, h1)
           else let obj = \<lparr> obj_ptr = ptr, obj_type_id = t, obj_size = ot_size ty \<rparr>
                in mux_rc_alloc (VObject obj) (h1\<lparr>hp_strong := (hp_strong h1)(obj := 1)\<rparr>))"

definition free_object :: "nat \<Rightarrow> 'z heap_scheme \<Rightarrow> 'z heap_scheme option" where
  "free_object p h = map_option snd (mux_rc_dec p h)"

definition get_object_ptr :: "mux_value option \<Rightarrow> u64" where
  "get_object_ptr obj = (case obj of Some (VObject r) \<Rightarrow> obj_ptr r | _ \<Rightarrow> 0)"

definition get_object_type_id :: "mux_value option \<Rightarrow> type_id" where
  "get_object_type_id obj = (case obj of Some (VObject r) \<Rightarrow> obj_type_id r | _ \<Rightarrow> 0)"

text \<open>The argument is what the source pointer points to; \<^term>\<open>None\<close> is a null pointer.\<close>

definition copy_object :: "hooks \<Rightarrow> mux_value option \<Rightarrow> 'z heap_scheme \<Rightarrow> nat \<times> 'z heap_scheme" where
  "copy_object H src h = (case src of
       None \<Rightarrow> (0, h)
     | Some v \<Rightarrow>
         let t = get_object_type_id src in
         case hp_types h t of
           None \<Rightarrow> (0, h)
         | Some ty \<Rightarrow>
             if ot_shared ty then let (v', h1) = clone_value H v h in mux_rc_alloc v' h1
             else case ot_copy ty of
               None \<Rightarrow> (0, h)
             | Some copy_fn \<Rightarrow>
                 let (dest, h1) = alloc_object t h in
                 if dest = 0 then (0, h1)
                 else let src_ptr = get_object_ptr src;
                          dest_ptr = get_object_ptr (deref dest h1)
                      in (dest, h1\<lparr>hp_mem := (hp_mem h1)(dest_ptr := copy_fn (hp_mem h1 src_ptr))\<rparr>))"

subsection \<open>Maps and sets inside values\<close>

text \<open>
  \<open>OrderedMap::insert\<close>, \<open>OrderedMap::remove\<close> and the two for sets, on the entries of a map inside
  a value, with what the source drops: on a hit, insertion drops the new key and the old value;
  removal drops the stored key.
\<close>

definition map_insert ::
  "hooks \<Rightarrow> (mux_value \<times> mux_value) list \<Rightarrow> mux_value \<Rightarrow> mux_value \<Rightarrow> 'z heap_scheme \<Rightarrow>
     (mux_value \<times> mux_value) list \<times> 'z heap_scheme" where
  "map_insert H es k v h =
     (let eq = value_eq (heap_hooks H h) in
      (al_insert eq es k v,
       case al_get eq es k of None \<Rightarrow> h | Some old \<Rightarrow> drop_value old (drop_value k h)))"

definition map_remove ::
  "hooks \<Rightarrow> (mux_value \<times> mux_value) list \<Rightarrow> mux_value \<Rightarrow> 'z heap_scheme \<Rightarrow>
     mux_value option \<times> (mux_value \<times> mux_value) list \<times> 'z heap_scheme" where
  "map_remove H es key h =
     (let eq = value_eq (heap_hooks H h) in
      (al_get eq es key, al_remove eq es key,
       case find (\<lambda>e. eq (fst e) key) es of None \<Rightarrow> h | Some e \<Rightarrow> drop_value (fst e) h))"

definition set_insert ::
  "hooks \<Rightarrow> mux_value list \<Rightarrow> mux_value \<Rightarrow> 'z heap_scheme \<Rightarrow> bool \<times> mux_value list \<times> 'z heap_scheme" where
  "set_insert H xs v h =
     (let eq = value_eq (heap_hooks H h) in
      if list_ex (\<lambda>x. eq x v) xs then (False, xs, drop_value v h) else (True, xs @ [v], h))"

definition set_remove ::
  "hooks \<Rightarrow> mux_value list \<Rightarrow> mux_value \<Rightarrow> 'z heap_scheme \<Rightarrow> bool \<times> mux_value list \<times> 'z heap_scheme" where
  "set_remove H xs v h =
     (let eq = value_eq (heap_hooks H h) in
      case find (\<lambda>x. eq x v) xs of
        None \<Rightarrow> (False, xs, h)
      | Some x \<Rightarrow> (True, map fst (al_remove eq (map (\<lambda>x. (x, ())) xs) v), drop_value x h))"

subsection \<open>Deep clones\<close>

fun fold_opt :: "('a \<Rightarrow> 's \<Rightarrow> 's option) \<Rightarrow> 'a list \<Rightarrow> 's \<Rightarrow> 's option" where
  "fold_opt f [] s = Some s"
| "fold_opt f (x # xs) s = Option.bind (f x s) (fold_opt f xs)"

lemma fold_opt_cong [fundef_cong]:
  "xs = ys \<Longrightarrow> s = t \<Longrightarrow> (\<And>x s. x \<in> set ys \<Longrightarrow> f x s = g x s) \<Longrightarrow> fold_opt f xs s = fold_opt g ys t"
proof (induction ys arbitrary: xs s t)
  case (Cons y ys)
  then show ?case by (auto intro!: Option.bind_cong)
qed simp

text \<open>
  An object is copied through its registered callback into a temporary block, whose handle is
  cloned before the block is released; an object that cannot be copied is shared.
\<close>

definition deep_clone_object ::
  "hooks \<Rightarrow> object_ref \<Rightarrow> 'z heap_scheme \<Rightarrow> (mux_value \<times> 'z heap_scheme) option" where
  "deep_clone_object H obj h =
     (let h1 = retain_obj obj h;
          (copied_ptr, h2) = copy_object H (Some (VObject obj)) h1
      in if copied_ptr = 0 then Some (VObject obj, release_obj obj (retain_obj obj h2))
         else do {
           v \<leftarrow> deref copied_ptr h2;
           let (result, h3) = clone_value H v h2;
           h4 \<leftarrow> free_object copied_ptr h3;
           Some (result, release_obj obj h4)
         })"

function deep_clone_value ::
  "hooks \<Rightarrow> mux_value \<Rightarrow> 'z heap_scheme \<Rightarrow> (mux_value \<times> 'z heap_scheme) option" where
  "deep_clone_value H val h = (case val of
       VList items \<Rightarrow>
         map_option (\<lambda>(out, h'). (VList out, h'))
           (fold_opt (\<lambda>item (out, h). map_option (\<lambda>(v, h'). (out @ [v], h')) (deep_clone_value H item h)) items ([], h))
     | VMap entries \<Rightarrow>
         map_option (\<lambda>(out, h'). (VMap out, h'))
           (fold_opt (\<lambda>e (out, h). Option.bind (deep_clone_value H (fst e) h) (\<lambda>(k, h1).
              map_option (\<lambda>(v, h2). map_insert H out k v h2) (deep_clone_value H (snd e) h1))) entries ([], h))
     | VSet items \<Rightarrow>
         map_option (\<lambda>(out, h'). (VSet out, h'))
           (fold_opt (\<lambda>item (out, h). map_option (\<lambda>(v, h'). snd (set_insert H out v h'))
              (deep_clone_value H item h)) items ([], h))
     | VTuple a b \<Rightarrow>
         Option.bind (deep_clone_value H a h) (\<lambda>(a', h1).
           map_option (\<lambda>(b', h2). (VTuple a' b', h2)) (deep_clone_value H b h1))
     | VOptional (Some inner) \<Rightarrow> map_option (\<lambda>(v, h'). (VOptional (Some v), h')) (deep_clone_value H inner h)
     | VResult (Inr inner) \<Rightarrow> map_option (\<lambda>(v, h'). (VResult (Inr v), h')) (deep_clone_value H inner h)
     | VResult (Inl inner) \<Rightarrow> map_option (\<lambda>(v, h'). (VResult (Inl v), h')) (deep_clone_value H inner h)
     | VObject obj \<Rightarrow> deep_clone_object H obj h
     | VBoxedEnum be \<Rightarrow> Some (VBoxedEnum (enum_clone H be), h)
     | _ \<Rightarrow> Some (val, h))"
  by pat_completeness auto

termination
  by (relation "measure (\<lambda>(H, v, h). size v)")
    (auto simp del: mux_value.size simp: size_value_less)

declare deep_clone_value.simps [simp del]

definition snapshot_key :: "hooks \<Rightarrow> mux_value \<Rightarrow> 'z heap_scheme \<Rightarrow> (mux_value \<times> 'z heap_scheme) option" where
  "snapshot_key H v h = deep_clone_value H v h"

definition mux_value_deep_clone :: "hooks \<Rightarrow> nat \<Rightarrow> 'z heap_scheme \<Rightarrow> (nat \<times> 'z heap_scheme) option" where
  "mux_value_deep_clone H p h =
     (if p = 0 then Some (0, h)
      else Option.bind (deref p h) (\<lambda>v. case v of
          VObject _ \<Rightarrow> Some (copy_object H (Some v) h)
        | _ \<Rightarrow> map_option (\<lambda>(v', h'). mux_rc_alloc v' h') (deep_clone_value H v h)))"

end
