(* ===== verification/Heap_Laws.thy ===== *)
theory Heap_Laws
  imports Runtime_Heap
begin

text \<open>
  Ownership. \<open>heap_ok h R T\<close> relates a heap to the references its clients own: \<open>R\<close> counts the
  owned references to blocks, \<open>T\<close> the object handles in values that are in flight, held by a
  runtime function and not yet stored. Reference counts, the live counter and the handle counts of
  objects are exactly what \<open>R\<close>, \<open>T\<close> and the payloads say.
\<close>

definition held :: "'z heap_scheme \<Rightarrow> object_ref multiset" where
  "held h = (\<Sum>p\<in>dom (hp_blocks h). mset (objs (snd (the (hp_blocks h p)))))"

definition rc_of :: "'z heap_scheme \<Rightarrow> nat \<Rightarrow> nat" where
  "rc_of h p = (case hp_blocks h p of None \<Rightarrow> 0 | Some (n, v) \<Rightarrow> n)"

definition heap_ok :: "'z heap_scheme \<Rightarrow> nat multiset \<Rightarrow> object_ref multiset \<Rightarrow> bool" where
  "heap_ok h R T \<longleftrightarrow>
     0 < hp_next h \<and> (\<forall>p \<in># R. 0 < p \<and> p < hp_next h) \<and>
     rc_of h = count R \<and> dom (hp_blocks h) = set_mset R \<and>
     hp_live h = int (card (dom (hp_blocks h))) \<and>
     hp_strong h = count (held h + T)"

named_theorems heap_rules

lemma heap_ok_dom: "heap_ok h R T \<Longrightarrow> finite (dom (hp_blocks h))"
  by (simp add: heap_ok_def)

lemma heap_okD:
  assumes "heap_ok h R T"
  shows "hp_blocks h p = Some (n, v) \<Longrightarrow> n = count R p \<and> 0 < n" "p \<in># R \<Longrightarrow> \<exists>v. hp_blocks h p = Some (count R p, v)"
    "0 \<notin># R" "hp_blocks h 0 = None" "hp_blocks h (hp_next h) = None"
proof -
  have rc: "rc_of h = count R" and dom: "dom (hp_blocks h) = set_mset R"
    using assms by (simp_all add: heap_ok_def)
  show "hp_blocks h p = Some (n, v) \<Longrightarrow> n = count R p \<and> 0 < n"
    using fun_cong [OF rc, of p] dom by (auto simp: rc_of_def domIff set_eq_iff)
  show "p \<in># R \<Longrightarrow> \<exists>v. hp_blocks h p = Some (count R p, v)"
    using fun_cong [OF rc, of p] dom by (auto simp: rc_of_def domIff split: option.splits)
  show z: "0 \<notin># R" using assms by (auto simp: heap_ok_def)
  have "hp_next h \<notin># R" using assms by (auto simp: heap_ok_def)
  then show "hp_blocks h 0 = None" "hp_blocks h (hp_next h) = None" using dom z by auto
qed

subsection \<open>The frame of a change of handles\<close>

lemma strong_only [simp]:
  "hp_blocks (retain_obj obj h) = hp_blocks h" "hp_next (retain_obj obj h) = hp_next h"
  "hp_live (retain_obj obj h) = hp_live h"
  "hp_blocks (release_obj obj h) = hp_blocks h" "hp_next (release_obj obj h) = hp_next h"
  "hp_live (release_obj obj h) = hp_live h"
  by (simp_all add: retain_obj_def release_obj_def drop_object_data_def call_object_destructor_def Let_def
      split: option.split)

lemma strong_retain [simp]: "hp_strong (retain_obj obj h) = (hp_strong h)(obj := hp_strong h obj + 1)"
  by (simp add: retain_obj_def)

lemma strong_release [simp]: "hp_strong (release_obj obj h) = (hp_strong h)(obj := hp_strong h obj - 1)"
  by (simp add: release_obj_def drop_object_data_def call_object_destructor_def Let_def split: option.split)

lemma heap_ok_frame:
  assumes "heap_ok h R T" "hp_blocks h' = hp_blocks h" "hp_next h' = hp_next h" "hp_live h' = hp_live h"
    "hp_strong h' = count (held h + T')"
  shows "heap_ok h' R T'"
  using assms by (simp add: heap_ok_def held_def rc_of_def [abs_def])

lemma heap_ok_same:
  assumes "heap_ok h R T" "hp_blocks h' = hp_blocks h" "hp_next h' = hp_next h" "hp_live h' = hp_live h"
    "hp_strong h' = hp_strong h"
  shows "heap_ok h' R T"
  using heap_ok_frame [OF assms(1-4), of T] assms(1,5) by (simp add: heap_ok_def)

lemma retain_ok [heap_rules]: "heap_ok h R T \<Longrightarrow> heap_ok (retain_obj obj h) R (add_mset obj T)"
  by (rule heap_ok_frame [where T = T]) (auto simp: heap_ok_def)

lemma release_ok [heap_rules]: "heap_ok h R (add_mset obj T) \<Longrightarrow> heap_ok (release_obj obj h) R T"
  by (rule heap_ok_frame [where T = "add_mset obj T"]) (auto simp: heap_ok_def)

lemma retain_all_ok: "heap_ok h R T \<Longrightarrow> heap_ok (fold retain_obj os h) R (T + mset os)"
proof (induction os arbitrary: h T)
  case (Cons a os)
  then show ?case using Cons.IH [OF retain_ok [OF Cons.prems], of a] by (simp add: ac_simps)
qed simp

lemma release_all_ok: "heap_ok h R (T + mset os) \<Longrightarrow> heap_ok (fold release_obj os h) R T"
proof (induction os arbitrary: h T)
  case (Cons a os)
  have "heap_ok (release_obj a h) R (T + mset os)" using Cons.prems by (intro release_ok) simp
  then show ?case using Cons.IH by simp
qed simp

lemma fold_strong_only [simp]:
  "hp_blocks (fold retain_obj os h) = hp_blocks h" "hp_next (fold retain_obj os h) = hp_next h"
  "hp_blocks (fold release_obj os h) = hp_blocks h" "hp_next (fold release_obj os h) = hp_next h"
  by (induction os arbitrary: h) simp_all

lemma drop_value_frame [simp]:
  "hp_blocks (drop_value v h) = hp_blocks h" "hp_next (drop_value v h) = hp_next h"
  by (simp_all add: drop_value_def)

lemma drop_live: "hp_live (drop_value v h) = hp_live h"
proof -
  have "hp_live (fold release_obj os h) = hp_live h" for os by (induction os arbitrary: h) simp_all
  then show ?thesis by (simp add: drop_value_def)
qed

lemma drop_strong:
  "hp_strong (drop_value v h) = fold (\<lambda>obj s. s(obj := s obj - 1)) (objs v) (hp_strong h)"
proof -
  have "hp_strong (fold release_obj os h) = fold (\<lambda>obj s. s(obj := s obj - 1)) os (hp_strong h)" for os
    by (induction os arbitrary: h) simp_all
  then show ?thesis by (simp add: drop_value_def)
qed

lemma drop_ok [heap_rules]: "heap_ok h R (T + mset (objs v)) \<Longrightarrow> heap_ok (drop_value v h) R T"
  by (simp add: drop_value_def release_all_ok)

lemma objs_clone [simp]: "objs (value_clone H v) = objs v"
proof (induction v rule: value_clone.induct)
  case (1 H xs)
  then show ?case by (simp cong: map_cong)
next
  case (2 H es)
  then show ?case by (simp add: comp_def cong: map_cong)
next
  case (3 H xs)
  then show ?case by (simp cong: map_cong)
qed simp_all

lemma clone_ok [heap_rules]:
  "heap_ok h R T \<Longrightarrow> heap_ok (snd (clone_value H v h)) R (T + mset (objs (fst (clone_value H v h))))"
  by (simp add: clone_value_def retain_all_ok)

lemma clone_frame [simp]: "hp_blocks (snd (clone_value H v h)) = hp_blocks h"
  by (simp add: clone_value_def)

subsection \<open>Blocks\<close>

lemma held_update:
  assumes "finite (dom (hp_blocks h))"
  shows "held (h\<lparr>hp_blocks := (hp_blocks h)(p \<mapsto> (n, v))\<rparr>) +
    (case hp_blocks h p of None \<Rightarrow> {#} | Some (_, w) \<Rightarrow> mset (objs w)) = held h + mset (objs v)"
proof -
  let ?D = "dom (hp_blocks h)" and ?f = "\<lambda>q. mset (objs (snd (the (hp_blocks h q))))"
  have same: "(\<Sum>q\<in>?D - {p}. mset (objs (snd (the (((hp_blocks h)(p \<mapsto> (n, v))) q))))) = sum ?f (?D - {p})"
    by (intro sum.cong) auto
  have new: "held (h\<lparr>hp_blocks := (hp_blocks h)(p \<mapsto> (n, v))\<rparr>) = mset (objs v) + sum ?f (?D - {p})"
    using assms same by (simp add: held_def sum.insert_remove)
  show ?thesis
  proof (cases "hp_blocks h p")
    case None
    then have "?D - {p} = ?D" by auto
    then show ?thesis using new None by (simp add: held_def)
  next
    case (Some b)
    then have "held h = ?f p + sum ?f (?D - {p})"
      using assms unfolding held_def by (intro sum.remove) auto
    then show ?thesis using new Some by (simp add: ac_simps split: prod.split)
  qed
qed

lemma held_delete:
  assumes "finite (dom (hp_blocks h))" "hp_blocks h p = Some (n, v)"
  shows "held h = mset (objs v) + held (h\<lparr>hp_blocks := (hp_blocks h)(p := None)\<rparr>)"
proof -
  let ?D = "dom (hp_blocks h)" and ?f = "\<lambda>q. mset (objs (snd (the (hp_blocks h q))))"
  have "(\<Sum>q\<in>?D - {p}. mset (objs (snd (the (((hp_blocks h)(p := None)) q))))) = sum ?f (?D - {p})"
    by (intro sum.cong) auto
  moreover have "held h = ?f p + sum ?f (?D - {p})"
    using assms unfolding held_def by (intro sum.remove) auto
  ultimately show ?thesis using assms(2) by (simp add: held_def)
qed

lemma alloc_ok [heap_rules]:
  assumes "heap_ok h R (T + mset (objs v))" "mux_rc_alloc v h = (p, h')"
  shows "heap_ok h' (if p = 0 then R else add_mset p R) T"
    "p \<noteq> 0 \<Longrightarrow> hp_blocks h' = (hp_blocks h)(p \<mapsto> (1, v)) \<and> hp_blocks h p = None"
    "p = 0 \<Longrightarrow> hp_blocks h' = hp_blocks h"
proof -
  let ?n = "hp_next h"
  let ?h1 = "h\<lparr>hp_next := ?n + 1\<rparr>"
  note fin = heap_ok_dom [OF assms(1)] and D = heap_okD [OF assms(1)]
  have ok1: "heap_ok ?h1 R (T + mset (objs v))"
    using assms(1) by (auto simp: heap_ok_def held_def rc_of_def [abs_def])
  have pos: "?n \<noteq> 0" using assms(1) by (simp add: heap_ok_def)
  have nO: "?n \<notin># R" using D(2) [of ?n] D(5) by auto
  have case_oom: "p = 0 \<and> h' = drop_value v ?h1" if "hp_oom h ?n"
    using assms(2) that by (simp add: mux_rc_alloc_def Let_def)
  have case_ok: "p = ?n \<and> h' = ?h1\<lparr>hp_blocks := (hp_blocks h)(?n \<mapsto> (1, v)), hp_live := hp_live h + 1\<rparr>"
    if "\<not> hp_oom h ?n" using assms(2) that by (auto simp: mux_rc_alloc_def Let_def)
  show "p \<noteq> 0 \<Longrightarrow> hp_blocks h' = (hp_blocks h)(p \<mapsto> (1, v)) \<and> hp_blocks h p = None"
    "p = 0 \<Longrightarrow> hp_blocks h' = hp_blocks h"
    using case_oom case_ok D(5) pos by (cases "hp_oom h ?n"; simp)+
  show "heap_ok h' (if p = 0 then R else add_mset p R) T"
  proof (cases "hp_oom h ?n")
    case True
    then show ?thesis using case_oom drop_ok [OF ok1] by simp
  next
    case False
    note c = case_ok [OF False]
    have "held h' = held h + mset (objs v)"
      using held_update [OF fin, of ?n 1 v] D(5) c by (simp add: held_def)
    moreover have "card (dom (hp_blocks h')) = card (dom (hp_blocks h)) + 1"
      using c D(5) fin by (simp add: domIff)
    moreover have "rc_of h' = (rc_of h)(?n := 1)" using c by (auto simp: rc_of_def)
    ultimately show ?thesis
      using assms(1) c pos nO by (auto simp: heap_ok_def not_in_iff)
  qed
qed

lemma rc_of_update: "rc_of (h\<lparr>hp_blocks := (hp_blocks h)(p \<mapsto> (n, v))\<rparr>) = (rc_of h)(p := n)"
  by (auto simp: rc_of_def)

lemma inc_ok [heap_rules]:
  assumes "heap_ok h R T" "p = 0 \<or> p \<in># R"
  obtains h' where "mux_rc_inc p h = Some h'" "heap_ok h' (if p = 0 then R else add_mset p R) T"
    "deref q h' = deref q h"
proof (cases "p = 0")
  case True
  then show ?thesis using that assms(1) by (simp add: mux_rc_inc_def)
next
  case False
  then obtain v where b: "hp_blocks h p = Some (count R p, v)" using assms heap_okD(2) by blast
  let ?h' = "h\<lparr>hp_blocks := (hp_blocks h)(p \<mapsto> (count R p + 1, v))\<rparr>"
  have "held ?h' = held h" using held_update [OF heap_ok_dom [OF assms(1)], of p "count R p + 1" v] b by simp
  moreover have "rc_of ?h' = count (add_mset p R)"
    using assms(1) by (auto simp: rc_of_update heap_ok_def)
  moreover have "dom (hp_blocks ?h') = dom (hp_blocks h)" using b by auto
  ultimately have "heap_ok ?h' (add_mset p R) T" using assms b by (auto simp: heap_ok_def)
  then show ?thesis using that [of ?h'] False b by (simp add: mux_rc_inc_def deref_def)
qed

lemma free_block_ok:
  assumes "heap_ok h R T" "hp_blocks h p = Some (1, v)"
  shows "heap_ok (h\<lparr>hp_blocks := (hp_blocks h)(p := None), hp_live := hp_live h - 1\<rparr>)
    (R - {#p#}) (T + mset (objs v))"
proof -
  let ?h2 = "h\<lparr>hp_blocks := (hp_blocks h)(p := None), hp_live := hp_live h - 1\<rparr>"
  note fin = heap_ok_dom [OF assms(1)]
  have one: "count R p = 1" using heap_okD(1) [OF assms] by simp
  have "held h = mset (objs v) + held ?h2" using held_delete [OF fin assms(2)] by (simp add: held_def)
  moreover have "rc_of ?h2 = count (R - {#p#})"
    using assms(1) one by (auto simp: rc_of_def [of ?h2] rc_of_def heap_ok_def fun_eq_iff)
  moreover have "set_mset (R - {#p#}) = set_mset R - {p}"
    using one by (intro at_most_one_mset_mset_diff) (simp add: in_diff_count)
  moreover have "Suc (card (dom (hp_blocks ?h2))) = card (dom (hp_blocks h))"
    using card_Suc_Diff1 [OF fin, of p] assms(2) by (simp add: domIff)
  ultimately show ?thesis using assms(1) by (auto simp: heap_ok_def ac_simps)
qed

text \<open>
  Giving up an owned reference never fails; it frees the block exactly when it was the
  last one, and only that block.
\<close>

lemma dec_ok [heap_rules]:
  assumes "heap_ok h R T" "p = 0 \<or> p \<in># R"
  obtains b h' where "mux_rc_dec p h = Some (b, h')" "heap_ok h' (R - {#p#}) T"
    "b \<longleftrightarrow> p \<noteq> 0 \<and> count R p = 1" "\<forall>q. q \<noteq> p \<longrightarrow> hp_blocks h' q = hp_blocks h q"
    "b \<longrightarrow> hp_blocks h' p = None" "\<not> b \<longrightarrow> deref p h' = deref p h"
proof (cases "p = 0")
  case True
  then show ?thesis using that assms(1) heap_okD(3) [OF assms(1)] by (simp add: mux_rc_dec_def)
next
  case False
  then obtain v where b: "hp_blocks h p = Some (count R p, v)" using assms heap_okD(2) by blast
  note fin = heap_ok_dom [OF assms(1)]
  let ?n = "count R p" 
  let ?h1 = "h\<lparr>hp_blocks := (hp_blocks h)(p \<mapsto> (?n - 1, v))\<rparr>"
  have pos: "0 < ?n" using heap_okD(1) [OF assms(1) b] by simp
  have held1: "held ?h1 = held h" using held_update [OF fin, of p "?n - 1" v] b by simp
  have dom1: "dom (hp_blocks ?h1) = dom (hp_blocks h)" using b by auto
  have rc1: "rc_of ?h1 = count (R - {#p#})" using assms(1) by (auto simp: rc_of_update heap_ok_def)
  show ?thesis
  proof (cases "?n = 1")
    case False
    then have "1 < ?n" using pos by linarith
    then have "set_mset (R - {#p#}) = set_mset R"
      by (intro more_than_one_mset_mset_diff) (simp add: in_diff_count)
    then have "heap_ok ?h1 (R - {#p#}) T" using assms(1) held1 dom1 rc1 by (simp add: heap_ok_def)
    then show ?thesis using that [of False ?h1] False \<open>p \<noteq> 0\<close> b by (simp add: mux_rc_dec_def deref_def)
  next
    case True
    let ?h3 = "(drop_value v ?h1)\<lparr>hp_blocks := (hp_blocks h)(p := None), hp_live := hp_live h - 1\<rparr>"
    let ?h2 = "h\<lparr>hp_blocks := (hp_blocks h)(p := None), hp_live := hp_live h - 1\<rparr>"
    have "heap_ok ?h2 (R - {#p#}) (T + mset (objs v))" using free_block_ok [OF assms(1), of p v] b True by simp
    then have d: "heap_ok (drop_value v ?h2) (R - {#p#}) T" by (rule drop_ok)
    have "heap_ok ?h3 (R - {#p#}) T"
      by (rule heap_ok_same [OF d]) (simp_all add: drop_live drop_strong)
    then show ?thesis
      using that [of True ?h3] True \<open>p \<noteq> 0\<close> b by (simp add: mux_rc_dec_def drop_live)
  qed
qed

end
