(* ===== verification/Heap_Objects.thy ===== *)
theory Heap_Objects
  imports Heap_Laws
begin

text \<open>
  Object storage. Every buffer a live handle names was handed out by the allocator, two live
  handles to one buffer are the same object, and no buffer is released twice or while a handle
  to it is live. The hypothesis on the system allocator is that it does not hand out one address
  twice (the first conjunct of \<open>buffers_ok\<close>, about a field no operation changes).
\<close>

definition handed_out :: "'z heap_scheme \<Rightarrow> u64 set" where
  "handed_out h = hp_buf h ` {..<hp_nbuf h} - {0}"

definition buffers_ok :: "'z heap_scheme \<Rightarrow> bool" where
  "buffers_ok h \<longleftrightarrow>
     inj_on (hp_buf h) {i. hp_buf h i \<noteq> 0} \<and>
     (\<forall>obj. 0 < hp_strong h obj \<longrightarrow> obj_ptr obj \<in> handed_out h - set (hp_freed h)) \<and>
     inj_on obj_ptr {obj. 0 < hp_strong h obj} \<and>
     distinct (hp_freed h) \<and> set (hp_freed h) \<subseteq> handed_out h"

definition heap_inv :: "'z heap_scheme \<Rightarrow> nat multiset \<Rightarrow> object_ref multiset \<Rightarrow> bool" where
  "heap_inv h R T \<longleftrightarrow> heap_ok h R T \<and> buffers_ok h"

lemma heap_inv_init: "inj_on buf {i. buf i \<noteq> 0} \<Longrightarrow> heap_inv (heap_init oom buf) {#} {#}"
  by (auto simp: heap_inv_def heap_ok_def buffers_ok_def heap_init_def held_def rc_of_def)

lemma object_frame [simp]:
  "hp_buf (retain_obj obj h) = hp_buf h" "hp_nbuf (retain_obj obj h) = hp_nbuf h"
  "hp_freed (retain_obj obj h) = hp_freed h" "hp_types (retain_obj obj h) = hp_types h"
  "hp_mem (retain_obj obj h) = hp_mem h"
  "hp_buf (release_obj obj h) = hp_buf h" "hp_nbuf (release_obj obj h) = hp_nbuf h"
  "hp_types (release_obj obj h) = hp_types h" "hp_mem (release_obj obj h) = hp_mem h"
  "hp_freed (release_obj obj h) =
     (if hp_strong h obj = 1 \<and> obj_ptr obj \<noteq> 0 \<and> obj_size obj > 0 then obj_ptr obj # hp_freed h else hp_freed h)"
  by (simp_all add: retain_obj_def release_obj_def drop_object_data_def call_object_destructor_def Let_def
      split: option.split)

lemma buffers_same:
  assumes "buffers_ok h" "hp_buf h' = hp_buf h" "hp_nbuf h' = hp_nbuf h" "hp_freed h' = hp_freed h"
    "\<And>obj. 0 < hp_strong h' obj \<longleftrightarrow> 0 < hp_strong h obj"
  shows "buffers_ok h'"
  using assms by (simp add: buffers_ok_def handed_out_def)

lemma buffers_retain: "buffers_ok h \<Longrightarrow> 0 < hp_strong h obj \<Longrightarrow> buffers_ok (retain_obj obj h)"
  by (rule buffers_same) auto

lemma buffers_release:
  assumes "buffers_ok h" "0 < hp_strong h obj" shows "buffers_ok (release_obj obj h)"
proof (cases "hp_strong h obj = 1")
  case False
  then show ?thesis using assms by (intro buffers_same [OF assms(1)]) auto
next
  case True
  have sub: "{o'. 0 < hp_strong (release_obj obj h) o'} = {o'. 0 < hp_strong h o'} - {obj}"
    using True by auto
  have ptr: "obj_ptr o' \<noteq> obj_ptr obj" if "0 < hp_strong h o'" "o' \<noteq> obj" for o'
    using assms that by (auto simp: buffers_ok_def inj_on_def)
  show ?thesis
    using assms True ptr unfolding buffers_ok_def sub
    by (auto simp: handed_out_def inj_on_def)
qed

lemma buffers_release_all:
  "buffers_ok h \<Longrightarrow> (\<And>obj. count (mset os) obj \<le> hp_strong h obj) \<Longrightarrow> buffers_ok (fold release_obj os h)"
proof (induction os arbitrary: h)
  case (Cons a os)
  have "0 < hp_strong h a" using Cons.prems(2) [of a] by simp
  then have "buffers_ok (release_obj a h)" by (rule buffers_release [OF Cons.prems(1)])
  moreover have "count (mset os) obj \<le> hp_strong (release_obj a h) obj" for obj
    using Cons.prems(2) [of obj] by (auto split: if_splits)
  ultimately show ?case using Cons.IH by simp
qed simp

lemma buffers_retain_all:
  "buffers_ok h \<Longrightarrow> (\<And>obj. obj \<in> set os \<Longrightarrow> 0 < hp_strong h obj) \<Longrightarrow> buffers_ok (fold retain_obj os h)"
proof (induction os arbitrary: h)
  case (Cons a os)
  then show ?case using Cons.IH [OF buffers_retain [OF Cons.prems(1)], of a] by simp
qed simp

subsection \<open>The operations on blocks\<close>

lemma heap_strong: "heap_ok h R T \<Longrightarrow> hp_strong h obj = count (held h) obj + count T obj"
  by (simp add: heap_ok_def)

lemma held_block:
  assumes "heap_ok h R T" "hp_blocks h p = Some (n, v)" shows "mset (objs v) \<subseteq># held h"
  using held_delete [OF heap_ok_dom [OF assms(1)] assms(2)] by simp

lemma drop_inv: "heap_inv h R (T + mset (objs v)) \<Longrightarrow> heap_inv (drop_value v h) R T"
  unfolding heap_inv_def drop_value_def
  using drop_ok [of h R T v] buffers_release_all [of h "objs v"] heap_strong [of h R "T + mset (objs v)"]
  by (simp add: drop_value_def)

lemma clone_inv:
  assumes "heap_inv h R T" "set (objs v) \<subseteq> set_mset (held h + T)"
  shows "heap_inv (snd (clone_value H v h)) R (T + mset (objs v))"
proof -
  have ok: "heap_ok h R T" "buffers_ok h" using assms(1) by (simp_all add: heap_inv_def)
  have "0 < hp_strong h obj" if "obj \<in> set (objs v)" for obj
    using heap_strong [OF ok(1), of obj] assms(2) that by (auto simp flip: count_greater_zero_iff)
  then have "buffers_ok (fold retain_obj (objs v) h)" by (rule buffers_retain_all [OF ok(2)])
  then show ?thesis using retain_all_ok [OF ok(1)] by (simp add: heap_inv_def clone_value_def)
qed

lemma alloc_inv:
  assumes "heap_inv h R (T + mset (objs v))" "mux_rc_alloc v h = (p, h')"
  shows "heap_inv h' (if p = 0 then R else add_mset p R) T"
proof -
  have i: "heap_ok h R (T + mset (objs v))" "buffers_ok h" using assms(1) by (simp_all add: heap_inv_def)
  have "heap_inv (h\<lparr>hp_next := hp_next h + 1\<rparr>) R (T + mset (objs v))"
    unfolding heap_inv_def using i buffers_same [OF i(2), of "h\<lparr>hp_next := hp_next h + 1\<rparr>"]
    by (auto simp: heap_ok_def held_def rc_of_def [abs_def])
  from drop_inv [OF this] have "buffers_ok h'"
    using assms(2) i(2) by (auto simp: mux_rc_alloc_def Let_def heap_inv_def split: if_splits
        intro: buffers_same)
  then show ?thesis using alloc_ok(1) [OF i(1) assms(2)] by (simp add: heap_inv_def)
qed

lemma inc_inv:
  assumes "heap_inv h R T" "p = 0 \<or> p \<in># R"
  obtains h' where "mux_rc_inc p h = Some h'" "heap_inv h' (if p = 0 then R else add_mset p R) T"
    "\<forall>q. deref q h' = deref q h"
proof -
  have i: "heap_ok h R T" "buffers_ok h" using assms(1) by (simp_all add: heap_inv_def)
  obtain h' where h': "mux_rc_inc p h = Some h'" "heap_ok h' (if p = 0 then R else add_mset p R) T"
    using inc_ok [OF i(1) assms(2)] by metis
  have "buffers_ok h'" "\<forall>q. deref q h' = deref q h"
    using h'(1) i(2) by (auto simp: mux_rc_inc_def deref_def split: if_splits option.splits intro: buffers_same)
  then show thesis using that h' by (simp add: heap_inv_def)
qed

lemma dec_inv:
  assumes "heap_inv h R T" "p = 0 \<or> p \<in># R"
  obtains b h' where "mux_rc_dec p h = Some (b, h')" "heap_inv h' (R - {#p#}) T"
    "b \<longleftrightarrow> p \<noteq> 0 \<and> count R p = 1" "\<forall>q. q \<noteq> p \<longrightarrow> hp_blocks h' q = hp_blocks h q"
    "b \<longrightarrow> hp_blocks h' p = None" "\<not> b \<longrightarrow> deref p h' = deref p h"
proof -
  have i: "heap_ok h R T" "buffers_ok h" using assms(1) by (simp_all add: heap_inv_def)
  obtain b h' where d: "mux_rc_dec p h = Some (b, h')" "heap_ok h' (R - {#p#}) T"
    "b \<longleftrightarrow> p \<noteq> 0 \<and> count R p = 1" "\<forall>q. q \<noteq> p \<longrightarrow> hp_blocks h' q = hp_blocks h q"
    "b \<longrightarrow> hp_blocks h' p = None" "\<not> b \<longrightarrow> deref p h' = deref p h"
    using dec_ok [OF i(1) assms(2)] by metis
  have "buffers_ok h'"
  proof (cases "hp_blocks h p")
    case None
    then show ?thesis using d(1) i(2) by (simp add: mux_rc_dec_def split: if_splits)
  next
    case (Some x)
    obtain n v where x: "x = (n, v)" by (cases x)
    let ?h1 = "h\<lparr>hp_blocks := (hp_blocks h)(p \<mapsto> (n - 1, v))\<rparr>"
    have b1: "buffers_ok ?h1" by (rule buffers_same [OF i(2)]) simp_all
    have "count (mset (objs v)) obj \<le> hp_strong ?h1 obj" for obj
      using mset_subset_eq_count [OF held_block [OF i(1)], of p n v obj] Some x
        heap_strong [OF i(1), of obj] by simp
    then have "buffers_ok (drop_value v ?h1)"
      unfolding drop_value_def by (intro buffers_release_all [OF b1])
    then show ?thesis using d(1) i(2) b1 Some x
      by (auto simp: mux_rc_dec_def Let_def split: if_splits intro: buffers_same)
  qed
  then show thesis using that d by (simp add: heap_inv_def)
qed

end
