(* ===== verification/Heap_Clone.thy ===== *)
theory Heap_Clone
  imports Heap_Objects
begin

text \<open>
  Object allocation, object copies and deep clones keep the heap invariant; a deep clone always
  returns, leaves every block as it was, and owns the handles of the value it returns.
\<close>

lemma inv_update_mem: "heap_inv (h\<lparr>hp_mem := f\<rparr>) R T = heap_inv h R T"
  by (simp add: heap_inv_def heap_ok_def buffers_ok_def handed_out_def held_def rc_of_def [abs_def])

lemma frame_alloc [simp]: "mux_rc_alloc v h = (p, h') \<Longrightarrow> hp_types h' = hp_types h"
proof -
  have "hp_types (fold release_obj os k) = hp_types k" for os and k :: "'a heap_scheme"
    by (induction os arbitrary: k) simp_all
  then show "mux_rc_alloc v h = (p, h') \<Longrightarrow> hp_types h' = hp_types h"
    by (auto simp: mux_rc_alloc_def Let_def drop_value_def split: if_splits)
qed

text \<open>What an operation that returns a new block, or null, leaves behind.\<close>

definition new_block :: "'z heap_scheme \<Rightarrow> nat multiset \<Rightarrow> object_ref multiset \<Rightarrow> nat \<Rightarrow> 'z heap_scheme \<Rightarrow> mux_value \<Rightarrow> bool" where
  "new_block h R T p h' v \<longleftrightarrow>
     heap_inv h' (if p = 0 then R else add_mset p R) T \<and>
     (if p = 0 then hp_blocks h' = hp_blocks h
      else hp_blocks h p = None \<and> hp_blocks h' = (hp_blocks h)(p \<mapsto> (1, v)))"

lemma alloc_new_block:
  assumes "heap_inv h R (T + mset (objs v))" "mux_rc_alloc v h = (p, h')"
  shows "new_block h R T p h' v"
  unfolding new_block_def
  using alloc_inv [OF assms] alloc_ok(2,3) [of h R T v p h'] assms by (simp add: heap_inv_def)

lemma new_block_cong:
  "new_block h1 R T p h' v \<Longrightarrow> hp_blocks h1 = hp_blocks h \<Longrightarrow> new_block h R T p h' v"
  by (cases "p = 0") (simp_all add: new_block_def)

lemma fresh_object_inv:
  assumes "heap_inv h R T" "hp_buf h (hp_nbuf h) = ptr" "ptr \<noteq> 0" "obj_ptr obj = ptr"
  shows "heap_inv (h\<lparr>hp_nbuf := hp_nbuf h + 1, hp_strong := (hp_strong h)(obj := 1)\<rparr>) R (T + mset [obj])"
proof -
  let ?h = "h\<lparr>hp_nbuf := hp_nbuf h + 1, hp_strong := (hp_strong h)(obj := 1)\<rparr>"
  have i: "heap_ok h R T" "buffers_ok h" using assms(1) by (simp_all add: heap_inv_def)
  have new: "ptr \<notin> handed_out h"
  proof
    assume "ptr \<in> handed_out h"
    then obtain j where "j < hp_nbuf h" "hp_buf h j = ptr" by (auto simp: handed_out_def)
    moreover have "inj_on (hp_buf h) {i. hp_buf h i \<noteq> 0}" using i(2) by (simp add: buffers_ok_def)
    ultimately have "j = hp_nbuf h" using assms(2,3) by (intro inj_onD [of "hp_buf h"]) auto
    then show False using \<open>j < hp_nbuf h\<close> by simp
  qed
  then have live: "obj_ptr o' \<noteq> ptr" if "0 < hp_strong h o'" for o'
    using i(2) that by (auto simp: buffers_ok_def)
  have zero: "hp_strong h obj = 0" using live [of obj] assms(4) by auto
  have "handed_out ?h = insert ptr (handed_out h)"
    using assms(2,3) by (auto simp: handed_out_def lessThan_Suc)
  moreover have "{o'. 0 < hp_strong ?h o'} = insert obj {o'. 0 < hp_strong h o'}" by auto
  moreover have "obj_ptr obj \<notin> obj_ptr ` ({o'. 0 < hp_strong h o'} - {obj})"
  proof
    assume "obj_ptr obj \<in> obj_ptr ` ({o'. 0 < hp_strong h o'} - {obj})"
    then obtain o' where "0 < hp_strong h o'" "obj_ptr obj = obj_ptr o'" by blast
    then show False using live [of o'] assms(4) by simp
  qed
  then have "inj_on obj_ptr (insert obj {o'. 0 < hp_strong h o'})"
    using i(2) by (simp add: buffers_ok_def)
  ultimately have "buffers_ok ?h"
    using i(2) new assms(4) by (auto simp: buffers_ok_def)
  moreover have "heap_ok ?h R (T + mset [obj])"
    by (rule heap_ok_frame [OF i(1)]) (use i(1) zero in \<open>auto simp: heap_ok_def fun_eq_iff\<close>)
  ultimately show ?thesis by (simp add: heap_inv_def)
qed

lemma alloc_object_inv:
  assumes "heap_inv h R T" "alloc_object t h = (p, h')"
  obtains obj where "new_block h R T p h' (VObject obj)" "hp_types h' = hp_types h"
proof (cases "hp_types h t")
  case None
  then show thesis using assms that by (simp add: alloc_object_def new_block_def)
next
  case (Some ty)
  let ?ptr = "hp_buf h (hp_nbuf h)"
  let ?obj = "\<lparr> obj_ptr = ?ptr, obj_type_id = t, obj_size = ot_size ty \<rparr>"
  let ?h1 = "h\<lparr>hp_nbuf := hp_nbuf h + 1, hp_strong := (hp_strong h)(?obj := 1)\<rparr>"
  consider "ot_size ty > 2 ^ 63 - 1" | "\<not> ot_size ty > 2 ^ 63 - 1" "?ptr = 0"
    | "\<not> ot_size ty > 2 ^ 63 - 1" "?ptr \<noteq> 0" by blast
  then show thesis
  proof cases
    case 1
    then show thesis using assms that Some by (simp add: alloc_object_def new_block_def)
  next
    case 2
    have "heap_inv (h\<lparr>hp_nbuf := hp_nbuf h + 1\<rparr>) R T"
      using assms(1) 2 by (auto simp: heap_inv_def heap_ok_def held_def rc_of_def [abs_def] buffers_ok_def
          handed_out_def lessThan_Suc)
    then show thesis using assms(2) that Some 2
      by (auto simp: alloc_object_def new_block_def Let_def)
  next
    case 3
    have a: "mux_rc_alloc (VObject ?obj) ?h1 = (p, h')"
      using assms(2) Some 3 by (simp add: alloc_object_def Let_def)
    have "heap_inv ?h1 R (T + mset (objs (VObject ?obj)))"
      using fresh_object_inv [OF assms(1), of ?ptr ?obj] 3 by simp
    from new_block_cong [OF alloc_new_block [OF this a], of h] show thesis
      using that [of ?obj] frame_alloc [OF a] by simp
  qed
qed

lemma clone_object_types [simp]: "hp_types (snd (clone_value H v h)) = hp_types h"
proof -
  have "hp_types (fold retain_obj os k) = hp_types k" for os and k :: "'a heap_scheme"
    by (induction os arbitrary: k) simp_all
  then show ?thesis by (simp add: clone_value_def)
qed

lemma copy_object_inv:
  assumes "heap_inv h R T" "obj \<in># held h + T" "copy_object H (Some (VObject obj)) h = (p, h')"
  obtains obj' where "new_block h R T p h' (VObject obj')" "hp_types h' = hp_types h"
proof (cases "hp_types h (obj_type_id obj)")
  case None
  then show thesis using assms that
    by (simp add: copy_object_def get_object_type_id_def new_block_def)
next
  case (Some ty)
  consider (shared) "ot_shared ty" | (none) "\<not> ot_shared ty" "ot_copy ty = None"
    | (copy) f where "\<not> ot_shared ty" "ot_copy ty = Some f" by (cases "ot_copy ty") auto
  then show thesis
  proof cases
    case shared
    obtain v1 h1 where c: "clone_value H (VObject obj) h = (v1, h1)" by fastforce
    then have v1: "v1 = VObject obj" and h1: "h1 = snd (clone_value H (VObject obj) h)"
      by (auto simp: clone_value_def)
    have a: "mux_rc_alloc v1 h1 = (p, h')"
      using assms(3) Some shared c by (simp add: copy_object_def get_object_type_id_def)
    have "heap_inv h1 R (T + mset (objs v1))" using clone_inv [OF assms(1), of "VObject obj" H] assms(2) v1 h1 by simp
    from new_block_cong [OF alloc_new_block [OF this a], of h] show thesis
      using that [of obj] frame_alloc [OF a] v1 h1 by simp
  next
    case none
    then show thesis using assms that Some by (simp add: copy_object_def get_object_type_id_def new_block_def)
  next
    case copy
    obtain d h1 where a: "alloc_object (obj_type_id obj) h = (d, h1)" by fastforce
    obtain obj' where n: "new_block h R T d h1 (VObject obj')" "hp_types h1 = hp_types h"
      using alloc_object_inv [OF assms(1) a] by blast
    have "p = d \<and> (\<exists>g. h' = h1\<lparr>hp_mem := g\<rparr> \<or> h' = h1)"
      using assms(3) Some copy a by (auto simp: copy_object_def get_object_type_id_def Let_def split: if_splits)
    then show thesis using that [of obj'] n by (auto simp: new_block_def inv_update_mem)
  qed
qed

subsection \<open>Deep clones\<close>

lemma held_blocks: "hp_blocks h' = hp_blocks h \<Longrightarrow> held h' = held h"
  by (simp add: held_def)

lemma release_inv:
  assumes "heap_inv h R (add_mset obj T)" shows "heap_inv (release_obj obj h) R T"
  using assms release_ok [of h R obj T] buffers_release [of h obj] heap_strong [of h R "add_mset obj T" obj]
  by (simp add: heap_inv_def)

lemma retain_inv:
  assumes "heap_inv h R T" "obj \<in># held h + T" shows "heap_inv (retain_obj obj h) R (add_mset obj T)"
  using clone_inv [OF assms(1), of "VObject obj"] assms(2) by (simp add: clone_value_def)

lemma deep_clone_object_inv:
  assumes "heap_inv h R T" "obj \<in># held h + T"
  obtains v' h' where "deep_clone_object H obj h = Some (v', h')" "heap_inv h' R (T + mset (objs v'))"
    "hp_blocks h' = hp_blocks h"
proof -
  let ?h1 = "retain_obj obj h"
  note i1 = retain_inv [OF assms]
  obtain p h2 where c: "copy_object H (Some (VObject obj)) ?h1 = (p, h2)" by fastforce
  obtain obj' where n: "new_block ?h1 R (add_mset obj T) p h2 (VObject obj')"
    using copy_object_inv [OF i1 _ c] by auto
  show thesis
  proof (cases "p = 0")
    case True
    then have b2: "hp_blocks h2 = hp_blocks h" and i2: "heap_inv h2 R (add_mset obj T)"
      using n by (simp_all add: new_block_def)
    have "heap_inv (retain_obj obj h2) R (add_mset obj (add_mset obj T))" by (rule retain_inv [OF i2]) simp
    then have "heap_inv (release_obj obj (retain_obj obj h2)) R (add_mset obj T)" by (rule release_inv)
    then show thesis using that [of "VObject obj"] True c b2
      by (simp add: deep_clone_object_def Let_def)
  next
    case False
    let ?h3 = "snd (clone_value H (VObject obj') h2)"
    have b2: "hp_blocks h2 = (hp_blocks h)(p \<mapsto> (1, VObject obj'))" "hp_blocks h p = None"
      and i2: "heap_inv h2 (add_mset p R) (add_mset obj T)" using n False by (simp_all add: new_block_def)
    have "mset (objs (VObject obj')) \<subseteq># held h2"
      using i2 b2 by (intro held_block [of h2 "add_mset p R" "add_mset obj T" p 1]) (simp_all add: heap_inv_def)
    then have "heap_inv ?h3 (add_mset p R) (add_mset obj T + mset [obj'])"
      using clone_inv [OF i2, of "VObject obj'" H] by (simp add: mset_subset_eq_single)
    moreover have one: "count (add_mset p R) p = 1"
      using i2 b2 heap_okD(1) [of h2 "add_mset p R" "add_mset obj T" p] by (simp add: heap_inv_def)
    ultimately obtain h4 where d: "mux_rc_dec p ?h3 = Some (True, h4)"
      "heap_inv h4 R (add_mset obj (add_mset obj' T))"
      "\<forall>q. q \<noteq> p \<longrightarrow> hp_blocks h4 q = hp_blocks ?h3 q" "hp_blocks h4 p = None"
      using dec_inv [of ?h3 "add_mset p R" _ p] False by (auto simp: add_mset_commute) blast
    have "hp_blocks h4 q = hp_blocks h q" for q using d(3,4) b2 by (cases "q = p") simp_all
    then have "hp_blocks h4 = hp_blocks h" by blast
    moreover have "heap_inv (release_obj obj h4) R (add_mset obj' T)" by (rule release_inv [OF d(2)])
    moreover have "deep_clone_object H obj h = Some (VObject obj', release_obj obj h4)"
      using c b2 d(1) False
      by (simp add: deep_clone_object_def Let_def deref_def free_object_def clone_value_def)
    ultimately show thesis using that [of "VObject obj'"] by simp
  qed
qed

text \<open>Objects of the entries of a map and of the members of a set, as multisets.\<close>

definition objs_of :: "mux_value list \<Rightarrow> object_ref multiset" where
  "objs_of xs = mset (concat (map objs xs))"

definition entry_objs :: "(mux_value \<times> mux_value) list \<Rightarrow> object_ref multiset" where
  "entry_objs es = mset (concat (map (\<lambda>e. objs (fst e) @ objs (snd e)) es))"

lemma objs_of_simps [simp]:
  "objs_of [] = {#}" "objs_of (x # xs) = mset (objs x) + objs_of xs"
  "objs_of (xs @ ys) = objs_of xs + objs_of ys"
  by (simp_all add: objs_of_def)

lemma entry_objs_simps [simp]:
  "entry_objs [] = {#}" "entry_objs (e # es) = mset (objs (fst e)) + mset (objs (snd e)) + entry_objs es"
  by (simp_all add: entry_objs_def)

lemma objs_containers [simp]:
  "mset (objs (VList xs)) = objs_of xs" "mset (objs (VSet xs)) = objs_of xs"
  "mset (objs (VMap es)) = entry_objs es"
  by (simp_all add: objs_of_def entry_objs_def)

lemma entry_objs_insert:
  "entry_objs (al_insert eq es k v) +
     (case al_get eq es k of None \<Rightarrow> {#} | Some old \<Rightarrow> mset (objs old) + mset (objs k)) =
   entry_objs es + mset (objs k) + mset (objs v)"
  by (induction eq es k v rule: al_insert.induct) (auto split: option.splits simp: ac_simps)

lemma map_insert_inv:
  assumes "heap_inv h R (T + entry_objs es + mset (objs k) + mset (objs v))" "map_insert H es k v h = (es', h')"
  shows "heap_inv h' R (T + entry_objs es')" "hp_blocks h' = hp_blocks h"
proof -
  let ?eq = "value_eq (heap_hooks H h)"
  have es': "es' = al_insert ?eq es k v" using assms(2) by (simp add: map_insert_def Let_def)
  have total: "T + entry_objs es + mset (objs k) + mset (objs v) =
    T + entry_objs es' + (case al_get ?eq es k of None \<Rightarrow> {#} | Some old \<Rightarrow> mset (objs old) + mset (objs k))"
    using entry_objs_insert [of ?eq es k v] es' by (simp add: ac_simps)
  have "heap_inv h' R (T + entry_objs es') \<and> hp_blocks h' = hp_blocks h"
  proof (cases "al_get ?eq es k")
    case None
    then show ?thesis using assms total by (auto simp: map_insert_def Let_def)
  next
    case (Some old)
    then have h': "h' = drop_value old (drop_value k h)" using assms(2) by (simp add: map_insert_def Let_def)
    have "T + entry_objs es + mset (objs k) + mset (objs v) = T + entry_objs es' + mset (objs old) + mset (objs k)"
      using total Some by (simp add: ac_simps)
    then have "heap_inv h R (T + entry_objs es' + mset (objs old) + mset (objs k))" using assms(1) by metis
    then show ?thesis unfolding h' by (intro conjI drop_inv) simp_all
  qed
  then show "heap_inv h' R (T + entry_objs es')" "hp_blocks h' = hp_blocks h" by simp_all
qed

lemma set_insert_inv:
  assumes "heap_inv h R (T + objs_of xs + mset (objs v))" "set_insert H xs v h = (b, xs', h')"
  shows "heap_inv h' R (T + objs_of xs')" "hp_blocks h' = hp_blocks h"
  using assms drop_inv [of h R "T + objs_of xs" v]
  by (auto simp: set_insert_def Let_def ac_simps split: if_splits)

lemma fold_opt_inv:
  assumes "I [] s"
    and "\<And>ys x s. \<lbrakk>I ys s; x \<in> set xs\<rbrakk> \<Longrightarrow> \<exists>s'. f x s = Some s' \<and> I (ys @ [x]) s'"
  shows "\<exists>s'. fold_opt f xs s = Some s' \<and> I xs s'"
proof -
  have "I ys s \<Longrightarrow> set zs \<subseteq> set xs \<Longrightarrow> \<exists>s'. fold_opt f zs s = Some s' \<and> I (ys @ zs) s'" for ys zs s
  proof (induction zs arbitrary: ys s)
    case (Cons z zs)
    obtain s1 where s1: "f z s = Some s1" "I (ys @ [z]) s1" using assms(2) [OF Cons.prems(1), of z] Cons.prems(2) by auto
    then show ?case using Cons.IH [of "ys @ [z]" s1] Cons.prems(2) by simp
  qed simp
  from this [of "[]" s xs] show ?thesis using assms(1) by simp
qed

definition clone_result ::
  "'z heap_scheme \<Rightarrow> nat multiset \<Rightarrow> object_ref multiset \<Rightarrow> (mux_value \<times> 'z heap_scheme) option \<Rightarrow> bool" where
  "clone_result h R T r \<longleftrightarrow>
     (\<exists>v' h'. r = Some (v', h') \<and> heap_inv h' R (T + mset (objs v')) \<and> hp_blocks h' = hp_blocks h)"

lemma clone_resultI:
  "heap_inv h' R (T + mset (objs v')) \<Longrightarrow> hp_blocks h' = hp_blocks h \<Longrightarrow> clone_result h R T (Some (v', h'))"
  by (auto simp: clone_result_def)

lemma objs_parts: "x \<in> parts v \<Longrightarrow> set (objs x) \<subseteq> set (objs v)"
  by (cases v rule: parts.cases) auto

lemmas deep_clone_eqs =
  deep_clone_value.simps [of H "VList xs" for H xs, simplified mux_value.case]
  deep_clone_value.simps [of H "VMap es" for H es, simplified mux_value.case]
  deep_clone_value.simps [of H "VSet xs" for H xs, simplified mux_value.case]
  deep_clone_value.simps [of H "VTuple a b" for H a b, simplified mux_value.case]
  deep_clone_value.simps [of H "VOptional x" for H x, simplified mux_value.case]
  deep_clone_value.simps [of H "VResult x" for H x, simplified mux_value.case]
  deep_clone_value.simps [of H "VObject x" for H x, simplified mux_value.case]
  deep_clone_value.simps [of H "VBoxedEnum x" for H x, simplified mux_value.case]
  deep_clone_value.simps [of H "VUnit" for H, simplified mux_value.case]
  deep_clone_value.simps [of H "VBool x" for H x, simplified mux_value.case]
  deep_clone_value.simps [of H "VInt x" for H x, simplified mux_value.case]
  deep_clone_value.simps [of H "VFloat x" for H x, simplified mux_value.case]
  deep_clone_value.simps [of H "VString x" for H x, simplified mux_value.case]
  deep_clone_value.simps [of H "VBytes x" for H x, simplified mux_value.case]
  deep_clone_value.simps [of H "VOpaque x" for H x, simplified mux_value.case]

text \<open>The loops over members and entries, given that each part can be cloned from here on.\<close>

definition can_clone :: "hooks \<Rightarrow> 'z heap_scheme \<Rightarrow> nat multiset \<Rightarrow> object_ref multiset \<Rightarrow> mux_value set \<Rightarrow> bool" where
  "can_clone H h R T P \<longleftrightarrow> heap_inv h R T \<and>
     (\<forall>x h' T'. x \<in> P \<longrightarrow> heap_inv h' R T' \<longrightarrow> hp_blocks h' = hp_blocks h \<longrightarrow> T \<subseteq># T' \<longrightarrow>
        clone_result h' R T' (deep_clone_value H x (h' :: 'z heap_scheme)))"

lemma part_clone:
  fixes h h' :: "'z heap_scheme"
  assumes "can_clone H h R T P" "x \<in> P" "heap_inv h' R (T + U)" "hp_blocks h' = hp_blocks h"
  shows "\<exists>v' h2. deep_clone_value H x h' = Some (v', h2) \<and> heap_inv h2 R (T + (U + mset (objs v'))) \<and>
    hp_blocks h2 = hp_blocks h"
proof -
  have "clone_result h' R (T + U) (deep_clone_value H x h')" using assms by (simp add: can_clone_def)
  then show ?thesis using assms(4) by (auto simp: clone_result_def ac_simps)
qed

lemma clone_list_loop:
  fixes h :: "'z heap_scheme"
  assumes cc: "can_clone H h R T P" and prem: "set xs \<subseteq> P"
  shows "\<exists>out h'. fold_opt (\<lambda>item (out, h). map_option (\<lambda>(v, h'). (out @ [v], h')) (deep_clone_value H item h)) xs ([], h) =
    Some (out, h') \<and> heap_inv h' R (T + objs_of out) \<and> hp_blocks h' = hp_blocks h"
proof -
  let ?f = "\<lambda>item (out, h :: 'z heap_scheme). map_option (\<lambda>(v, h'). (out @ [v], h')) (deep_clone_value H item h)"
  let ?I = "\<lambda>(_::mux_value list) (out, h' :: 'z heap_scheme). heap_inv h' R (T + objs_of out) \<and> hp_blocks h' = hp_blocks h"
  have "\<exists>s'. fold_opt ?f xs ([], h) = Some s' \<and> ?I xs s'"
  proof (rule fold_opt_inv)
    fix ys x s assume I: "?I ys s" and x: "x \<in> set xs"
    obtain out and h1 :: "'z heap_scheme" where s: "s = (out, h1)" by (cases s)
    obtain v' h2 where "deep_clone_value H x h1 = Some (v', h2)" "hp_blocks h2 = hp_blocks h"
      "heap_inv h2 R (T + (objs_of out + mset (objs v')))"
      using part_clone [OF cc, of x h1 "objs_of out"] I x s prem by auto
    then show "\<exists>s'. ?f x s = Some s' \<and> ?I (ys @ [x]) s'" using s by simp
  qed (use cc in \<open>simp add: can_clone_def\<close>)
  then show ?thesis by auto
qed

lemma clone_set_loop:
  fixes h :: "'z heap_scheme"
  assumes cc: "can_clone H h R T P" and prem: "set xs \<subseteq> P"
  shows "\<exists>out h'. fold_opt (\<lambda>item (out, h). map_option (\<lambda>(v, h'). snd (set_insert H out v h')) (deep_clone_value H item h)) xs ([], h) =
    Some (out, h') \<and> heap_inv h' R (T + objs_of out) \<and> hp_blocks h' = hp_blocks h"
proof -
  let ?f = "\<lambda>item (out, h :: 'z heap_scheme). map_option (\<lambda>(v, h'). snd (set_insert H out v h')) (deep_clone_value H item h)"
  let ?I = "\<lambda>(_::mux_value list) (out, h' :: 'z heap_scheme). heap_inv h' R (T + objs_of out) \<and> hp_blocks h' = hp_blocks h"
  have "\<exists>s'. fold_opt ?f xs ([], h) = Some s' \<and> ?I xs s'"
  proof (rule fold_opt_inv)
    fix ys x s assume I: "?I ys s" and x: "x \<in> set xs"
    obtain out and h1 :: "'z heap_scheme" where s: "s = (out, h1)" by (cases s)
    obtain v' h2 where d: "deep_clone_value H x h1 = Some (v', h2)" "hp_blocks h2 = hp_blocks h"
      "heap_inv h2 R (T + objs_of out + mset (objs v'))"
      using part_clone [OF cc, of x h1 "objs_of out"] I x s prem by (auto simp: ac_simps)
    obtain b out' h3 where si: "set_insert H out v' h2 = (b, out', h3)" by (metis prod_cases3)
    show "\<exists>s'. ?f x s = Some s' \<and> ?I (ys @ [x]) s'"
      using set_insert_inv [OF d(3) si] d(1,2) si s by simp
  qed (use cc in \<open>simp add: can_clone_def\<close>)
  then show ?thesis by auto
qed

lemma clone_map_loop:
  fixes h :: "'z heap_scheme"
  assumes cc: "can_clone H h R T P" and prem: "fst ` set es \<subseteq> P" "snd ` set es \<subseteq> P"
  shows "\<exists>out h'. fold_opt (\<lambda>e (out, h). Option.bind (deep_clone_value H (fst e) h) (\<lambda>(k, h1).
       map_option (\<lambda>(v, h2). map_insert H out k v h2) (deep_clone_value H (snd e) h1))) es ([], h) =
    Some (out, h') \<and> heap_inv h' R (T + entry_objs out) \<and> hp_blocks h' = hp_blocks h"
proof -
  let ?f = "\<lambda>e (out, h :: 'z heap_scheme). Option.bind (deep_clone_value H (fst e) h) (\<lambda>(k, h1).
     map_option (\<lambda>(v, h2). map_insert H out k v h2) (deep_clone_value H (snd e) h1))"
  let ?I = "\<lambda>(_::(mux_value \<times> mux_value) list) (out, h' :: 'z heap_scheme). heap_inv h' R (T + entry_objs out) \<and> hp_blocks h' = hp_blocks h"
  have "\<exists>s'. fold_opt ?f es ([], h) = Some s' \<and> ?I es s'"
  proof (rule fold_opt_inv)
    fix ys e s assume I: "?I ys s" and e: "e \<in> set es"
    then have P: "fst e \<in> P" "snd e \<in> P" using prem by auto
    obtain out and h1 :: "'z heap_scheme" where s: "s = (out, h1)" by (cases s)
    obtain k h2 where k: "deep_clone_value H (fst e) h1 = Some (k, h2)" "hp_blocks h2 = hp_blocks h"
      "heap_inv h2 R (T + (entry_objs out + mset (objs k)))"
      using part_clone [OF cc P(1), of h1 "entry_objs out"] I s by auto
    obtain w h3 where w: "deep_clone_value H (snd e) h2 = Some (w, h3)" "hp_blocks h3 = hp_blocks h"
      "heap_inv h3 R (T + entry_objs out + mset (objs k) + mset (objs w))"
      using part_clone [OF cc P(2) k(3,2)] by (auto simp: ac_simps)
    obtain out' h4 where mi: "map_insert H out k w h3 = (out', h4)" by fastforce
    show "\<exists>s'. ?f e s = Some s' \<and> ?I (ys @ [e]) s'"
      using map_insert_inv [OF w(3) mi] k(1) w(1,2) mi s by simp
  qed (use cc in \<open>simp add: can_clone_def\<close>)
  then show ?thesis by auto
qed

lemma clone_tuple_step:
  assumes cc: "can_clone H h R T P" and prem: "a \<in> P" "b \<in> P"
  shows "clone_result h R T (deep_clone_value H (VTuple a b) h)"
proof -
  obtain a' h1 where a: "deep_clone_value H a h = Some (a', h1)" "hp_blocks h1 = hp_blocks h"
    "heap_inv h1 R (T + mset (objs a'))"
    using part_clone [OF cc prem(1), of h "{#}"] cc by (auto simp: can_clone_def)
  obtain b' h2 where b: "deep_clone_value H b h1 = Some (b', h2)" "hp_blocks h2 = hp_blocks h"
    "heap_inv h2 R (T + (mset (objs a') + mset (objs b')))"
    using part_clone [OF cc prem(2) a(3,2)] by auto
  show ?thesis using a b by (auto simp: deep_clone_eqs clone_result_def)
qed

lemma deep_clone_inv:
  fixes h :: "'z heap_scheme"
  assumes "heap_inv h R T" "set (objs v) \<subseteq> set_mset (held h + T)"
  shows "clone_result h R T (deep_clone_value H v h)"
  using assms
proof (induction "size v" arbitrary: v h T rule: less_induct)
  case less
  have cp: "can_clone H h R T (parts v)"
    unfolding can_clone_def
  proof (intro conjI allI impI)
    fix x T' and h' :: "'z heap_scheme"
    assume x: "x \<in> parts v" and h': "heap_inv h' R T'" "hp_blocks h' = hp_blocks h" "T \<subseteq># T'"
    have "size x < size v"
      using x by (cases v rule: parts.cases) (auto simp del: mux_value.size simp: size_value_less)
    moreover have "set (objs x) \<subseteq> set_mset (held h' + T')"
      using objs_parts [OF x] less.prems(2) held_blocks [OF h'(2)] set_mset_mono [OF h'(3)] by auto
    ultimately show "clone_result h' R T' (deep_clone_value H x h')" using less.hyps h'(1) by blast
  qed (rule less.prems(1))
  note one = part_clone [OF cp _ _ refl, of _ "{#}", simplified, OF _ less.prems(1)]
  note simps = deep_clone_eqs clone_result_def
  show ?case
  proof (cases v)
    case (VList xs)
    then show ?thesis using clone_list_loop [OF cp, of xs] by (auto simp: simps objs_of_def)
  next
    case (VSet xs)
    then show ?thesis using clone_set_loop [OF cp, of xs] by (auto simp: simps objs_of_def)
  next
    case (VMap es)
    then show ?thesis using clone_map_loop [OF cp, of es] by (auto simp: simps entry_objs_def)
  next
    case (VTuple a b)
    then show ?thesis using clone_tuple_step [OF cp, of a b] by simp
  next
    case (VOptional x)
    then show ?thesis using one [of "the x"] less.prems by (cases x) (auto simp: simps)
  next
    case (VResult x)
    then show ?thesis using one [of "case x of Inl y \<Rightarrow> y | Inr y \<Rightarrow> y"] less.prems
      by (cases x) (auto simp: simps)
  next
    case (VObject obj)
    then have "obj \<in># held h + T" using less.prems(2) by simp
    then show ?thesis
      by (rule deep_clone_object_inv [OF less.prems(1), of obj H]) (simp add: VObject simps)
  qed (use less.prems in \<open>auto simp: simps\<close>)
qed

end
