(* ===== verification/Heap_Calls.thy ===== *)
theory Heap_Calls
  imports Heap_Clone
begin

text \<open>
  How a call into the runtime is stated safe: \<open>yields m R T\<close> says that the call \<open>m\<close> comes back (no
  access through a dead pointer) and that afterwards the caller owns the references \<open>R\<close> and holds
  the object handles \<open>T\<close>, both as functions of the answer. The rules below build such
  statements along the structure of a definition.
\<close>

definition own :: "nat \<Rightarrow> nat multiset \<Rightarrow> nat multiset" where
  "own p R = (if p = 0 then R else add_mset p R)"

definition yields ::
  "('r \<times> 'z heap_scheme) option \<Rightarrow> ('r \<Rightarrow> nat multiset) \<Rightarrow> ('r \<Rightarrow> object_ref multiset) \<Rightarrow> bool" where
  "yields m R T \<longleftrightarrow> (\<exists>r h. m = Some (r, h) \<and> heap_inv h (R r) (T r))"

lemma yieldsI: "m = Some (r, h) \<Longrightarrow> heap_inv h (R r) (T r) \<Longrightarrow> yields m R T"
  by (auto simp: yields_def)

lemma yieldsE:
  assumes "yields m R T" obtains r h where "m = Some (r, h)" "heap_inv h (R r) (T r)"
  using assms by (auto simp: yields_def)

lemma yields_return: "heap_inv h (R r) (T r) \<Longrightarrow> yields (Some (r, h)) R T"
  by (auto simp: yields_def)

lemma yields_bind:
  assumes "yields m R1 T1"
    and "\<And>r h. m = Some (r, h) \<Longrightarrow> heap_inv h (R1 r) (T1 r) \<Longrightarrow> yields (f (r, h)) R T"
  shows "yields (Option.bind m f) R T"
  using assms by (auto simp: yields_def)

lemma yields_map:
  assumes "yields m R1 T1" "\<And>r. R1 r = R (f r)" "\<And>r. T1 r = T (f r)"
  shows "yields (map_option (\<lambda>(r, h). (f r, h)) m) R T"
  using assms by (auto simp: yields_def)

lemma heap_inv_multiset: "heap_inv h R T \<Longrightarrow> T = T' \<Longrightarrow> heap_inv h R T'"
  by simp

subsection \<open>Reading a block\<close>

lemma deref_owned: "heap_inv h R T \<Longrightarrow> p \<in># R \<Longrightarrow> \<exists>v. deref p h = Some v"
  unfolding heap_inv_def deref_def using heap_okD(2) [of h R T p] by auto

lemma deref_objs:
  assumes "heap_inv h R T" "deref p h = Some v"
  shows "set (objs v) \<subseteq> set_mset (held h + T)"
proof -
  obtain n where "hp_blocks h p = Some (n, v)" using assms(2) by (auto simp: deref_def)
  then have "mset (objs v) \<subseteq># held h" using held_block assms(1) by (auto simp: heap_inv_def)
  then show ?thesis by (metis set_mset_mono set_mset_mset set_mset_union sup.coboundedI1)
qed

text \<open>A clone of something found in a live block, or in the caller's hands.\<close>

lemma clone_inv_part:
  assumes "heap_inv h R T" "set (objs v) \<subseteq> set_mset (held h + T)" "clone_value H v h = (v', h')"
  shows "heap_inv h' R (T + mset (objs v'))" "objs v' = objs v" "hp_blocks h' = hp_blocks h"
  using clone_inv [OF assms(1,2), of H] assms(3) by (auto simp: clone_value_def)

lemma clone_inv_deref:
  assumes "heap_inv h R T" "deref p h = Some v" "clone_value H v h = (v', h')"
  shows "heap_inv h' R (T + mset (objs v'))" "objs v' = objs v" "hp_blocks h' = hp_blocks h"
  using clone_inv_part [OF assms(1) deref_objs [OF assms(1,2)] assms(3)] by auto

lemma deep_clone_inv_part:
  assumes "heap_inv h R T" "set (objs v) \<subseteq> set_mset (held h + T)"
  shows "yields (deep_clone_value H v h) (\<lambda>_. R) (\<lambda>v'. T + mset (objs v'))"
  using deep_clone_inv [OF assms, of H] by (auto simp: clone_result_def yields_def)

subsection \<open>Returning a block\<close>

lemma alloc_yields:
  assumes "heap_inv h R (T + mset (objs v))"
  shows "yields (Some (mux_rc_alloc v h)) (\<lambda>p. own p R) (\<lambda>_. T)"
proof -
  obtain p h' where a: "mux_rc_alloc v h = (p, h')" by fastforce
  show ?thesis using alloc_inv [OF assms a] a by (auto simp: yields_def own_def)
qed

lemma alloc_plain:
  assumes "heap_inv h R T" "objs v = []"
  shows "yields (Some (mux_rc_alloc v h)) (\<lambda>p. own p R) (\<lambda>_. T)"
  using alloc_yields [of h R T v] assms by simp

lemma null_yields: "heap_inv h R T \<Longrightarrow> yields (Some (0, h)) (\<lambda>p. own p R) (\<lambda>_. T)"
  by (auto simp: yields_def own_def)

subsection \<open>Changing a payload in place\<close>

lemma set_block_inv:
  assumes "heap_inv h R T" "deref p h = Some v" "T + mset (objs v) = T' + mset (objs v')"
  shows "heap_inv (set_block p v' h) R T'"
proof -
  have i: "heap_ok h R T" "buffers_ok h" using assms(1) by (simp_all add: heap_inv_def)
  obtain n where b: "hp_blocks h p = Some (n, v)" using assms(2) by (auto simp: deref_def)
  let ?h = "h\<lparr>hp_blocks := (hp_blocks h)(p \<mapsto> (n, v'))\<rparr>"
  have s: "set_block p v' h = ?h" using b by (simp add: set_block_def)
  have "held ?h + mset (objs v) = held h + mset (objs v')"
    using held_update [OF heap_ok_dom [OF i(1)], of p n v'] b by simp
  then have "held ?h + T' + (mset (objs v) + mset (objs v')) = held h + T + (mset (objs v) + mset (objs v'))"
    using assms(3) by (metis (no_types, lifting) add.assoc add.commute)
  then have strong: "held ?h + T' = held h + T" by simp
  have "rc_of ?h = rc_of h" using b by (auto simp: rc_of_update rc_of_def)
  moreover have "dom (hp_blocks ?h) = dom (hp_blocks h)" using b by auto
  ultimately have "heap_ok ?h R T'" using i(1) strong unfolding heap_ok_def by simp
  moreover have "buffers_ok ?h" by (rule buffers_same [OF i(2)]) simp_all
  ultimately show ?thesis by (simp add: heap_inv_def s)
qed

lemma deref_set_block: "deref p h = Some v \<Longrightarrow> deref q (set_block p v' h) = (if q = p then Some v' else deref q h)"
  by (auto simp: deref_def set_block_def)

text \<open>
  A mutator takes the container out of its block, runs on it as its only holder and puts the
  result back; anything but such a container is left alone.
\<close>

definition with_payload_mut ::
  "(mux_value \<Rightarrow> 'c option) \<Rightarrow> ('c \<Rightarrow> mux_value) \<Rightarrow> 'c \<Rightarrow> nat \<Rightarrow> ('c \<Rightarrow> 'z heap_scheme \<Rightarrow> 'r \<times> 'c \<times> 'z heap_scheme) \<Rightarrow>
     'z heap_scheme \<Rightarrow> ('r option \<times> 'z heap_scheme) option" where
  "with_payload_mut out back nil p f h =
     (if p = 0 then Some (None, h)
      else do {
        v \<leftarrow> deref p h;
        case out v of
          None \<Rightarrow> Some (None, h)
        | Some c \<Rightarrow>
            let (r, c', h') = f c (set_block p (back nil) h)
            in Some (Some r, set_block p (back c') h')
      })"

lemma with_payload_mut_yields:
  assumes "heap_inv h R T" "p = 0 \<or> p \<in># R"
    and out: "\<And>v c. out v = Some c \<Longrightarrow> v = back c" and nil: "objs (back nil) = []"
    and run: "\<And>c h1. heap_inv h1 R (T + mset (objs (back c))) \<Longrightarrow> deref p h1 = Some (back nil) \<Longrightarrow>
      \<exists>r c' h2. f c h1 = (r, c', h2) \<and> heap_inv h2 R (T' (Some r) + mset (objs (back c'))) \<and>
        hp_blocks h2 = hp_blocks h1"
    and skip: "T' None = T"
  shows "yields (with_payload_mut out back nil p f h) (\<lambda>_. R) T'"
proof (cases "p = 0")
  case True
  then show ?thesis using assms(1) skip by (simp add: with_payload_mut_def yields_def)
next
  case False
  then obtain v where v: "deref p h = Some v" using assms(1,2) deref_owned by blast
  show ?thesis
  proof (cases "out v")
    case None
    then show ?thesis using False v assms(1) skip by (simp add: with_payload_mut_def yields_def)
  next
    case (Some c)
    let ?h1 = "set_block p (back nil) h"
    have vc: "v = back c" by (rule out [OF Some])
    have i1: "heap_inv ?h1 R (T + mset (objs (back c)))"
      by (rule set_block_inv [OF assms(1) v]) (simp add: vc nil)
    have d1: "deref p ?h1 = Some (back nil)" using deref_set_block [OF v] by simp
    obtain r c' h2 where f: "f c ?h1 = (r, c', h2)" "heap_inv h2 R (T' (Some r) + mset (objs (back c')))"
      "hp_blocks h2 = hp_blocks ?h1"
      using run [OF i1 d1] by blast
    have "heap_inv (set_block p (back c') h2) R (T' (Some r))"
      using f d1 by (intro set_block_inv [where v = "back nil" and T = "T' (Some r) + mset (objs (back c'))"])
        (simp_all add: deref_def nil)
    then show ?thesis using False v Some f(1) by (simp add: with_payload_mut_def yields_def)
  qed
qed

end
