(* ===== verification/Value_Abi.thy ===== *)
theory Value_Abi
  imports Heap_Calls
begin

text \<open>
  The entry points that build, wrap and read single values: the value section of
  \<open>src/src/std.rs\<close> and the files \<open>optional.rs\<close>, \<open>result.rs\<close>, \<open>tuple.rs\<close>, \<open>bool.rs\<close>, \<open>boxing.rs\<close>,
  \<open>int.rs\<close> and \<open>float.rs\<close>. A value pointer is an address; the answer is \<^term>\<open>None\<close> when the call
  reads through a pointer that is null or dead. A pointer to a raw container is that container,
  and a C string is the text it decodes to. IEEE arithmetic and its decimal form are the record
  \<open>float_ops\<close>.
\<close>

record float_ops =
  fo_add :: "f64 \<Rightarrow> f64 \<Rightarrow> f64"
  fo_sub :: "f64 \<Rightarrow> f64 \<Rightarrow> f64"
  fo_mul :: "f64 \<Rightarrow> f64 \<Rightarrow> f64"
  fo_div :: "f64 \<Rightarrow> f64 \<Rightarrow> f64"
  fo_of_int :: "int \<Rightarrow> f64"
  fo_to_int :: "f64 \<Rightarrow> int"  \<comment> \<open>the saturating cast\<close>
  fo_whole :: "f64 \<Rightarrow> bool"  \<comment> \<open>\<open>fract() == 0.0\<close>\<close>
  fo_display :: "f64 \<Rightarrow> string"  \<comment> \<open>the plain format\<close>
  fo_display1 :: "f64 \<Rightarrow> string"  \<comment> \<open>one decimal place\<close>

definition c_string :: "string \<Rightarrow> string option" where
  "c_string s = (if char_of (0::nat) \<in> set s then None else Some s)"

text \<open>A call that may end the process with a Rust panic.\<close>

datatype 'a rust_call = Panics string | Returns 'a

subsection \<open>Constructors\<close>

definition mux_int_value :: "int \<Rightarrow> 'z heap_scheme \<Rightarrow> nat \<times> 'z heap_scheme" where
  "mux_int_value i h = mux_rc_alloc (VInt i) h"

definition mux_bool_value :: "int \<Rightarrow> 'z heap_scheme \<Rightarrow> nat \<times> 'z heap_scheme" where
  "mux_bool_value b h = mux_rc_alloc (VBool (b \<noteq> 0)) h"

definition mux_float_value :: "f64 \<Rightarrow> 'z heap_scheme \<Rightarrow> nat \<times> 'z heap_scheme" where
  "mux_float_value f h = mux_rc_alloc (VFloat f) h"

definition mux_string_value :: "string \<Rightarrow> 'z heap_scheme \<Rightarrow> nat \<times> 'z heap_scheme" where
  "mux_string_value s h = mux_rc_alloc (VString s) h"

definition mux_box_int :: "int \<Rightarrow> 'z heap_scheme \<Rightarrow> nat \<times> 'z heap_scheme" where
  "mux_box_int v h = mux_int_value v h"

definition mux_box_float :: "f64 \<Rightarrow> 'z heap_scheme \<Rightarrow> nat \<times> 'z heap_scheme" where
  "mux_box_float v h = mux_float_value v h"

definition mux_box_bool :: "int \<Rightarrow> 'z heap_scheme \<Rightarrow> nat \<times> 'z heap_scheme" where
  "mux_box_bool v h = mux_bool_value v h"

definition mux_box_str :: "string \<Rightarrow> 'z heap_scheme \<Rightarrow> nat \<times> 'z heap_scheme" where
  "mux_box_str v h = mux_string_value v h"

definition mux_none :: "'z heap_scheme \<Rightarrow> nat \<times> 'z heap_scheme" where
  "mux_none h = mux_rc_alloc (VOptional None) h"

definition clone_into ::
  "hooks \<Rightarrow> (mux_value \<Rightarrow> mux_value) \<Rightarrow> nat \<Rightarrow> 'z heap_scheme \<Rightarrow> (nat \<times> 'z heap_scheme) option" where
  "clone_into H wrap val h = do {
     v \<leftarrow> deref val h;
     let (v', h1) = clone_value H v h;
     Some (mux_rc_alloc (wrap v') h1)
   }"

definition mux_some :: "hooks \<Rightarrow> nat \<Rightarrow> 'z heap_scheme \<Rightarrow> (nat \<times> 'z heap_scheme) option" where
  "mux_some H val h = clone_into H (\<lambda>v. VOptional (Some v)) val h"

definition mux_ok :: "hooks \<Rightarrow> nat \<Rightarrow> 'z heap_scheme \<Rightarrow> (nat \<times> 'z heap_scheme) option" where
  "mux_ok H val h = clone_into H (\<lambda>v. VResult (Inr v)) val h"

definition mux_err :: "string \<Rightarrow> 'z heap_scheme \<Rightarrow> nat \<times> 'z heap_scheme" where
  "mux_err msg h = mux_rc_alloc (VResult (Inl (VString msg))) h"

definition mux_box_enum :: "u8 list \<Rightarrow> 'z heap_scheme \<Rightarrow> nat \<times> 'z heap_scheme" where
  "mux_box_enum bytes h = mux_rc_alloc (VOpaque bytes) h"

definition mux_box_enum_managed ::
  "hooks \<Rightarrow> u8 list \<Rightarrow> u64 \<Rightarrow> u64 \<Rightarrow> u64 \<Rightarrow> u64 \<Rightarrow> 'z heap_scheme \<Rightarrow> nat \<times> 'z heap_scheme" where
  "mux_box_enum_managed H bytes clone_glue drop_glue cmp_glue hash_glue h =
     (let boxed = enum_from_bytes bytes clone_glue drop_glue cmp_glue hash_glue
      in mux_rc_alloc (VBoxedEnum (boxed\<lparr>be_words := hk_enum_clone H clone_glue (be_words boxed)\<rparr>)) h)"

subsection \<open>Readers\<close>

text \<open>A read that answers for null and otherwise looks at the block.\<close>

definition read_or :: "'a \<Rightarrow> (mux_value \<Rightarrow> 'a) \<Rightarrow> nat \<Rightarrow> 'z heap_scheme \<Rightarrow> 'a option" where
  "read_or null f val h = (if val = 0 then Some null else map_option f (deref val h))"

definition mux_value_get_int :: "nat \<Rightarrow> 'z heap_scheme \<Rightarrow> int option" where
  "mux_value_get_int = read_or 0 (\<lambda>v. case v of VInt i \<Rightarrow> i | _ \<Rightarrow> 0)"

definition mux_int_from_value :: "nat \<Rightarrow> 'z heap_scheme \<Rightarrow> int option" where
  "mux_int_from_value = read_or 0 (\<lambda>v. case v of VInt i \<Rightarrow> i | _ \<Rightarrow> 0)"

definition mux_value_get_float :: "nat \<Rightarrow> 'z heap_scheme \<Rightarrow> f64 option" where
  "mux_value_get_float = read_or 0 (\<lambda>v. case v of VFloat f \<Rightarrow> f | _ \<Rightarrow> 0)"

definition mux_float_from_value :: "nat \<Rightarrow> 'z heap_scheme \<Rightarrow> f64 option" where
  "mux_float_from_value = read_or 0 (\<lambda>v. case v of VFloat f \<Rightarrow> f | _ \<Rightarrow> 0)"

definition mux_value_get_bool :: "nat \<Rightarrow> 'z heap_scheme \<Rightarrow> int option" where
  "mux_value_get_bool = read_or 0 (\<lambda>v. case v of VBool b \<Rightarrow> of_bool b | _ \<Rightarrow> 0)"

definition mux_bool_from_value :: "nat \<Rightarrow> 'z heap_scheme \<Rightarrow> int option" where
  "mux_bool_from_value val h = map_option (\<lambda>v. case v of VBool b \<Rightarrow> of_bool b | _ \<Rightarrow> 0) (deref val h)"

definition mux_value_get_type_tag :: "nat \<Rightarrow> 'z heap_scheme \<Rightarrow> int option" where
  "mux_value_get_type_tag = read_or (- 1) type_tag"

definition mux_value_to_string :: "hooks \<Rightarrow> nat \<Rightarrow> 'z heap_scheme \<Rightarrow> string option option" where
  "mux_value_to_string H val h = map_option (\<lambda>v. c_string (value_display H v)) (deref val h)"

definition mux_value_equal :: "hooks \<Rightarrow> nat \<Rightarrow> nat \<Rightarrow> 'z heap_scheme \<Rightarrow> int option" where
  "mux_value_equal H a b h =
     (if a = 0 \<or> b = 0 then Some (of_bool (a = b))
      else do { x \<leftarrow> deref a h; y \<leftarrow> deref b h; Some (of_bool (value_eq (heap_hooks H h) x y)) })"

definition mux_value_not_equal :: "hooks \<Rightarrow> nat \<Rightarrow> nat \<Rightarrow> 'z heap_scheme \<Rightarrow> int option" where
  "mux_value_not_equal H a b h = map_option (\<lambda>r. of_bool (r \<noteq> 1)) (mux_value_equal H a b h)"

definition ordering_int :: "ordering \<Rightarrow> int" where
  "ordering_int c = (case c of Less \<Rightarrow> - 1 | Equal \<Rightarrow> 0 | Greater \<Rightarrow> 1)"

definition mux_value_compare :: "hooks \<Rightarrow> nat \<Rightarrow> nat \<Rightarrow> 'z heap_scheme \<Rightarrow> int option" where
  "mux_value_compare H a b h =
     (if a = 0 \<and> b = 0 then Some 0
      else if a = 0 then Some (- 1)
      else if b = 0 then Some 1
      else do { x \<leftarrow> deref a h; y \<leftarrow> deref b h; Some (ordering_int (value_cmp (heap_hooks H h) x y)) })"

definition mux_value_hash :: "hooks \<Rightarrow> nat \<Rightarrow> 'z heap_scheme \<Rightarrow> u64 option" where
  "mux_value_hash H val h = read_or 0 (\<lambda>v. hk_default_hash H (value_hash (heap_hooks H h) v)) val h"

text \<open>The bytes behind the borrowed pointer; \<^term>\<open>None\<close> inside is null.\<close>

definition mux_value_unbox_enum :: "nat \<Rightarrow> 'z heap_scheme \<Rightarrow> u8 list option option" where
  "mux_value_unbox_enum = read_or None
     (\<lambda>v. case v of VOpaque data \<Rightarrow> Some data | VBoxedEnum be \<Rightarrow> Some (enum_bytes be) | _ \<Rightarrow> None)"

subsection \<open>Addition\<close>

text \<open>Plain \<open>+\<close>, \<open>-\<close> and \<open>*\<close> on \<open>i64\<close>: \<open>chk\<close> is whether the build checks for overflow.\<close>

definition arith :: "bool \<Rightarrow> string \<Rightarrow> int \<Rightarrow> int rust_call" where
  "arith chk what r =
     (if in_i64 r then Returns r
      else if chk then Panics (''attempt to '' @ what @ '' with overflow'') else Returns (wrap_i64 r))"

fun value_add :: "bool \<Rightarrow> float_ops \<Rightarrow> mux_value \<Rightarrow> mux_value \<Rightarrow> mux_value rust_call" where
  "value_add chk F (VInt a) (VInt b) = map_rust_call VInt (arith chk ''add'' (a + b))"
| "value_add chk F (VFloat a) (VFloat b) = Returns (VFloat (fo_add F a b))"
| "value_add chk F (VString a) (VString b) = Returns (VString (a @ b))"
| "value_add chk F (VString a) (VInt b) = Returns (VString (a @ show_int b))"
| "value_add chk F (VInt a) (VString b) = Returns (VString (show_int a @ b))"
| "value_add chk F (VString a) (VFloat b) = Returns (VString (a @ fo_display F b))"
| "value_add chk F (VFloat a) (VString b) = Returns (VString (fo_display F a @ b))"
| "value_add chk F (VString a) (VBool b) = Returns (VString (a @ (if b then ''true'' else ''false'')))"
| "value_add chk F (VBool a) (VString b) = Returns (VString ((if a then ''true'' else ''false'') @ b))"
| "value_add chk F _ _ = Returns (VInt 0)"

definition mux_value_add ::
  "bool \<Rightarrow> float_ops \<Rightarrow> nat \<Rightarrow> nat \<Rightarrow> 'z heap_scheme \<Rightarrow> (nat \<times> 'z heap_scheme) rust_call option" where
  "mux_value_add chk F a b h = do {
     x \<leftarrow> deref a h;
     y \<leftarrow> deref b h;
     Some (map_rust_call (\<lambda>v. mux_rc_alloc v h) (value_add chk F x y))
   }"

subsection \<open>Optionals\<close>

definition mux_optional_is_some :: "nat \<Rightarrow> 'z heap_scheme \<Rightarrow> bool option" where
  "mux_optional_is_some = read_or False (\<lambda>v. case v of VOptional (Some _) \<Rightarrow> True | _ \<Rightarrow> False)"

definition mux_optional_is_none :: "nat \<Rightarrow> 'z heap_scheme \<Rightarrow> bool option" where
  "mux_optional_is_none = read_or False (\<lambda>v. case v of VOptional None \<Rightarrow> True | _ \<Rightarrow> False)"

text \<open>Deep clone of part of a value into a block of its own, null when there is no such part.\<close>

definition deep_clone_into ::
  "hooks \<Rightarrow> (mux_value \<Rightarrow> mux_value option) \<Rightarrow> (mux_value \<Rightarrow> mux_value) \<Rightarrow> nat \<Rightarrow> 'z heap_scheme \<Rightarrow>
     (nat \<times> 'z heap_scheme) option" where
  "deep_clone_into H part wrap val h =
     (if val = 0 then Some (0, h)
      else do {
        v \<leftarrow> deref val h;
        case part v of
          None \<Rightarrow> Some (0, h)
        | Some x \<Rightarrow> do { (x', h1) \<leftarrow> deep_clone_value H x h; Some (mux_rc_alloc (wrap x') h1) }
      })"

definition mux_optional_get_value :: "hooks \<Rightarrow> nat \<Rightarrow> 'z heap_scheme \<Rightarrow> (nat \<times> 'z heap_scheme) option" where
  "mux_optional_get_value H = deep_clone_into H (\<lambda>v. case v of VOptional (Some x) \<Rightarrow> Some x | _ \<Rightarrow> None) (\<lambda>x. x)"

definition mux_optional_data :: "hooks \<Rightarrow> nat \<Rightarrow> 'z heap_scheme \<Rightarrow> (nat \<times> 'z heap_scheme) option" where
  "mux_optional_data H = mux_optional_get_value H"

definition mux_optional_some_int :: "int \<Rightarrow> 'z heap_scheme \<Rightarrow> nat \<times> 'z heap_scheme" where
  "mux_optional_some_int val h = mux_rc_alloc (VOptional (Some (VInt val))) h"

definition mux_optional_some_float :: "f64 \<Rightarrow> 'z heap_scheme \<Rightarrow> nat \<times> 'z heap_scheme" where
  "mux_optional_some_float val h = mux_rc_alloc (VOptional (Some (VFloat val))) h"

definition mux_optional_some_bool :: "int \<Rightarrow> 'z heap_scheme \<Rightarrow> nat \<times> 'z heap_scheme" where
  "mux_optional_some_bool val h = mux_rc_alloc (VOptional (Some (VBool (val \<noteq> 0)))) h"

definition mux_optional_some_char :: "int \<Rightarrow> 'z heap_scheme \<Rightarrow> nat \<times> 'z heap_scheme" where
  "mux_optional_some_char val h = mux_rc_alloc (VOptional (Some (VInt val))) h"

definition mux_optional_some_value :: "hooks \<Rightarrow> nat \<Rightarrow> 'z heap_scheme \<Rightarrow> (nat \<times> 'z heap_scheme) option" where
  "mux_optional_some_value H val h =
     (if val = 0 then Some (mux_rc_alloc (VOptional None) h)
      else deep_clone_into H Some (\<lambda>x. VOptional (Some x)) val h)"

definition mux_optional_some_string :: "hooks \<Rightarrow> nat \<Rightarrow> 'z heap_scheme \<Rightarrow> (nat \<times> 'z heap_scheme) option" where
  "mux_optional_some_string H = mux_optional_some_value H"

definition mux_optional_none :: "'z heap_scheme \<Rightarrow> nat \<times> 'z heap_scheme" where
  "mux_optional_none h = mux_rc_alloc (VOptional None) h"

definition mux_optional_to_string :: "hooks \<Rightarrow> nat \<Rightarrow> 'z heap_scheme \<Rightarrow> string option option" where
  "mux_optional_to_string H = read_or (c_string ''null'')
     (\<lambda>v. c_string (case v of
        VOptional (Some x) \<Rightarrow> ''Some('' @ value_display H x @ '')''
      | VOptional None \<Rightarrow> ''None''
      | other \<Rightarrow> value_display H other))"

definition mux_value_optional_discriminant :: "nat \<Rightarrow> 'z heap_scheme \<Rightarrow> int option" where
  "mux_value_optional_discriminant = read_or (- 1)
     (\<lambda>v. case v of VOptional (Some _) \<Rightarrow> 0 | VOptional None \<Rightarrow> 1 | _ \<Rightarrow> - 1)"

definition mux_optional_into_value :: "nat \<Rightarrow> nat" where
  "mux_optional_into_value val = val"

subsection \<open>Results\<close>

definition mux_result_ok_int :: "int \<Rightarrow> 'z heap_scheme \<Rightarrow> nat \<times> 'z heap_scheme" where
  "mux_result_ok_int val h = mux_rc_alloc (VResult (Inr (VInt val))) h"

definition mux_result_ok_float :: "f64 \<Rightarrow> 'z heap_scheme \<Rightarrow> nat \<times> 'z heap_scheme" where
  "mux_result_ok_float val h = mux_rc_alloc (VResult (Inr (VFloat val))) h"

definition mux_result_ok_bool :: "int \<Rightarrow> 'z heap_scheme \<Rightarrow> nat \<times> 'z heap_scheme" where
  "mux_result_ok_bool val h = mux_rc_alloc (VResult (Inr (VBool (val \<noteq> 0)))) h"

definition mux_result_ok_char :: "int \<Rightarrow> 'z heap_scheme \<Rightarrow> nat \<times> 'z heap_scheme" where
  "mux_result_ok_char val h = mux_rc_alloc (VResult (Inr (VInt val))) h"

definition mux_result_ok_value :: "hooks \<Rightarrow> nat \<Rightarrow> 'z heap_scheme \<Rightarrow> (nat \<times> 'z heap_scheme) option" where
  "mux_result_ok_value H = deep_clone_into H Some (\<lambda>x. VResult (Inr x))"

definition mux_result_ok_string :: "hooks \<Rightarrow> nat \<Rightarrow> 'z heap_scheme \<Rightarrow> (nat \<times> 'z heap_scheme) option" where
  "mux_result_ok_string H = mux_result_ok_value H"

definition mux_result_ok_unit :: "'z heap_scheme \<Rightarrow> nat \<times> 'z heap_scheme" where
  "mux_result_ok_unit h = mux_rc_alloc (VResult (Inr VUnit)) h"

definition mux_result_err_str :: "string \<Rightarrow> 'z heap_scheme \<Rightarrow> nat \<times> 'z heap_scheme" where
  "mux_result_err_str msg h = mux_rc_alloc (VResult (Inl (VString msg))) h"

definition mux_result_err_value :: "hooks \<Rightarrow> nat \<Rightarrow> 'z heap_scheme \<Rightarrow> (nat \<times> 'z heap_scheme) option" where
  "mux_result_err_value H = deep_clone_into H Some (\<lambda>x. VResult (Inl x))"

definition mux_result_is_ok :: "nat \<Rightarrow> 'z heap_scheme \<Rightarrow> bool option" where
  "mux_result_is_ok = read_or False (\<lambda>v. case v of VResult (Inr _) \<Rightarrow> True | _ \<Rightarrow> False)"

definition mux_result_is_err :: "nat \<Rightarrow> 'z heap_scheme \<Rightarrow> bool option" where
  "mux_result_is_err = read_or False (\<lambda>v. case v of VResult (Inl _) \<Rightarrow> True | _ \<Rightarrow> False)"

definition mux_result_data :: "hooks \<Rightarrow> nat \<Rightarrow> 'z heap_scheme \<Rightarrow> (nat \<times> 'z heap_scheme) option" where
  "mux_result_data H = deep_clone_into H
     (\<lambda>v. case v of VResult (Inr x) \<Rightarrow> Some x | VResult (Inl e) \<Rightarrow> Some e | _ \<Rightarrow> None) (\<lambda>x. x)"

definition mux_value_result_discriminant :: "nat \<Rightarrow> 'z heap_scheme \<Rightarrow> int option" where
  "mux_value_result_discriminant = read_or (- 1)
     (\<lambda>v. case v of VResult (Inr _) \<Rightarrow> 0 | VResult (Inl _) \<Rightarrow> 1 | _ \<Rightarrow> - 1)"

subsection \<open>Scalars\<close>

definition mux_bool_to_string :: "int \<Rightarrow> string option" where
  "mux_bool_to_string b = c_string (if b \<noteq> 0 then ''true'' else ''false'')"

text \<open>Conversion of a scalar block into a new block, null for another value.\<close>

definition convert :: "(mux_value \<Rightarrow> mux_value option) \<Rightarrow> nat \<Rightarrow> 'z heap_scheme \<Rightarrow> (nat \<times> 'z heap_scheme) option" where
  "convert f v h =
     (if v = 0 then Some (0, h)
      else map_option (\<lambda>x. case f x of None \<Rightarrow> (0, h) | Some y \<Rightarrow> mux_rc_alloc y h) (deref v h))"

definition mux_bool_to_int :: "nat \<Rightarrow> 'z heap_scheme \<Rightarrow> (nat \<times> 'z heap_scheme) option" where
  "mux_bool_to_int = convert (\<lambda>v. case v of VBool b \<Rightarrow> Some (VInt (of_bool b)) | _ \<Rightarrow> None)"

definition mux_bool_to_float :: "float_ops \<Rightarrow> nat \<Rightarrow> 'z heap_scheme \<Rightarrow> (nat \<times> 'z heap_scheme) option" where
  "mux_bool_to_float F = convert (\<lambda>v. case v of VBool b \<Rightarrow> Some (VFloat (fo_of_int F (of_bool b))) | _ \<Rightarrow> None)"

definition mux_int_to_float :: "float_ops \<Rightarrow> nat \<Rightarrow> 'z heap_scheme \<Rightarrow> (nat \<times> 'z heap_scheme) option" where
  "mux_int_to_float F = convert (\<lambda>v. case v of VInt i \<Rightarrow> Some (VFloat (fo_of_int F i)) | _ \<Rightarrow> None)"

definition mux_float_to_int :: "float_ops \<Rightarrow> nat \<Rightarrow> 'z heap_scheme \<Rightarrow> (nat \<times> 'z heap_scheme) option" where
  "mux_float_to_int F = convert (\<lambda>v. case v of VFloat f \<Rightarrow> Some (VInt (fo_to_int F f)) | _ \<Rightarrow> None)"

definition mux_int_to_string :: "int \<Rightarrow> string option" where
  "mux_int_to_string i = c_string (show_int i)"

definition format_float :: "float_ops \<Rightarrow> f64 \<Rightarrow> string" where
  "format_float F f = (if fo_whole F f then fo_display1 F f else fo_display F f)"

definition mux_float_to_string :: "float_ops \<Rightarrow> f64 \<Rightarrow> string option" where
  "mux_float_to_string F f = c_string (format_float F f)"

definition mux_int_add :: "bool \<Rightarrow> int \<Rightarrow> int \<Rightarrow> int rust_call" where
  "mux_int_add chk a b = arith chk ''add'' (a + b)"

definition mux_int_sub :: "bool \<Rightarrow> int \<Rightarrow> int \<Rightarrow> int rust_call" where
  "mux_int_sub chk a b = arith chk ''subtract'' (a - b)"

definition mux_int_mul :: "bool \<Rightarrow> int \<Rightarrow> int \<Rightarrow> int rust_call" where
  "mux_int_mul chk a b = arith chk ''multiply'' (a * b)"

text \<open>Division and remainder check for overflow in every build.\<close>

definition int_div :: "int \<Rightarrow> int \<Rightarrow> int rresult rust_call" where
  "int_div a b = (if b = 0 then Returns (Err ''Division by zero'')
     else if a = i64_min \<and> b = - 1 then Panics ''attempt to divide with overflow''
     else Returns (Ok (tdiv a b)))"

definition int_rem :: "int \<Rightarrow> int \<Rightarrow> int rresult rust_call" where
  "int_rem a b = (if b = 0 then Returns (Err ''Modulo by zero'')
     else if a = i64_min \<and> b = - 1 then Panics ''attempt to calculate the remainder with overflow''
     else Returns (Ok (trem a b)))"

definition mux_int_div :: "int \<Rightarrow> int \<Rightarrow> 'z heap_scheme \<Rightarrow> (nat \<times> 'z heap_scheme) rust_call" where
  "mux_int_div a b h = map_rust_call
     (\<lambda>r. case r of Inr i \<Rightarrow> mux_rc_alloc (VResult (Inr (VInt i))) h
                  | Inl e \<Rightarrow> mux_rc_alloc (VResult (Inl (VString e))) h) (int_div a b)"

definition mux_int_rem :: "int \<Rightarrow> int \<Rightarrow> int rust_call" where
  "mux_int_rem a b = map_rust_call (\<lambda>r. case r of Inr i \<Rightarrow> i | Inl _ \<Rightarrow> 0) (int_rem a b)"

definition mux_int_eq :: "int \<Rightarrow> int \<Rightarrow> bool" where
  "mux_int_eq a b \<longleftrightarrow> a = b"

definition mux_int_lt :: "int \<Rightarrow> int \<Rightarrow> bool" where
  "mux_int_lt a b \<longleftrightarrow> a < b"

definition mux_float_div :: "float_ops \<Rightarrow> hooks \<Rightarrow> f64 \<Rightarrow> f64 \<Rightarrow> 'z heap_scheme \<Rightarrow> nat \<times> 'z heap_scheme" where
  "mux_float_div F H a b h = mux_rc_alloc
     (VResult (if hk_float_eq H b 0 then Inl (VString ''Division by zero'') else Inr (VFloat (fo_div F a b)))) h"

definition mux_float_add :: "float_ops \<Rightarrow> f64 \<Rightarrow> f64 \<Rightarrow> f64" where
  "mux_float_add F a b = fo_add F a b"

definition mux_float_sub :: "float_ops \<Rightarrow> f64 \<Rightarrow> f64 \<Rightarrow> f64" where
  "mux_float_sub F a b = fo_sub F a b"

definition mux_float_mul :: "float_ops \<Rightarrow> f64 \<Rightarrow> f64 \<Rightarrow> f64" where
  "mux_float_mul F a b = fo_mul F a b"

definition mux_float_eq :: "hooks \<Rightarrow> f64 \<Rightarrow> f64 \<Rightarrow> bool" where
  "mux_float_eq H a b \<longleftrightarrow> hk_float_eq H a b"

definition mux_float_lt :: "hooks \<Rightarrow> f64 \<Rightarrow> f64 \<Rightarrow> bool" where
  "mux_float_lt H a b \<longleftrightarrow> hk_float_cmp H a b = Less"

definition mux_float_hash :: "hooks \<Rightarrow> f64 \<Rightarrow> int" where
  "mux_float_hash H f = sint (hk_default_hash H (hk_float_hash H f))"

subsection \<open>Tuples\<close>

type_synonym tuple = "mux_value \<times> mux_value"

definition mux_new_tuple :: "hooks \<Rightarrow> nat \<Rightarrow> nat \<Rightarrow> 'z heap_scheme \<Rightarrow> (tuple \<times> 'z heap_scheme) option" where
  "mux_new_tuple H left right h = do {
     l \<leftarrow> deref left h;
     let (left_val, h1) = clone_value H l h;
     r \<leftarrow> deref right h1;
     let (right_val, h2) = clone_value H r h1;
     Some ((left_val, right_val), h2)
   }"

definition mux_tuple_value :: "tuple \<Rightarrow> 'z heap_scheme \<Rightarrow> nat \<times> 'z heap_scheme" where
  "mux_tuple_value t h = mux_rc_alloc (VTuple (fst t) (snd t)) h"

definition mux_tuple_eq :: "hooks \<Rightarrow> tuple option \<Rightarrow> tuple option \<Rightarrow> bool" where
  "mux_tuple_eq H a b = (case (a, b) of
       (Some x, Some y) \<Rightarrow> value_eq H (fst x) (fst y) \<and> value_eq H (snd x) (snd y)
     | _ \<Rightarrow> False)"

definition mux_tuple_to_string :: "hooks \<Rightarrow> tuple \<Rightarrow> string option" where
  "mux_tuple_to_string H t = c_string (''('' @ value_display H (fst t) @ '', '' @ value_display H (snd t) @ '')'')"

definition mux_tuple_left :: "hooks \<Rightarrow> tuple \<Rightarrow> 'z heap_scheme \<Rightarrow> nat \<times> 'z heap_scheme" where
  "mux_tuple_left H t h = (let (v, h1) = clone_value H (fst t) h in mux_rc_alloc v h1)"

definition mux_tuple_right :: "hooks \<Rightarrow> tuple \<Rightarrow> 'z heap_scheme \<Rightarrow> nat \<times> 'z heap_scheme" where
  "mux_tuple_right H t h = (let (v, h1) = clone_value H (snd t) h in mux_rc_alloc v h1)"

definition mux_value_get_tuple :: "nat \<Rightarrow> 'z heap_scheme \<Rightarrow> tuple option option" where
  "mux_value_get_tuple = read_or None (\<lambda>v. case v of VTuple a b \<Rightarrow> Some (a, b) | _ \<Rightarrow> None)"

end
