(* ===== verification/Containers.thy ===== *)
theory Containers
  imports Value_Abi
begin

text \<open>
  Lists, maps and sets as the compiled program uses them: \<open>src/src/list.rs\<close>, \<open>map.rs\<close>, \<open>set.rs\<close>
  and the container section of \<open>std.rs\<close>. A raw container (\<open>Box<List>\<close>, \<open>Box<Map>\<close>, \<open>Box<Set>\<close>) is its
  contents, and a mutator of one returns the new contents. The \<open>_value\<close> entry points change the
  payload of a block in place.
\<close>

definition alloc_optional :: "mux_value option \<Rightarrow> 'z heap_scheme \<Rightarrow> nat \<times> 'z heap_scheme" where
  "alloc_optional opt h = mux_rc_alloc (VOptional opt) h"

definition as_list :: "mux_value \<Rightarrow> mux_value list option" where
  "as_list v = (case v of VList xs \<Rightarrow> Some xs | _ \<Rightarrow> None)"

definition as_map :: "mux_value \<Rightarrow> (mux_value \<times> mux_value) list option" where
  "as_map v = (case v of VMap es \<Rightarrow> Some es | _ \<Rightarrow> None)"

definition as_set :: "mux_value \<Rightarrow> mux_value list option" where
  "as_set v = (case v of VSet xs \<Rightarrow> Some xs | _ \<Rightarrow> None)"

text \<open>A fresh clone of every element, as \<open>Vec::clone\<close> makes.\<close>

definition clone_list :: "hooks \<Rightarrow> mux_value list \<Rightarrow> 'z heap_scheme \<Rightarrow> mux_value list \<times> 'z heap_scheme" where
  "clone_list H xs h = (map (value_clone H) xs, fold retain_obj (concat (map objs xs)) h)"

definition clone_entries ::
  "hooks \<Rightarrow> (mux_value \<times> mux_value) list \<Rightarrow> 'z heap_scheme \<Rightarrow> (mux_value \<times> mux_value) list \<times> 'z heap_scheme" where
  "clone_entries H es h =
     (map (\<lambda>e. (value_clone H (fst e), value_clone H (snd e))) es,
      fold retain_obj (concat (map (\<lambda>e. objs (fst e) @ objs (snd e)) es)) h)"

subsection \<open>Lists\<close>

definition with_list_mut ::
  "nat \<Rightarrow> (mux_value list \<Rightarrow> 'z heap_scheme \<Rightarrow> 'r \<times> mux_value list \<times> 'z heap_scheme) \<Rightarrow> 'z heap_scheme \<Rightarrow>
     ('r option \<times> 'z heap_scheme) option" where
  "with_list_mut = with_payload_mut as_list VList []"

definition list_push_back :: "mux_value list \<Rightarrow> mux_value \<Rightarrow> mux_value list" where
  "list_push_back xs val = xs @ [val]"

definition list_pop_back :: "mux_value list \<Rightarrow> mux_value option \<times> mux_value list" where
  "list_pop_back xs = (if xs = [] then (None, []) else (Some (last xs), butlast xs))"

definition list_pop_front :: "mux_value list \<Rightarrow> mux_value option \<times> mux_value list" where
  "list_pop_front xs = (case xs of [] \<Rightarrow> (None, []) | x # rest \<Rightarrow> (Some x, rest))"

definition list_length :: "mux_value list \<Rightarrow> int" where
  "list_length xs = int (length xs)"

definition list_display :: "hooks \<Rightarrow> mux_value list \<Rightarrow> string" where
  "list_display H xs = ''['' @ join '', '' (map (value_display H) xs) @ '']''"

definition mux_list_push_back ::
  "hooks \<Rightarrow> mux_value list \<Rightarrow> nat \<Rightarrow> 'z heap_scheme \<Rightarrow> (mux_value list \<times> 'z heap_scheme) option" where
  "mux_list_push_back H list val h = do {
     v \<leftarrow> deref val h;
     let (value, h1) = clone_value H v h;
     Some (list_push_back list value, h1)
   }"

definition mux_list_pop_back :: "mux_value list \<Rightarrow> 'z heap_scheme \<Rightarrow> (nat \<times> mux_value list) \<times> 'z heap_scheme" where
  "mux_list_pop_back list h =
     (let (opt, list') = list_pop_back list; (p, h1) = alloc_optional opt h in ((p, list'), h1))"

definition mux_list_push ::
  "hooks \<Rightarrow> mux_value list \<Rightarrow> nat \<Rightarrow> 'z heap_scheme \<Rightarrow> (mux_value list \<times> 'z heap_scheme) option" where
  "mux_list_push H list val h = do {
     v \<leftarrow> deref val h;
     let (value, h1) = clone_value H v h;
     Some (list_push_back list value, h1)
   }"

definition mux_list_pop :: "mux_value list \<Rightarrow> 'z heap_scheme \<Rightarrow> (nat \<times> mux_value list) \<times> 'z heap_scheme" where
  "mux_list_pop list h =
     (let (opt, list') = list_pop_front list; (p, h1) = alloc_optional opt h in ((p, list'), h1))"

definition mux_list_is_empty :: "mux_value list option \<Rightarrow> bool" where
  "mux_list_is_empty list = (case list of None \<Rightarrow> False | Some xs \<Rightarrow> list_length xs = 0)"

definition mux_list_length :: "mux_value list \<Rightarrow> int" where
  "mux_list_length list = list_length list"

definition mux_list_push_back_value :: "hooks \<Rightarrow> nat \<Rightarrow> nat \<Rightarrow> 'z heap_scheme \<Rightarrow> (unit \<times> 'z heap_scheme) option" where
  "mux_list_push_back_value H list_val val h = do {
     v \<leftarrow> deref val h;
     let (value, h1) = clone_value H v h;
     (r, h2) \<leftarrow> with_list_mut list_val (\<lambda>list_data h. ((), list_data @ [value], h)) h1;
     Some ((), if r = None then drop_value value h2 else h2)
   }"

definition mux_list_push_value :: "hooks \<Rightarrow> nat \<Rightarrow> nat \<Rightarrow> 'z heap_scheme \<Rightarrow> (unit \<times> 'z heap_scheme) option" where
  "mux_list_push_value H list_val val h = do {
     v \<leftarrow> deref val h;
     let (value, h1) = clone_value H v h;
     (r, h2) \<leftarrow> with_list_mut list_val (\<lambda>list_data h. ((), value # list_data, h)) h1;
     Some ((), if r = None then drop_value value h2 else h2)
   }"

definition mux_list_pop_back_value :: "nat \<Rightarrow> 'z heap_scheme \<Rightarrow> (nat \<times> 'z heap_scheme) option" where
  "mux_list_pop_back_value list_val h = do {
     (opt, h1) \<leftarrow> with_list_mut list_val (\<lambda>list_data h. let (r, rest) = list_pop_back list_data in (r, rest, h)) h;
     Some (alloc_optional (Option.bind opt id) h1)
   }"

definition mux_list_pop_value :: "nat \<Rightarrow> 'z heap_scheme \<Rightarrow> (nat \<times> 'z heap_scheme) option" where
  "mux_list_pop_value list_val h = do {
     (opt, h1) \<leftarrow> with_list_mut list_val (\<lambda>list_data h. let (r, rest) = list_pop_front list_data in (r, rest, h)) h;
     Some (alloc_optional (Option.bind opt id) h1)
   }"

definition mux_list_get :: "hooks \<Rightarrow> mux_value list \<Rightarrow> int \<Rightarrow> 'z heap_scheme \<Rightarrow> nat \<times> 'z heap_scheme" where
  "mux_list_get H list index h =
     (if index < 0 \<or> index \<ge> list_length list then mux_rc_alloc (VOptional None) h
      else let (val, h1) = clone_value H (list ! nat index) h
           in mux_rc_alloc (VOptional (Some val)) h1)"

definition mux_list_get_value :: "hooks \<Rightarrow> mux_value list option \<Rightarrow> int \<Rightarrow> 'z heap_scheme \<Rightarrow> nat \<times> 'z heap_scheme" where
  "mux_list_get_value H list index h = (case list of
       None \<Rightarrow> (0, h)
     | Some xs \<Rightarrow>
         if index < 0 \<or> index \<ge> list_length xs then (0, h)
         else let (val, h1) = clone_value H (xs ! nat index) h in mux_rc_alloc val h1)"

text \<open>Writing an element drops the one it replaces.\<close>

definition replace_at :: "mux_value list \<Rightarrow> nat \<Rightarrow> mux_value \<Rightarrow> 'z heap_scheme \<Rightarrow> mux_value list \<times> 'z heap_scheme" where
  "replace_at xs i value h = (xs[i := value], drop_value (xs ! i) h)"

definition mux_list_set ::
  "hooks \<Rightarrow> mux_value list \<Rightarrow> int \<Rightarrow> nat \<Rightarrow> 'z heap_scheme \<Rightarrow> (mux_value list \<times> 'z heap_scheme) option" where
  "mux_list_set H list index val h = do {
     v \<leftarrow> deref val h;
     let (value, h1) = clone_value H v h;
     Some (if index \<ge> 0 \<and> index < list_length list then replace_at list (nat index) value h1
           else (list, drop_value value h1))
   }"

definition normalized_index :: "int \<Rightarrow> nat \<Rightarrow> nat option" where
  "normalized_index index len =
     (let wrapped = if index < 0 then int len + index else index
      in if wrapped \<ge> 0 then Some (nat wrapped) else None)"

definition default_fill_value :: "mux_value list \<Rightarrow> mux_value" where
  "default_fill_value list = (case list of
       [] \<Rightarrow> VInt 0
     | VFloat _ # _ \<Rightarrow> VFloat 0
     | VString _ # _ \<Rightarrow> VString []
     | VBool _ # _ \<Rightarrow> VBool False
     | _ \<Rightarrow> VInt 0)"

function push_until :: "mux_value \<Rightarrow> nat \<Rightarrow> mux_value list \<Rightarrow> mux_value list" where
  "push_until fill target list =
     (if length list \<le> target then push_until fill target (list @ [fill]) else list)"
  by pat_completeness auto
termination by (relation "measure (\<lambda>(_, target, list). Suc target - length list)") auto

declare push_until.simps [simp del]

definition extend_to_index :: "mux_value list \<Rightarrow> nat \<Rightarrow> mux_value list" where
  "extend_to_index list target = push_until (default_fill_value list) target list"

definition assign_at ::
  "int \<Rightarrow> mux_value \<Rightarrow> mux_value list \<Rightarrow> 'z heap_scheme \<Rightarrow> unit \<times> mux_value list \<times> 'z heap_scheme" where
  "assign_at index v list_data h = (case normalized_index index (length list_data) of
       None \<Rightarrow> ((), list_data, drop_value v h)
     | Some i \<Rightarrow>
         ((), replace_at (if i \<ge> length list_data then extend_to_index list_data i else list_data) i v h))"

definition mux_list_set_value :: "hooks \<Rightarrow> nat \<Rightarrow> int \<Rightarrow> nat \<Rightarrow> 'z heap_scheme \<Rightarrow> (unit \<times> 'z heap_scheme) option" where
  "mux_list_set_value H list_val index val h =
     (if list_val = 0 \<or> val = 0 then Some ((), h)
      else do {
        v \<leftarrow> deref val h;
        let (value, h1) = clone_value H v h;
        (r, h2) \<leftarrow> with_list_mut list_val (assign_at index value) h1;
        Some ((), if r = None then drop_value value h2 else h2)
      })"

definition mux_list_insert ::
  "hooks \<Rightarrow> mux_value list \<Rightarrow> int \<Rightarrow> nat \<Rightarrow> 'z heap_scheme \<Rightarrow> (mux_value list \<times> 'z heap_scheme) option" where
  "mux_list_insert H list index val h = do {
     v \<leftarrow> deref val h;
     let (value, h1) = clone_value H v h;
     let len = length list;
     let idx = (if index < 0 then 0 else if nat index > len then len else nat index);
     Some (take idx list @ value # drop idx list, h1)
   }"

definition mux_list_to_string :: "hooks \<Rightarrow> mux_value list \<Rightarrow> string option" where
  "mux_list_to_string H list = c_string (list_display H list)"

definition mux_list_concat ::
  "hooks \<Rightarrow> mux_value list option \<Rightarrow> mux_value list option \<Rightarrow> 'z heap_scheme \<Rightarrow> mux_value list option \<times> 'z heap_scheme" where
  "mux_list_concat H a b h = (case (a, b) of
       (Some xs, Some ys) \<Rightarrow>
         let (result, h1) = clone_list H xs h; (others, h2) = clone_list H ys h1 in (Some (result @ others), h2)
     | _ \<Rightarrow> (None, h))"

definition mux_list_contains :: "hooks \<Rightarrow> mux_value list \<Rightarrow> nat \<Rightarrow> 'z heap_scheme \<Rightarrow> bool option" where
  "mux_list_contains H list val h =
     map_option (\<lambda>v. list_ex (\<lambda>item. value_eq (heap_hooks H h) item v) list) (deref val h)"

definition resolve_bound :: "int \<Rightarrow> int \<Rightarrow> int" where
  "resolve_bound len i = (let wrapped = if i < 0 then len + i else i in max 0 (min wrapped len))"

definition slice_range :: "mux_value list \<Rightarrow> nat \<Rightarrow> nat \<Rightarrow> mux_value list" where
  "slice_range xs from to = take (to - from) (drop from xs)"

definition mux_list_slice_value :: "hooks \<Rightarrow> nat \<Rightarrow> int \<Rightarrow> int \<Rightarrow> 'z heap_scheme \<Rightarrow> (nat \<times> 'z heap_scheme) option" where
  "mux_list_slice_value H list_val start stop h =
     (if list_val = 0 then Some (mux_rc_alloc (VList []) h)
      else map_option (\<lambda>v. case v of
          VList items \<Rightarrow>
            let len = int (length items);
                from = resolve_bound len start;
                to = resolve_bound len stop
            in if to \<le> from then mux_rc_alloc (VList []) h
               else let (slice, h1) = clone_list H (slice_range items (nat from) (nat to)) h
                    in mux_rc_alloc (VList slice) h1
        | _ \<Rightarrow> mux_rc_alloc (VList []) h) (deref list_val h))"

fun range_list :: "int \<Rightarrow> nat \<Rightarrow> mux_value list" where
  "range_list start 0 = []"
| "range_list start (Suc n) = VInt start # range_list (start + 1) n"

definition mux_range :: "int \<Rightarrow> int \<Rightarrow> mux_value list" where
  "mux_range start stop = range_list start (nat (stop - start))"

definition mux_new_list :: "mux_value list" where
  "mux_new_list = []"

definition mux_list_value :: "mux_value list \<Rightarrow> 'z heap_scheme \<Rightarrow> nat \<times> 'z heap_scheme" where
  "mux_list_value list h = mux_rc_alloc (VList list) h"

definition mux_value_get_list ::
  "hooks \<Rightarrow> nat \<Rightarrow> 'z heap_scheme \<Rightarrow> (mux_value list option \<times> 'z heap_scheme) option" where
  "mux_value_get_list H val h =
     (if val = 0 then Some (None, h)
      else map_option (\<lambda>v. case v of
          VList xs \<Rightarrow> (let (ys, h1) = clone_list H xs h in (Some ys, h1))
        | _ \<Rightarrow> (None, h)) (deref val h))"

definition mux_value_list_length :: "nat \<Rightarrow> 'z heap_scheme \<Rightarrow> int option" where
  "mux_value_list_length val h = map_option (\<lambda>v. case v of VList xs \<Rightarrow> int (length xs) | _ \<Rightarrow> 0) (deref val h)"

definition mux_value_list_get_value :: "hooks \<Rightarrow> nat \<Rightarrow> int \<Rightarrow> 'z heap_scheme \<Rightarrow> (nat \<times> 'z heap_scheme) option" where
  "mux_value_list_get_value H val index h = map_option (\<lambda>v. case v of
       VList xs \<Rightarrow>
         if index \<ge> 0 \<and> nat index < length xs
         then let (cloned, h1) = clone_value H (xs ! nat index) h in mux_rc_alloc cloned h1
         else (0, h)
     | _ \<Rightarrow> (0, h)) (deref val h)"

definition mux_value_list_slice :: "hooks \<Rightarrow> nat \<Rightarrow> int \<Rightarrow> int \<Rightarrow> 'z heap_scheme \<Rightarrow> (nat \<times> 'z heap_scheme) option" where
  "mux_value_list_slice H val start stop h = map_option (\<lambda>v. case v of
       VList xs \<Rightarrow>
         let s = min (nat (max start 0)) (length xs);
             e = min (nat (max stop 0)) (length xs)
         in if s < e then let (sliced, h1) = clone_list H (slice_range xs s e) h in mux_rc_alloc (VList sliced) h1
            else mux_rc_alloc (VList []) h
     | _ \<Rightarrow> mux_rc_alloc (VList []) h) (deref val h)"

definition mux_value_to_list ::
  "hooks \<Rightarrow> nat \<Rightarrow> 'z heap_scheme \<Rightarrow> (mux_value list option \<times> 'z heap_scheme) option" where
  "mux_value_to_list H val h =
     (if val = 0 then Some (None, h)
      else map_option (\<lambda>v. case clone_value H v h of
          (VList xs, h1) \<Rightarrow> (Some xs, h1)
        | (other, h1) \<Rightarrow> (None, drop_value other h1)) (deref val h))"

definition mux_free_list :: "mux_value list option \<Rightarrow> 'z heap_scheme \<Rightarrow> 'z heap_scheme" where
  "mux_free_list list h = (case list of None \<Rightarrow> h | Some xs \<Rightarrow> drop_value (VList xs) h)"

subsection \<open>Maps\<close>

type_synonym entries = "(mux_value \<times> mux_value) list"

definition with_map_mut ::
  "nat \<Rightarrow> (entries \<Rightarrow> 'z heap_scheme \<Rightarrow> 'r \<times> entries \<times> 'z heap_scheme) \<Rightarrow> 'z heap_scheme \<Rightarrow>
     ('r option \<times> 'z heap_scheme) option" where
  "with_map_mut = with_payload_mut as_map VMap []"

definition map_get :: "hooks \<Rightarrow> entries \<Rightarrow> mux_value \<Rightarrow> 'z heap_scheme \<Rightarrow> mux_value option" where
  "map_get H es key h = al_get (value_eq (heap_hooks H h)) es key"

text \<open>\<open>cloned()\<close> on a borrowed answer.\<close>

definition cloned :: "hooks \<Rightarrow> mux_value option \<Rightarrow> 'z heap_scheme \<Rightarrow> mux_value option \<times> 'z heap_scheme" where
  "cloned H opt h = (case opt of None \<Rightarrow> (None, h) | Some v \<Rightarrow> let (v', h1) = clone_value H v h in (Some v', h1))"

definition map_display :: "hooks \<Rightarrow> entries \<Rightarrow> string" where
  "map_display H es = ''{'' @ join '', '' (map (\<lambda>e. value_display H (fst e) @ '': '' @ value_display H (snd e)) es) @ ''}''"

definition mux_map_value :: "entries \<Rightarrow> 'z heap_scheme \<Rightarrow> nat \<times> 'z heap_scheme" where
  "mux_map_value m h = mux_rc_alloc (VMap m) h"

definition mux_map_get :: "hooks \<Rightarrow> entries \<Rightarrow> nat \<Rightarrow> 'z heap_scheme \<Rightarrow> (nat \<times> 'z heap_scheme) option" where
  "mux_map_get H m key h = do {
     k \<leftarrow> deref key h;
     let (opt, h1) = cloned H (map_get H m k h) h;
     Some (alloc_optional opt h1)
   }"

definition mux_map_put ::
  "hooks \<Rightarrow> entries \<Rightarrow> nat \<Rightarrow> nat \<Rightarrow> 'z heap_scheme \<Rightarrow> (entries \<times> 'z heap_scheme) option" where
  "mux_map_put H m key val h = do {
     k \<leftarrow> deref key h;
     (key', h1) \<leftarrow> snapshot_key H k h;
     v \<leftarrow> deref val h1;
     let (val', h2) = clone_value H v h1;
     Some (map_insert H m key' val' h2)
   }"

definition mux_map_put_value :: "hooks \<Rightarrow> nat \<Rightarrow> nat \<Rightarrow> nat \<Rightarrow> 'z heap_scheme \<Rightarrow> (unit \<times> 'z heap_scheme) option" where
  "mux_map_put_value H map_val key val h =
     (if map_val = 0 \<or> key = 0 \<or> val = 0 then Some ((), h)
      else do {
        k \<leftarrow> deref key h;
        (key', h1) \<leftarrow> snapshot_key H k h;
        v \<leftarrow> deref val h1;
        let (val', h2) = clone_value H v h1;
        (r, h3) \<leftarrow> with_map_mut map_val (\<lambda>map_data h. ((), map_insert H map_data key' val' h)) h2;
        Some ((), if r = None then drop_value val' (drop_value key' h3) else h3)
      })"

definition mux_map_remove ::
  "hooks \<Rightarrow> entries \<Rightarrow> nat \<Rightarrow> 'z heap_scheme \<Rightarrow> ((nat \<times> entries) \<times> 'z heap_scheme) option" where
  "mux_map_remove H m key h = do {
     k \<leftarrow> deref key h;
     let (opt, m', h1) = map_remove H m k h;
     let (p, h2) = alloc_optional opt h1;
     Some ((p, m'), h2)
   }"

definition mux_map_remove_value :: "hooks \<Rightarrow> nat \<Rightarrow> nat \<Rightarrow> 'z heap_scheme \<Rightarrow> (nat \<times> 'z heap_scheme) option" where
  "mux_map_remove_value H map_val key h = do {
     k \<leftarrow> deref key h;
     let (key', h1) = clone_value H k h;
     (opt, h2) \<leftarrow> with_map_mut map_val (\<lambda>map_data h. map_remove H map_data key' h) h1;
     let (p, h3) = alloc_optional (Option.bind opt id) h2;
     Some (p, drop_value key' h3)
   }"

definition mux_map_contains :: "hooks \<Rightarrow> entries option \<Rightarrow> nat \<Rightarrow> 'z heap_scheme \<Rightarrow> bool option" where
  "mux_map_contains H m key h = (case m of
       None \<Rightarrow> Some False
     | Some es \<Rightarrow> read_or False (\<lambda>k. map_get H es k h \<noteq> None) key h)"

definition mux_map_size :: "entries \<Rightarrow> int" where
  "mux_map_size m = int (length m)"

definition mux_map_is_empty :: "entries \<Rightarrow> bool" where
  "mux_map_is_empty m \<longleftrightarrow> length m = 0"

definition mux_map_to_string :: "hooks \<Rightarrow> entries \<Rightarrow> string option" where
  "mux_map_to_string H m = c_string (map_display H m)"

definition mux_map_keys :: "hooks \<Rightarrow> entries option \<Rightarrow> 'z heap_scheme \<Rightarrow> nat \<times> 'z heap_scheme" where
  "mux_map_keys H m h = (case m of
       None \<Rightarrow> mux_rc_alloc (VList []) h
     | Some es \<Rightarrow> let (ks, h1) = clone_list H (map fst es) h in mux_rc_alloc (VList ks) h1)"

definition mux_map_values :: "hooks \<Rightarrow> entries option \<Rightarrow> 'z heap_scheme \<Rightarrow> nat \<times> 'z heap_scheme" where
  "mux_map_values H m h = (case m of
       None \<Rightarrow> mux_rc_alloc (VList []) h
     | Some es \<Rightarrow> let (vs, h1) = clone_list H (map snd es) h in mux_rc_alloc (VList vs) h1)"

definition mux_map_pairs :: "hooks \<Rightarrow> entries option \<Rightarrow> 'z heap_scheme \<Rightarrow> nat \<times> 'z heap_scheme" where
  "mux_map_pairs H m h = (case m of
       None \<Rightarrow> mux_rc_alloc (VList []) h
     | Some es \<Rightarrow> let (es', h1) = clone_entries H es h
                  in mux_rc_alloc (VList (map (\<lambda>e. VTuple (fst e) (snd e)) es')) h1)"

fun map_extend :: "hooks \<Rightarrow> entries \<Rightarrow> entries \<Rightarrow> 'z heap_scheme \<Rightarrow> entries \<times> 'z heap_scheme" where
  "map_extend H es [] h = (es, h)"
| "map_extend H es ((k, v) # others) h = (let (es1, h1) = map_insert H es k v h in map_extend H es1 others h1)"

definition mux_map_merge ::
  "hooks \<Rightarrow> entries option \<Rightarrow> entries option \<Rightarrow> 'z heap_scheme \<Rightarrow> entries option \<times> 'z heap_scheme" where
  "mux_map_merge H a b h = (case (a, b) of
       (Some xs, Some ys) \<Rightarrow>
         let (result, h1) = clone_entries H xs h;
             (others, h2) = clone_entries H ys h1;
             (merged, h3) = map_extend H result others h2
         in (Some merged, h3)
     | _ \<Rightarrow> (None, h))"

definition mux_new_map :: entries where
  "mux_new_map = []"

definition mux_value_map_get_value :: "hooks \<Rightarrow> nat \<Rightarrow> nat \<Rightarrow> 'z heap_scheme \<Rightarrow> (nat \<times> 'z heap_scheme) option" where
  "mux_value_map_get_value H val key h =
     (if val = 0 \<or> key = 0 then Some (mux_rc_alloc (VOptional None) h)
      else do {
        m \<leftarrow> deref val h;
        k \<leftarrow> deref key h;
        let (opt, h1) = cloned H (case m of VMap es \<Rightarrow> map_get H es k h | _ \<Rightarrow> None) h;
        Some (alloc_optional opt h1)
      })"

definition mux_value_get_map :: "hooks \<Rightarrow> nat \<Rightarrow> 'z heap_scheme \<Rightarrow> (entries option \<times> 'z heap_scheme) option" where
  "mux_value_get_map H val h =
     (if val = 0 then Some (None, h)
      else map_option (\<lambda>v. case v of
          VMap es \<Rightarrow> (let (es', h1) = clone_entries H es h in (Some es', h1))
        | _ \<Rightarrow> (None, h)) (deref val h))"

definition mux_free_map :: "entries option \<Rightarrow> 'z heap_scheme \<Rightarrow> 'z heap_scheme" where
  "mux_free_map m h = (case m of None \<Rightarrow> h | Some es \<Rightarrow> drop_value (VMap es) h)"

subsection \<open>Sets\<close>

definition with_set_mut ::
  "nat \<Rightarrow> (mux_value list \<Rightarrow> 'z heap_scheme \<Rightarrow> 'r \<times> mux_value list \<times> 'z heap_scheme) \<Rightarrow> 'z heap_scheme \<Rightarrow>
     ('r option \<times> 'z heap_scheme) option" where
  "with_set_mut = with_payload_mut as_set VSet []"

definition set_contains :: "hooks \<Rightarrow> mux_value list \<Rightarrow> mux_value \<Rightarrow> 'z heap_scheme \<Rightarrow> bool" where
  "set_contains H xs v h \<longleftrightarrow> list_ex (\<lambda>x. value_eq (heap_hooks H h) x v) xs"

definition set_display :: "hooks \<Rightarrow> mux_value list \<Rightarrow> string" where
  "set_display H xs = ''{'' @ join '', '' (map (value_display H) xs) @ ''}''"

definition mux_set_value :: "mux_value list \<Rightarrow> 'z heap_scheme \<Rightarrow> nat \<times> 'z heap_scheme" where
  "mux_set_value s h = mux_rc_alloc (VSet s) h"

definition mux_set_add ::
  "hooks \<Rightarrow> mux_value list \<Rightarrow> nat \<Rightarrow> 'z heap_scheme \<Rightarrow> (mux_value list \<times> 'z heap_scheme) option" where
  "mux_set_add H s val h = do {
     v \<leftarrow> deref val h;
     (val', h1) \<leftarrow> snapshot_key H v h;
     Some (snd (set_insert H s val' h1))
   }"

definition mux_set_add_value :: "hooks \<Rightarrow> nat \<Rightarrow> nat \<Rightarrow> 'z heap_scheme \<Rightarrow> (unit \<times> 'z heap_scheme) option" where
  "mux_set_add_value H set_val val h = do {
     v \<leftarrow> deref val h;
     (value, h1) \<leftarrow> snapshot_key H v h;
     (r, h2) \<leftarrow> with_set_mut set_val (\<lambda>set_data h. ((), snd (set_insert H set_data value h))) h1;
     Some ((), if r = None then drop_value value h2 else h2)
   }"

definition mux_set_contains :: "hooks \<Rightarrow> mux_value list \<Rightarrow> nat \<Rightarrow> 'z heap_scheme \<Rightarrow> bool option" where
  "mux_set_contains H s val h = map_option (\<lambda>v. set_contains H s v h) (deref val h)"

definition mux_set_remove ::
  "hooks \<Rightarrow> mux_value list \<Rightarrow> nat \<Rightarrow> 'z heap_scheme \<Rightarrow> ((bool \<times> mux_value list) \<times> 'z heap_scheme) option" where
  "mux_set_remove H s val h = do {
     v \<leftarrow> deref val h;
     let (val', h1) = clone_value H v h;
     let (b, s', h2) = set_remove H s val' h1;
     Some ((b, s'), drop_value val' h2)
   }"

definition mux_set_remove_value :: "hooks \<Rightarrow> nat \<Rightarrow> nat \<Rightarrow> 'z heap_scheme \<Rightarrow> (bool \<times> 'z heap_scheme) option" where
  "mux_set_remove_value H set_val val h = do {
     v \<leftarrow> deref val h;
     let (value, h1) = clone_value H v h;
     (r, h2) \<leftarrow> with_set_mut set_val (\<lambda>set_data h. set_remove H set_data value h) h1;
     Some (case r of None \<Rightarrow> False | Some b \<Rightarrow> b, drop_value value h2)
   }"

definition mux_set_size :: "mux_value list \<Rightarrow> int" where
  "mux_set_size s = int (length s)"

definition mux_set_is_empty :: "mux_value list \<Rightarrow> bool" where
  "mux_set_is_empty s \<longleftrightarrow> length s = 0"

definition mux_set_to_string :: "hooks \<Rightarrow> mux_value list \<Rightarrow> string option" where
  "mux_set_to_string H s = c_string (set_display H s)"

definition mux_set_to_list :: "hooks \<Rightarrow> mux_value list option \<Rightarrow> 'z heap_scheme \<Rightarrow> nat \<times> 'z heap_scheme" where
  "mux_set_to_list H s h = (case s of
       None \<Rightarrow> mux_rc_alloc (VList []) h
     | Some xs \<Rightarrow> let (items, h1) = clone_list H xs h in mux_rc_alloc (VList items) h1)"

fun set_extend :: "hooks \<Rightarrow> mux_value list \<Rightarrow> mux_value list \<Rightarrow> 'z heap_scheme \<Rightarrow> mux_value list \<times> 'z heap_scheme" where
  "set_extend H xs [] h = (xs, h)"
| "set_extend H xs (v # others) h = (let (_, xs1, h1) = set_insert H xs v h in set_extend H xs1 others h1)"

definition mux_set_union ::
  "hooks \<Rightarrow> mux_value list option \<Rightarrow> mux_value list option \<Rightarrow> 'z heap_scheme \<Rightarrow> mux_value list option \<times> 'z heap_scheme" where
  "mux_set_union H a b h = (case (a, b) of
       (Some xs, Some ys) \<Rightarrow>
         let (result, h1) = clone_list H xs h;
             (others, h2) = clone_list H ys h1;
             (united, h3) = set_extend H result others h2
         in (Some united, h3)
     | _ \<Rightarrow> (None, h))"

definition mux_new_set :: "mux_value list" where
  "mux_new_set = []"

definition mux_value_get_set :: "hooks \<Rightarrow> nat \<Rightarrow> 'z heap_scheme \<Rightarrow> (mux_value list option \<times> 'z heap_scheme) option" where
  "mux_value_get_set H val h =
     (if val = 0 then Some (None, h)
      else map_option (\<lambda>v. case v of
          VSet xs \<Rightarrow> (let (ys, h1) = clone_list H xs h in (Some ys, h1))
        | _ \<Rightarrow> (None, h)) (deref val h))"

definition mux_free_set :: "mux_value list option \<Rightarrow> 'z heap_scheme \<Rightarrow> 'z heap_scheme" where
  "mux_free_set s h = (case s of None \<Rightarrow> h | Some xs \<Rightarrow> drop_value (VSet xs) h)"

end
