(* ===== verification/Container_Laws.thy ===== *)
theory Container_Laws
  imports Containers
begin

text \<open>
  Every entry point on values and containers is safe: called on references the caller owns and
  raw containers the caller holds, it never reads through a dead pointer, and afterwards counts,
  owners and handles agree again, the answer included.
\<close>

named_theorems safe_calls

declare objs.simps(1-3) [simp del]

lemma objs_empty [simp]: "objs (VList []) = []" "objs (VMap []) = []" "objs (VSet []) = []"
  by (simp_all add: objs.simps)

lemma set_objs_containers [simp]:
  "set (objs (VList xs)) = set_mset (objs_of xs)" "set (objs (VSet xs)) = set_mset (objs_of xs)"
  "set (objs (VMap es)) = set_mset (entry_objs es)"
  by (simp_all add: objs_of_def entry_objs_def objs.simps)

lemma alloc_list: "heap_inv h R (T + objs_of xs) \<Longrightarrow> yields (Some (mux_rc_alloc (VList xs) h)) (\<lambda>q. own q R) (\<lambda>_. T)"
  by (rule alloc_yields) simp

lemma alloc_set: "heap_inv h R (T + objs_of xs) \<Longrightarrow> yields (Some (mux_rc_alloc (VSet xs) h)) (\<lambda>q. own q R) (\<lambda>_. T)"
  by (rule alloc_yields) simp

lemma alloc_map: "heap_inv h R (T + entry_objs es) \<Longrightarrow> yields (Some (mux_rc_alloc (VMap es) h)) (\<lambda>q. own q R) (\<lambda>_. T)"
  by (rule alloc_yields) simp

subsection \<open>Single values\<close>

lemma clone_into_yields [safe_calls]:
  assumes "heap_inv h R T" "p \<in># R" "\<And>v. objs (wrap v) = objs v"
  shows "yields (clone_into H wrap p h) (\<lambda>q. own q R) (\<lambda>_. T)"
proof -
  obtain v where v: "deref p h = Some v" using deref_owned [OF assms(1,2)] by blast
  obtain v' h1 where c: "clone_value H v h = (v', h1)" by fastforce
  have "heap_inv h1 R (T + mset (objs (wrap v')))"
    using clone_inv_deref(1) [OF assms(1) v c] by (simp add: assms(3))
  then show ?thesis using alloc_yields by (simp add: clone_into_def v c)
qed

lemma deep_clone_into_yields [safe_calls]:
  assumes "heap_inv h R T" "p = 0 \<or> p \<in># R" "\<And>v. objs (wrap v) = objs v"
    and "\<And>v x. part v = Some x \<Longrightarrow> set (objs x) \<subseteq> set (objs v)"
  shows "yields (deep_clone_into H part wrap p h) (\<lambda>q. own q R) (\<lambda>_. T)"
proof (cases "p = 0")
  case True
  then show ?thesis using null_yields [OF assms(1)] by (simp add: deep_clone_into_def)
next
  case False
  then obtain v where v: "deref p h = Some v" using deref_owned [OF assms(1)] assms(2) by blast
  show ?thesis
  proof (cases "part v")
    case None
    then show ?thesis using False v null_yields [OF assms(1)] by (simp add: deep_clone_into_def)
  next
    case (Some x)
    have sub: "set (objs x) \<subseteq> set_mset (held h + T)" using assms(4) [OF Some] deref_objs [OF assms(1) v] by blast
    show ?thesis using False v Some
      by (auto simp: deep_clone_into_def assms(3) intro!: yields_bind [OF deep_clone_inv_part [OF assms(1) sub]] alloc_yields)
  qed
qed

lemma convert_yields [safe_calls]:
  assumes "heap_inv h R T" "p = 0 \<or> p \<in># R" "\<And>v x. f v = Some x \<Longrightarrow> objs x = []"
  shows "yields (convert f p h) (\<lambda>q. own q R) (\<lambda>_. T)"
proof (cases "p = 0")
  case True
  then show ?thesis using null_yields [OF assms(1)] by (simp add: convert_def)
next
  case False
  then obtain v where v: "deref p h = Some v" using deref_owned [OF assms(1)] assms(2) by blast
  then show ?thesis using False null_yields [OF assms(1)] alloc_plain [OF assms(1)] assms(3)
    by (auto simp: convert_def split: option.split)
qed

subsection \<open>Parts of containers\<close>

lemma objs_nth: "i < length xs \<Longrightarrow> set (objs (xs ! i)) \<subseteq> set_mset (objs_of xs)"
  by (auto simp: objs_of_def intro: nth_mem)

lemma objs_of_sub: "set xs \<subseteq> set ys \<Longrightarrow> set_mset (objs_of xs) \<subseteq> set_mset (objs_of ys)"
  by (auto simp: objs_of_def)

lemma objs_of_map_clone [simp]: "objs_of (map (value_clone H) xs) = objs_of xs"
  by (simp add: objs_of_def comp_def)

lemma clone_list_inv:
  assumes "heap_inv h R T" "set_mset (objs_of xs) \<subseteq> set_mset (held h + T)" "clone_list H xs h = (ys, h')"
  shows "heap_inv h' R (T + objs_of ys)" "objs_of ys = objs_of xs" "hp_blocks h' = hp_blocks h"
proof -
  have c: "clone_value H (VList xs) h = (VList ys, h')"
    using assms(3) by (simp add: clone_value_def clone_list_def objs.simps)
  have "set (objs (VList xs)) \<subseteq> set_mset (held h + T)" using assms(2) by simp
  from clone_inv_part [OF assms(1) this c]
  show "hp_blocks h' = hp_blocks h" by simp
  show ys: "objs_of ys = objs_of xs" using assms(3) by (auto simp: clone_list_def)
  show "heap_inv h' R (T + objs_of ys)"
    using clone_inv_part(1,2) [OF assms(1) _ c] assms(2) ys by simp
qed

lemma clone_entries_inv:
  assumes "heap_inv h R T" "set_mset (entry_objs es) \<subseteq> set_mset (held h + T)" "clone_entries H es h = (es', h')"
  shows "heap_inv h' R (T + entry_objs es')" "entry_objs es' = entry_objs es" "hp_blocks h' = hp_blocks h"
proof -
  have c: "clone_value H (VMap es) h = (VMap es', h')"
    using assms(3) by (simp add: clone_value_def clone_entries_def objs.simps)
  have "set (objs (VMap es)) \<subseteq> set_mset (held h + T)" using assms(2) by simp
  from clone_inv_part [OF assms(1) this c]
  show "hp_blocks h' = hp_blocks h" by simp
  show es': "entry_objs es' = entry_objs es" using assms(3) by (auto simp: clone_entries_def entry_objs_def comp_def)
  show "heap_inv h' R (T + entry_objs es')"
    using clone_inv_part(1,2) [OF assms(1) _ c] assms(2) es' by simp
qed

lemma clone_alloc:
  assumes "heap_inv h R T" "set (objs v) \<subseteq> set_mset (held h + T)" "\<And>v. objs (wrap v) = objs v"
  shows "yields (Some (let (v', h1) = clone_value H v h in mux_rc_alloc (wrap v') h1)) (\<lambda>q. own q R) (\<lambda>_. T)"
proof -
  obtain v' h1 where c: "clone_value H v h = (v', h1)" by fastforce
  then show ?thesis using clone_inv_part(1) [OF assms(1,2) c] by (simp add: alloc_yields assms(3))
qed

lemma clone_list_alloc:
  assumes "heap_inv h R T" "set_mset (objs_of xs) \<subseteq> set_mset (held h + T)"
  shows "yields (Some (let (ys, h1) = clone_list H xs h in mux_rc_alloc (VList ys) h1)) (\<lambda>q. own q R) (\<lambda>_. T)"
proof -
  obtain ys h1 where c: "clone_list H xs h = (ys, h1)" by fastforce
  then show ?thesis using clone_list_inv(1) [OF assms c] by (simp add: alloc_list)
qed

text \<open>The start of every call that stores a clone of a value.\<close>

lemma clone_arg:
  assumes "heap_inv h R T" "p \<in># R"
  obtains v v' h1 where "deref p h = Some v" "clone_value H v h = (v', h1)" "heap_inv h1 R (T + mset (objs v'))"
proof -
  obtain v where v: "deref p h = Some v" using deref_owned [OF assms] by blast
  obtain v' h1 where c: "clone_value H v h = (v', h1)" by fastforce
  show thesis using that v c clone_inv_deref(1) [OF assms(1) v c] by blast
qed

lemma snapshot_arg:
  assumes "heap_inv h R T" "p \<in># R"
  obtains v v' h1 where "deref p h = Some v" "snapshot_key H v h = Some (v', h1)" "heap_inv h1 R (T + mset (objs v'))"
proof -
  obtain v where v: "deref p h = Some v" using deref_owned [OF assms] by blast
  show thesis
    by (rule yieldsE [OF deep_clone_inv_part [OF assms(1) deref_objs [OF assms(1) v], of H]])
      (use that v in \<open>simp add: snapshot_key_def\<close>)
qed

lemma as_container [simp]:
  "as_list v = Some xs \<longleftrightarrow> v = VList xs" "as_map v = Some es \<longleftrightarrow> v = VMap es" "as_set v = Some xs \<longleftrightarrow> v = VSet xs"
  by (auto simp: as_list_def as_map_def as_set_def split: mux_value.splits)

lemma alloc_optional_yields:
  assumes "heap_inv h R (T + (case opt of None \<Rightarrow> {#} | Some v \<Rightarrow> mset (objs v)))"
  shows "yields (Some (alloc_optional opt h)) (\<lambda>q. own q R) (\<lambda>_. T)"
  using alloc_yields [of h R T "VOptional opt"] assms by (cases opt) (simp_all add: alloc_optional_def)

end
