(* ===== verification/Container_Safety.thy ===== *)
theory Container_Safety
  imports Container_Laws
begin

text \<open>Safety of the mutators of lists, maps and sets, in place and on raw containers.\<close>

definition opt_objs :: "mux_value option \<Rightarrow> object_ref multiset" where
  "opt_objs opt = (case opt of None \<Rightarrow> {#} | Some v \<Rightarrow> mset (objs v))"

lemma opt_objs_simps [simp]: "opt_objs None = {#}" "opt_objs (Some v) = mset (objs v)"
  by (simp_all add: opt_objs_def)

lemma alloc_opt: "heap_inv h R (T + opt_objs opt) \<Longrightarrow> yields (Some (alloc_optional opt h)) (\<lambda>q. own q R) (\<lambda>_. T)"
  using alloc_optional_yields [of h R T opt] by (simp add: opt_objs_def)

subsection \<open>Running a mutator\<close>

lemma with_list_mut_yields:
  assumes "heap_inv h R T" "p = 0 \<or> p \<in># R" "T' None = T"
    and "\<And>xs h1. heap_inv h1 R (T + objs_of xs) \<Longrightarrow>
      \<exists>r xs' h2. f xs h1 = (r, xs', h2) \<and> heap_inv h2 R (T' (Some r) + objs_of xs') \<and> hp_blocks h2 = hp_blocks h1"
  shows "yields (with_list_mut p f h) (\<lambda>_. R) T'"
  unfolding with_list_mut_def
  by (rule with_payload_mut_yields [OF assms(1,2)]) (use assms(3,4) in simp_all)

lemma with_set_mut_yields:
  assumes "heap_inv h R T" "p = 0 \<or> p \<in># R" "T' None = T"
    and "\<And>xs h1. heap_inv h1 R (T + objs_of xs) \<Longrightarrow>
      \<exists>r xs' h2. f xs h1 = (r, xs', h2) \<and> heap_inv h2 R (T' (Some r) + objs_of xs') \<and> hp_blocks h2 = hp_blocks h1"
  shows "yields (with_set_mut p f h) (\<lambda>_. R) T'"
  unfolding with_set_mut_def
  by (rule with_payload_mut_yields [OF assms(1,2)]) (use assms(3,4) in simp_all)

lemma with_map_mut_yields:
  assumes "heap_inv h R T" "p = 0 \<or> p \<in># R" "T' None = T"
    and "\<And>es h1. heap_inv h1 R (T + entry_objs es) \<Longrightarrow>
      \<exists>r es' h2. f es h1 = (r, es', h2) \<and> heap_inv h2 R (T' (Some r) + entry_objs es') \<and> hp_blocks h2 = hp_blocks h1"
  shows "yields (with_map_mut p f h) (\<lambda>_. R) T'"
  unfolding with_map_mut_def
  by (rule with_payload_mut_yields [OF assms(1,2)]) (use assms(3,4) in simp_all)

text \<open>What a mutator captured is dropped when it did not run.\<close>

lemma store_or_drop:
  assumes "yields m (\<lambda>_. R) (\<lambda>r. if r = None then T + mset (objs v) else T)"
  shows "yields (Option.bind m (\<lambda>(r, h). Some ((), if r = None then drop_value v h else h))) (\<lambda>_. R) (\<lambda>_. T)"
  by (rule yields_bind [OF assms]) (auto simp: yields_def split: if_splits intro: drop_inv)

subsection \<open>Lists\<close>

lemma objs_of_update:
  "i < length xs \<Longrightarrow> objs_of (xs[i := v]) + mset (objs (xs ! i)) = objs_of xs + mset (objs v)"
proof (induction xs arbitrary: i)
  case (Cons x xs)
  then show ?case by (cases i) (auto simp: ac_simps)
qed simp

lemma push_until_facts:
  "objs fill = [] \<Longrightarrow> objs_of (push_until fill target xs) = objs_of xs"
  "target < length (push_until fill target xs)"
  by (induction fill target xs rule: push_until.induct) (subst push_until.simps; simp)+

lemma extend_facts [simp]:
  "objs_of (extend_to_index xs i) = objs_of xs" "i < length (extend_to_index xs i)"
  unfolding extend_to_index_def
  by (rule push_until_facts(1), simp add: default_fill_value_def split: list.split mux_value.split)
    (rule push_until_facts(2))

lemma replace_at_inv:
  assumes "heap_inv h R (T + objs_of xs + mset (objs v))" "i < length xs" "replace_at xs i v h = (xs', h')"
  shows "heap_inv h' R (T + objs_of xs')" "hp_blocks h' = hp_blocks h"
proof -
  have "T + objs_of xs + mset (objs v) = T + objs_of (xs[i := v]) + mset (objs (xs ! i))"
    using objs_of_update [OF assms(2), of v] by (simp add: add.assoc)
  then have "heap_inv h R (T + objs_of (xs[i := v]) + mset (objs (xs ! i)))" using assms(1) by metis
  then show "heap_inv h' R (T + objs_of xs')" "hp_blocks h' = hp_blocks h"
    using drop_inv assms(3) by (auto simp: replace_at_def)
qed

lemma list_pop_objs:
  "list_pop_back xs = (opt, rest) \<Longrightarrow> objs_of xs = objs_of rest + opt_objs opt"
  "list_pop_front xs = (opt, rest) \<Longrightarrow> objs_of xs = objs_of rest + opt_objs opt"
proof -
  show "list_pop_back xs = (opt, rest) \<Longrightarrow> objs_of xs = objs_of rest + opt_objs opt"
    by (cases xs rule: rev_cases) (auto simp: list_pop_back_def)
  show "list_pop_front xs = (opt, rest) \<Longrightarrow> objs_of xs = objs_of rest + opt_objs opt"
    by (auto simp: list_pop_front_def split: list.splits)
qed

lemma push_in_place:
  assumes "heap_inv h R T" "p = 0 \<or> p \<in># R" "q \<in># R" "\<And>xs v. objs_of (add xs v) = objs_of xs + mset (objs v)"
  shows "yields (do {
     v \<leftarrow> deref q h;
     let (value, h1) = clone_value H v h;
     (r, h2) \<leftarrow> with_list_mut p (\<lambda>list_data h. ((), add list_data value, h)) h1;
     Some ((), if r = None then drop_value value h2 else h2) }) (\<lambda>_. R) (\<lambda>_. T)"
proof -
  obtain v w h1 where a: "deref q h = Some v" "clone_value H v h = (w, h1)"
    "heap_inv h1 R (T + mset (objs w))"
    using clone_arg [OF assms(1,3), of H] by metis
  show ?thesis unfolding a(1,2) bind.simps Let_def prod.case
    by (rule store_or_drop, rule with_list_mut_yields [OF a(3) assms(2)]) (auto simp: assms(4) ac_simps)
qed

lemma mux_list_push_back_value_yields [safe_calls]:
  "heap_inv h R T \<Longrightarrow> p = 0 \<or> p \<in># R \<Longrightarrow> q \<in># R \<Longrightarrow> yields (mux_list_push_back_value H p q h) (\<lambda>_. R) (\<lambda>_. T)"
  unfolding mux_list_push_back_value_def by (rule push_in_place) simp_all

lemma mux_list_push_value_yields [safe_calls]:
  "heap_inv h R T \<Longrightarrow> p = 0 \<or> p \<in># R \<Longrightarrow> q \<in># R \<Longrightarrow> yields (mux_list_push_value H p q h) (\<lambda>_. R) (\<lambda>_. T)"
  unfolding mux_list_push_value_def by (rule push_in_place) simp_all

lemma pop_in_place:
  assumes "heap_inv h R T" "p = 0 \<or> p \<in># R" "\<And>xs opt rest. pop xs = (opt, rest) \<Longrightarrow> objs_of xs = objs_of rest + opt_objs opt"
  shows "yields (do {
     (opt, h1) \<leftarrow> with_list_mut p (\<lambda>list_data h. let (r, rest) = pop list_data in (r, rest, h)) h;
     Some (alloc_optional (Option.bind opt id) h1) }) (\<lambda>q. own q R) (\<lambda>_. T)"
proof (rule yields_bind)
  show "yields (with_list_mut p (\<lambda>list_data h. let (r, rest) = pop list_data in (r, rest, h)) h)
    (\<lambda>_. R) (\<lambda>opt. T + opt_objs (Option.bind opt id))"
    by (rule with_list_mut_yields [OF assms(1,2)]) (auto simp: ac_simps dest: assms(3) split: prod.splits)
qed (auto intro: alloc_opt)

lemma mux_list_pop_back_value_yields [safe_calls]:
  "heap_inv h R T \<Longrightarrow> p = 0 \<or> p \<in># R \<Longrightarrow> yields (mux_list_pop_back_value p h) (\<lambda>q. own q R) (\<lambda>_. T)"
  unfolding mux_list_pop_back_value_def by (rule pop_in_place) (simp_all add: list_pop_objs(1))

lemma mux_list_pop_value_yields [safe_calls]:
  "heap_inv h R T \<Longrightarrow> p = 0 \<or> p \<in># R \<Longrightarrow> yields (mux_list_pop_value p h) (\<lambda>q. own q R) (\<lambda>_. T)"
  unfolding mux_list_pop_value_def by (rule pop_in_place) (simp_all add: list_pop_objs(2))

lemma assign_at_inv:
  assumes "heap_inv h R (T + mset (objs v) + objs_of xs)"
  shows "\<exists>r xs' h'. assign_at i v xs h = (r, xs', h') \<and> heap_inv h' R (T + objs_of xs') \<and> hp_blocks h' = hp_blocks h"
proof (cases "normalized_index i (length xs)")
  case None
  have "heap_inv h R (T + objs_of xs + mset (objs v))" using assms by (simp add: ac_simps)
  then show ?thesis using None drop_inv by (auto simp: assign_at_def)
next
  case (Some k)
  let ?l = "if k \<ge> length xs then extend_to_index xs k else xs"
  have i: "heap_inv h R (T + objs_of ?l + mset (objs v))" using assms by (simp add: ac_simps)
  have k: "k < length ?l" by simp
  obtain xs' h' where r: "replace_at ?l k v h = (xs', h')" by fastforce
  show ?thesis using replace_at_inv [OF i k r] r Some by (auto simp: assign_at_def)
qed

lemma mux_list_set_value_yields [safe_calls]:
  assumes "heap_inv h R T" "p = 0 \<or> p \<in># R" "q = 0 \<or> q \<in># R"
  shows "yields (mux_list_set_value H p i q h) (\<lambda>_. R) (\<lambda>_. T)"
proof (cases "p = 0 \<or> q = 0")
  case True
  then show ?thesis using assms(1) by (auto simp: mux_list_set_value_def yields_def)
next
  case False
  then have q: "q \<in># R" using assms(3) by simp
  obtain v w h1 where a: "deref q h = Some v" "clone_value H v h = (w, h1)"
    "heap_inv h1 R (T + mset (objs w))"
    using clone_arg [OF assms(1) q, of H] by metis
  have "yields (with_list_mut p (assign_at i w) h1) (\<lambda>_. R) (\<lambda>r. if r = None then T + mset (objs w) else T)"
    by (rule with_list_mut_yields [OF a(3) assms(2)]) (use assign_at_inv in auto)
  from store_or_drop [OF this] show ?thesis using False a(1,2) by (simp add: mux_list_set_value_def)
qed

text \<open>Raw lists. Reading calls need the list among what the caller holds.\<close>

lemma raw_push:
  assumes "heap_inv h R (T + objs_of xs)" "q \<in># R" "\<And>v. objs_of (add v) = objs_of xs + mset (objs v)"
  shows "yields (do { v \<leftarrow> deref q h; let (w, h1) = clone_value H v h; Some (add w, h1) }) (\<lambda>_. R) (\<lambda>xs'. T + objs_of xs')"
proof -
  obtain v w h1 where a: "deref q h = Some v" "clone_value H v h = (w, h1)"
    "heap_inv h1 R (T + objs_of xs + mset (objs w))"
    using clone_arg [OF assms(1,2), of H] by metis
  then show ?thesis using assms(3) by (simp add: yields_def add.assoc)
qed

lemma mux_list_push_back_yields [safe_calls]:
  "heap_inv h R (T + objs_of xs) \<Longrightarrow> q \<in># R \<Longrightarrow> yields (mux_list_push_back H xs q h) (\<lambda>_. R) (\<lambda>xs'. T + objs_of xs')"
  unfolding mux_list_push_back_def by (rule raw_push) (simp_all add: list_push_back_def)

lemma mux_list_push_yields [safe_calls]:
  "heap_inv h R (T + objs_of xs) \<Longrightarrow> q \<in># R \<Longrightarrow> yields (mux_list_push H xs q h) (\<lambda>_. R) (\<lambda>xs'. T + objs_of xs')"
  unfolding mux_list_push_def by (rule raw_push) (simp_all add: list_push_back_def)

lemma objs_take_drop [simp]: "objs_of (take n xs) + objs_of (drop n xs) = objs_of xs"
  using objs_of_simps(3) [of "take n xs" "drop n xs"] by simp

lemma mux_list_insert_yields [safe_calls]:
  "heap_inv h R (T + objs_of xs) \<Longrightarrow> q \<in># R \<Longrightarrow> yields (mux_list_insert H xs i q h) (\<lambda>_. R) (\<lambda>xs'. T + objs_of xs')"
  unfolding mux_list_insert_def Let_def
  by (rule raw_push [unfolded Let_def, where add = "\<lambda>v. take n xs @ v # drop n xs" for n]) simp_all

lemma mux_list_pop_back_yields [safe_calls]:
  assumes "heap_inv h R (T + objs_of xs)"
  shows "yields (Some (mux_list_pop_back xs h)) (\<lambda>r. own (fst r) R) (\<lambda>r. T + objs_of (snd r))"
proof -
  obtain opt rest where p: "list_pop_back xs = (opt, rest)" by fastforce
  have "heap_inv h R (T + objs_of rest + opt_objs opt)" using assms list_pop_objs(1) [OF p] by (simp add: add.assoc)
  from alloc_opt [OF this] show ?thesis using p by (auto simp: mux_list_pop_back_def yields_def split: prod.splits)
qed

lemma mux_list_pop_yields [safe_calls]:
  assumes "heap_inv h R (T + objs_of xs)"
  shows "yields (Some (mux_list_pop xs h)) (\<lambda>r. own (fst r) R) (\<lambda>r. T + objs_of (snd r))"
proof -
  obtain opt rest where p: "list_pop_front xs = (opt, rest)" by fastforce
  have "heap_inv h R (T + objs_of rest + opt_objs opt)" using assms list_pop_objs(2) [OF p] by (simp add: add.assoc)
  from alloc_opt [OF this] show ?thesis using p by (auto simp: mux_list_pop_def yields_def split: prod.splits)
qed

lemma mux_list_set_yields [safe_calls]:
  assumes "heap_inv h R (T + objs_of xs)" "q \<in># R"
  shows "yields (mux_list_set H xs i q h) (\<lambda>_. R) (\<lambda>xs'. T + objs_of xs')"
proof -
  obtain v w h1 where a: "deref q h = Some v" "clone_value H v h = (w, h1)"
    "heap_inv h1 R (T + objs_of xs + mset (objs w))"
    using clone_arg [OF assms, of H] by metis
  obtain xs' h2 where r: "replace_at xs (nat i) w h1 = (xs', h2)" by fastforce
  have "nat i < length xs" if "i \<ge> 0" "i < list_length xs" using that by (simp add: list_length_def)
  then show ?thesis using a(1,2) r replace_at_inv(1) [OF a(3) _ r] drop_inv [OF a(3)]
    by (auto simp: mux_list_set_def yields_def)
qed

lemma held_list:
  assumes "heap_inv h R T" "deref p h = Some (VList xs)"
  shows "set_mset (objs_of xs) \<subseteq> set_mset (held h + T)"
  using deref_objs [OF assms] by simp

lemma raw_list: "objs_of xs \<subseteq># T \<Longrightarrow> set_mset (objs_of xs) \<subseteq> set_mset (held h + T)"
  using set_mset_mono by fastforce

lemma objs_nth_sub: "i < length xs \<Longrightarrow> set_mset (objs_of xs) \<subseteq> X \<Longrightarrow> set (objs (xs ! i)) \<subseteq> X"
  using objs_nth by blast

lemma mux_list_get_yields [safe_calls]:
  assumes "heap_inv h R T" "objs_of xs \<subseteq># T"
  shows "yields (Some (mux_list_get H xs i h)) (\<lambda>q. own q R) (\<lambda>_. T)"
    "yields (Some (mux_list_get_value H (Some xs) i h)) (\<lambda>q. own q R) (\<lambda>_. T)"
proof -
  have "yields (Some (let (v, h1) = clone_value H (xs ! nat i) h in mux_rc_alloc (wrap v) h1)) (\<lambda>q. own q R) (\<lambda>_. T)"
    if "\<not> (i < 0 \<or> i \<ge> list_length xs)" "\<And>v. objs (wrap v) = objs v" for wrap
    using that by (intro clone_alloc [OF assms(1)] objs_nth_sub [OF _ raw_list [OF assms(2)]])
      (auto simp: list_length_def)
  from this [of "\<lambda>v. VOptional (Some v)"] this [of "\<lambda>v. v"]
  show "yields (Some (mux_list_get H xs i h)) (\<lambda>q. own q R) (\<lambda>_. T)"
    "yields (Some (mux_list_get_value H (Some xs) i h)) (\<lambda>q. own q R) (\<lambda>_. T)"
    using alloc_plain [OF assms(1), of "VOptional None"] null_yields [OF assms(1)]
    by (auto simp: mux_list_get_def mux_list_get_value_def)
qed

lemma mux_list_concat_yields [safe_calls]:
  assumes "heap_inv h R T" "objs_of xs \<subseteq># T" "objs_of ys \<subseteq># T" "mux_list_concat H (Some xs) (Some ys) h = (out, h')"
  shows "\<exists>zs. out = Some zs \<and> heap_inv h' R (T + objs_of zs)"
proof -
  obtain a h1 where a: "clone_list H xs h = (a, h1)" by fastforce
  obtain b h2 where b: "clone_list H ys h1 = (b, h2)" by fastforce
  note i1 = clone_list_inv [OF assms(1) raw_list [OF assms(2)] a]
  have "set_mset (objs_of ys) \<subseteq> set_mset (held h1 + (T + objs_of a))"
    using raw_list [OF assms(3), of h1] by auto
  from clone_list_inv(1) [OF i1(1) this b] show ?thesis
    using assms(4) a b by (auto simp: mux_list_concat_def add.assoc)
qed

lemma slice_sub: "set (slice_range xs a b) \<subseteq> set xs"
  unfolding slice_range_def by (meson in_set_dropD in_set_takeD subsetI)

lemma slice_alloc:
  assumes "heap_inv h R T" "deref p h = Some (VList xs)"
  shows "yields (Some (let (ys, h1) = clone_list H (slice_range xs a b) h in mux_rc_alloc (VList ys) h1)) (\<lambda>q. own q R) (\<lambda>_. T)"
  by (rule clone_list_alloc [OF assms(1)])
    (use objs_of_sub [OF slice_sub] held_list [OF assms] in blast)

lemma mux_list_slice_value_yields [safe_calls]:
  assumes "heap_inv h R T" "p = 0 \<or> p \<in># R"
  shows "yields (mux_list_slice_value H p a b h) (\<lambda>q. own q R) (\<lambda>_. T)"
proof (cases "p = 0")
  case True
  then show ?thesis using alloc_plain [OF assms(1), of "VList []"] by (simp add: mux_list_slice_value_def)
next
  case False
  then obtain v where v: "deref p h = Some v" using deref_owned [OF assms(1)] assms(2) by blast
  show ?thesis using False v slice_alloc [OF assms(1), of p _ H] alloc_plain [OF assms(1), of "VList []"]
    by (cases v) (simp_all add: mux_list_slice_value_def Let_def)
qed

lemma mux_value_list_slice_yields [safe_calls]:
  assumes "heap_inv h R T" "p \<in># R"
  shows "yields (mux_value_list_slice H p a b h) (\<lambda>q. own q R) (\<lambda>_. T)"
proof -
  obtain v where v: "deref p h = Some v" using deref_owned [OF assms] by blast
  show ?thesis using v slice_alloc [OF assms(1), of p _ H] alloc_plain [OF assms(1), of "VList []"]
    by (cases v) (simp_all add: mux_value_list_slice_def Let_def)
qed

lemma mux_value_list_get_value_yields [safe_calls]:
  assumes "heap_inv h R T" "p \<in># R"
  shows "yields (mux_value_list_get_value H p i h) (\<lambda>q. own q R) (\<lambda>_. T)"
proof -
  obtain v where v: "deref p h = Some v" using deref_owned [OF assms] by blast
  have "yields (Some (let (w, h1) = clone_value H (xs ! nat i) h in mux_rc_alloc w h1)) (\<lambda>q. own q R) (\<lambda>_. T)"
    if "v = VList xs" "nat i < length xs" for xs
    using clone_alloc [OF assms(1) objs_nth_sub [OF that(2)], where wrap = "\<lambda>v. v"] held_list [OF assms(1)] v that(1) by simp
  then show ?thesis using v null_yields [OF assms(1)]
    by (cases v) (simp_all add: mux_value_list_get_value_def)
qed

subsection \<open>Maps\<close>

lemma entry_objs_remove:
  "entry_objs es = entry_objs (al_remove eq es k) +
     (case find (\<lambda>e. eq (fst e) k) es of None \<Rightarrow> {#} | Some e \<Rightarrow> mset (objs (fst e)) + mset (objs (snd e)))"
  "al_get eq es k = map_option snd (find (\<lambda>e. eq (fst e) k) es)"
  by (induction eq es k rule: al_remove.induct) (auto simp: ac_simps split: option.splits)

lemma map_remove_inv:
  assumes "heap_inv h R (T + entry_objs es)" "map_remove H es k h = (opt, es', h')"
  shows "heap_inv h' R (T + opt_objs opt + entry_objs es')" "hp_blocks h' = hp_blocks h"
proof -
  let ?eq = "value_eq (heap_hooks H h)"
  note r = entry_objs_remove(1) [of es ?eq k] entry_objs_remove(2) [of ?eq es k]
  have "heap_inv h' R (T + opt_objs opt + entry_objs es') \<and> hp_blocks h' = hp_blocks h"
  proof (cases "find (\<lambda>e. ?eq (fst e) k) es")
    case None
    then show ?thesis using assms r by (auto simp: map_remove_def Let_def)
  next
    case (Some e)
    have "opt = Some (snd e)" "es' = al_remove ?eq es k" using assms(2) r(2) Some by (auto simp: map_remove_def Let_def)
    then have "T + entry_objs es = T + opt_objs opt + entry_objs es' + mset (objs (fst e))"
      using r(1) Some by (simp add: ac_simps)
    then have "heap_inv h R (T + opt_objs opt + entry_objs es' + mset (objs (fst e)))" using assms(1) by metis
    from drop_inv [OF this] show ?thesis using Some assms(2) by (auto simp: map_remove_def Let_def)
  qed
  then show "heap_inv h' R (T + opt_objs opt + entry_objs es')" "hp_blocks h' = hp_blocks h" by simp_all
qed

lemma deref_cong: "hp_blocks h' = hp_blocks h \<Longrightarrow> deref p h' = deref p h"
  by (simp add: deref_def)

text \<open>The two clones a map insertion takes.\<close>

lemma entry_args:
  assumes "heap_inv h R T" "p \<in># R" "q \<in># R"
  obtains k k' h1 v v' h2 where "deref p h = Some k" "snapshot_key H k h = Some (k', h1)"
    "deref q h1 = Some v" "clone_value H v h1 = (v', h2)" "heap_inv h2 R (T + mset (objs k') + mset (objs v'))"
proof -
  obtain k k' h1 where k: "deref p h = Some k" "snapshot_key H k h = Some (k', h1)" "heap_inv h1 R (T + mset (objs k'))"
    using snapshot_arg [OF assms(1,2), of H] by metis
  obtain v v' h2 where "deref q h1 = Some v" "clone_value H v h1 = (v', h2)"
    "heap_inv h2 R (T + mset (objs k') + mset (objs v'))"
    using clone_arg [OF k(3) assms(3), of H] by metis
  then show thesis using that k by blast
qed

lemma mux_map_put_yields [safe_calls]:
  assumes "heap_inv h R (T + entry_objs es)" "p \<in># R" "q \<in># R"
  shows "yields (mux_map_put H es p q h) (\<lambda>_. R) (\<lambda>es'. T + entry_objs es')"
proof -
  obtain k k' h1 v v' h2 where a: "deref p h = Some k" "snapshot_key H k h = Some (k', h1)"
    "deref q h1 = Some v" "clone_value H v h1 = (v', h2)"
    "heap_inv h2 R (T + entry_objs es + mset (objs k') + mset (objs v'))"
    using entry_args [OF assms, of H] by metis
  obtain es' h3 where m: "map_insert H es k' v' h2 = (es', h3)" by fastforce
  show ?thesis using map_insert_inv(1) [OF a(5) m] a(1-4) m by (simp add: mux_map_put_def yields_def)
qed

lemma mux_map_put_value_yields [safe_calls]:
  assumes "heap_inv h R T" "m = 0 \<or> m \<in># R" "p = 0 \<or> p \<in># R" "q = 0 \<or> q \<in># R"
  shows "yields (mux_map_put_value H m p q h) (\<lambda>_. R) (\<lambda>_. T)"
proof (cases "m = 0 \<or> p = 0 \<or> q = 0")
  case True
  then show ?thesis using assms(1) by (auto simp: mux_map_put_value_def yields_def)
next
  case False
  then have pq: "p \<in># R" "q \<in># R" using assms(3,4) by simp_all
  obtain k k' h1 v v' h2 where a: "deref p h = Some k" "snapshot_key H k h = Some (k', h1)"
    "deref q h1 = Some v" "clone_value H v h1 = (v', h2)" "heap_inv h2 R (T + mset (objs k') + mset (objs v'))"
    using entry_args [OF assms(1) pq, of H] by metis
  have "yields (with_map_mut m (\<lambda>map_data h. ((), map_insert H map_data k' v' h)) h2)
    (\<lambda>_. R) (\<lambda>r. if r = None then T + mset (objs k') + mset (objs v') else T)"
  proof (rule with_map_mut_yields [OF a(5) assms(2)])
    fix es and h3 :: "'a heap_scheme"
    assume i: "heap_inv h3 R (T + mset (objs k') + mset (objs v') + entry_objs es)"
    obtain es' h4 where m: "map_insert H es k' v' h3 = (es', h4)" by fastforce
    have "heap_inv h3 R (T + entry_objs es + mset (objs k') + mset (objs v'))" using i by (simp add: ac_simps)
    from map_insert_inv [OF this m] m show "\<exists>r es' h4. ((), map_insert H es k' v' h3) = (r, es', h4) \<and>
        heap_inv h4 R ((if Some r = None then T + mset (objs k') + mset (objs v') else T) + entry_objs es') \<and>
        hp_blocks h4 = hp_blocks h3" by simp
  qed simp
  then show ?thesis using False a(1-4)
    by (auto simp: mux_map_put_value_def intro!: yields_bind yields_return drop_inv split: if_splits)
      (simp add: ac_simps)
qed

lemma mux_map_remove_yields [safe_calls]:
  assumes "heap_inv h R (T + entry_objs es)" "q \<in># R"
  shows "yields (mux_map_remove H es q h) (\<lambda>r. own (fst r) R) (\<lambda>r. T + entry_objs (snd r))"
proof -
  obtain k where k: "deref q h = Some k" using deref_owned [OF assms] by blast
  obtain opt es' h1 where m: "map_remove H es k h = (opt, es', h1)" by (metis prod_cases3)
  have "heap_inv h1 R (T + entry_objs es' + opt_objs opt)" using map_remove_inv(1) [OF assms(1) m] by (simp add: ac_simps)
  from alloc_opt [OF this] show ?thesis using k m by (auto simp: mux_map_remove_def yields_def split: prod.splits)
qed

lemma mux_map_remove_value_yields [safe_calls]:
  assumes "heap_inv h R T" "m = 0 \<or> m \<in># R" "q \<in># R"
  shows "yields (mux_map_remove_value H m q h) (\<lambda>p. own p R) (\<lambda>_. T)"
proof -
  obtain v w h1 where a: "deref q h = Some v" "clone_value H v h = (w, h1)" "heap_inv h1 R (T + mset (objs w))"
    using clone_arg [OF assms(1,3), of H] by metis
  have "yields (with_map_mut m (\<lambda>map_data h. map_remove H map_data w h) h1) (\<lambda>_. R)
    (\<lambda>r. T + mset (objs w) + opt_objs (Option.bind r id))"
  proof (rule with_map_mut_yields [OF a(3) assms(2)])
    fix es and h3 :: "'a heap_scheme"
    assume i: "heap_inv h3 R (T + mset (objs w) + entry_objs es)"
    obtain opt es' h4 where m: "map_remove H es w h3 = (opt, es', h4)" by (metis prod_cases3)
    show "\<exists>r es' h4. map_remove H es w h3 = (r, es', h4) \<and>
        heap_inv h4 R (T + mset (objs w) + opt_objs (Option.bind (Some r) id) + entry_objs es') \<and> hp_blocks h4 = hp_blocks h3"
      using map_remove_inv [OF i m] m by simp
  qed simp
  then obtain r h2 where r: "with_map_mut m (\<lambda>map_data h. map_remove H map_data w h) h1 = Some (r, h2)"
    "heap_inv h2 R (T + mset (objs w) + opt_objs (Option.bind r id))" by (auto simp: yields_def)
  obtain p h3 where p: "alloc_optional (Option.bind r id) h2 = (p, h3)" by fastforce
  have "heap_inv h3 (own p R) (T + mset (objs w))" using alloc_opt [OF r(2)] p by (simp add: yields_def)
  from drop_inv [OF this] show ?thesis using a(1,2) r(1) p by (simp add: mux_map_remove_value_def yields_def)
qed

lemma cloned_inv:
  assumes "heap_inv h R T" "\<And>v. opt = Some v \<Longrightarrow> set (objs v) \<subseteq> set_mset (held h + T)" "cloned H opt h = (opt', h')"
  shows "heap_inv h' R (T + opt_objs opt')"
proof (cases opt)
  case None
  then show ?thesis using assms by (auto simp: cloned_def)
next
  case (Some v)
  obtain w h1 where c: "clone_value H v h = (w, h1)" by fastforce
  then show ?thesis using clone_inv_part(1) [OF assms(1,2) c] Some assms(3) by (auto simp: cloned_def)
qed

lemma map_get_sub: "map_get H es k h = Some v \<Longrightarrow> set (objs v) \<subseteq> set_mset (entry_objs es)"
  unfolding map_get_def by (drule al_get_Some_mem) (auto simp: entry_objs_def)

lemma map_get_alloc:
  assumes "heap_inv h R T" "set_mset (entry_objs es) \<subseteq> set_mset (held h + T)"
  shows "yields (Some (let (opt, h1) = cloned H (map_get H es k h) h in alloc_optional opt h1)) (\<lambda>q. own q R) (\<lambda>_. T)"
proof -
  obtain opt h1 where c: "cloned H (map_get H es k h) h = (opt, h1)" by fastforce
  have "heap_inv h1 R (T + opt_objs opt)"
    by (rule cloned_inv [OF assms(1) _ c]) (use map_get_sub assms(2) in blast)
  from alloc_opt [OF this] c show ?thesis by simp
qed

lemma raw_map: "entry_objs es \<subseteq># T \<Longrightarrow> set_mset (entry_objs es) \<subseteq> set_mset (held h + T)"
  using set_mset_mono by fastforce

lemma mux_map_get_yields [safe_calls]:
  assumes "heap_inv h R T" "entry_objs es \<subseteq># T" "q \<in># R"
  shows "yields (mux_map_get H es q h) (\<lambda>p. own p R) (\<lambda>_. T)"
proof -
  obtain k where "deref q h = Some k" using deref_owned [OF assms(1,3)] by blast
  then show ?thesis using map_get_alloc [OF assms(1) raw_map [OF assms(2)], of H k]
    by (simp add: mux_map_get_def split_beta Let_def)
qed

lemma mux_value_map_get_value_yields [safe_calls]:
  assumes "heap_inv h R T" "p = 0 \<or> p \<in># R" "q = 0 \<or> q \<in># R"
  shows "yields (mux_value_map_get_value H p q h) (\<lambda>r. own r R) (\<lambda>_. T)"
proof (cases "p = 0 \<or> q = 0")
  case True
  then show ?thesis using alloc_plain [OF assms(1), of "VOptional None"] by (auto simp: mux_value_map_get_value_def)
next
  case False
  then obtain m k where d: "deref p h = Some m" "deref q h = Some k"
    using deref_owned [OF assms(1)] assms(2,3) by metis
  have "set_mset (entry_objs es) \<subseteq> set_mset (held h + T)" if "m = VMap es" for es
    using deref_objs [OF assms(1) d(1)] that by simp
  note get = map_get_alloc [OF assms(1) this, of _ H k]
  show ?thesis using False d get alloc_plain [OF assms(1), of "VOptional None"]
    by (cases m) (simp_all add: mux_value_map_get_value_def cloned_def alloc_optional_def split_beta Let_def)
qed

lemma entry_parts:
  "set_mset (objs_of (map fst es)) \<subseteq> set_mset (entry_objs es)"
  "set_mset (objs_of (map snd es)) \<subseteq> set_mset (entry_objs es)"
  "objs_of (map (\<lambda>e. VTuple (fst e) (snd e)) es) = entry_objs es"
  by (auto simp: objs_of_def entry_objs_def comp_def)

lemma mux_map_parts_yields [safe_calls]:
  assumes "heap_inv h R T" "entry_objs es \<subseteq># T"
  shows "yields (Some (mux_map_keys H (Some es) h)) (\<lambda>q. own q R) (\<lambda>_. T)"
    "yields (Some (mux_map_values H (Some es) h)) (\<lambda>q. own q R) (\<lambda>_. T)"
    "yields (Some (mux_map_pairs H (Some es) h)) (\<lambda>q. own q R) (\<lambda>_. T)"
proof -
  note sub = raw_map [OF assms(2), of h]
  show "yields (Some (mux_map_keys H (Some es) h)) (\<lambda>q. own q R) (\<lambda>_. T)"
    using clone_list_alloc [OF assms(1) subset_trans [OF entry_parts(1) sub], of H] by (simp add: mux_map_keys_def)
  show "yields (Some (mux_map_values H (Some es) h)) (\<lambda>q. own q R) (\<lambda>_. T)"
    using clone_list_alloc [OF assms(1) subset_trans [OF entry_parts(2) sub], of H] by (simp add: mux_map_values_def)
  obtain es' h1 where c: "clone_entries H es h = (es', h1)" by fastforce
  show "yields (Some (mux_map_pairs H (Some es) h)) (\<lambda>q. own q R) (\<lambda>_. T)"
    using clone_entries_inv(1) [OF assms(1) sub c] c by (simp add: mux_map_pairs_def entry_parts(3) alloc_list)
qed

lemma map_extend_inv:
  "heap_inv h R (T + entry_objs es + entry_objs fs) \<Longrightarrow> map_extend H es fs h = (es', h') \<Longrightarrow>
     heap_inv h' R (T + entry_objs es')"
proof (induction H es fs h arbitrary: es' h' rule: map_extend.induct)
  case (2 H es k v others h)
  obtain es1 h1 where m: "map_insert H es k v h = (es1, h1)" by fastforce
  have "heap_inv h R ((T + entry_objs others) + entry_objs es + mset (objs k) + mset (objs v))"
    using "2.prems"(1) by (simp add: ac_simps)
  from map_insert_inv(1) [OF this m] have "heap_inv h1 R (T + entry_objs es1 + entry_objs others)" by (simp add: ac_simps)
  then show ?case using "2.IH" [OF m [symmetric] refl, of es' h'] "2.prems"(2) m by simp
qed simp

lemma mux_map_merge_yields [safe_calls]:
  assumes "heap_inv h R T" "entry_objs xs \<subseteq># T" "entry_objs ys \<subseteq># T" "mux_map_merge H (Some xs) (Some ys) h = (out, h')"
  shows "\<exists>zs. out = Some zs \<and> heap_inv h' R (T + entry_objs zs)"
proof -
  obtain a h1 where a: "clone_entries H xs h = (a, h1)" by fastforce
  obtain b h2 where b: "clone_entries H ys h1 = (b, h2)" by fastforce
  obtain c h3 where c: "map_extend H a b h2 = (c, h3)" by fastforce
  note i1 = clone_entries_inv [OF assms(1) raw_map [OF assms(2)] a]
  have "set_mset (entry_objs ys) \<subseteq> set_mset (held h1 + (T + entry_objs a))" using raw_map [OF assms(3), of h1] by auto
  from clone_entries_inv(1) [OF i1(1) this b] have "heap_inv h3 R (T + entry_objs c)" by (rule map_extend_inv [OF _ c])
  then show ?thesis using assms(4) a b c by (auto simp: mux_map_merge_def)
qed

subsection \<open>Sets\<close>

lemma set_remove_inv:
  assumes "heap_inv h R (T + objs_of xs)" "set_remove H xs v h = (b, xs', h')"
  shows "heap_inv h' R (T + objs_of xs')" "hp_blocks h' = hp_blocks h"
proof -
  let ?eq = "value_eq (heap_hooks H h)"
  have split: "objs_of xs = objs_of (map fst (al_remove ?eq (map (\<lambda>x. (x, ())) xs) v)) + mset (objs x)"
    if "find (\<lambda>x. ?eq x v) xs = Some x" for x
    using that by (induction xs) (auto simp: ac_simps comp_def split: if_splits)
  have "heap_inv h' R (T + objs_of xs') \<and> hp_blocks h' = hp_blocks h"
  proof (cases "find (\<lambda>x. ?eq x v) xs")
    case None
    then show ?thesis using assms by (auto simp: set_remove_def Let_def)
  next
    case (Some x)
    then have "T + objs_of xs = T + objs_of xs' + mset (objs x)"
      using split [OF Some] assms(2) by (auto simp: set_remove_def Let_def)
    then have "heap_inv h R (T + objs_of xs' + mset (objs x))" using assms(1) by metis
    from drop_inv [OF this] show ?thesis using Some assms(2) by (auto simp: set_remove_def Let_def)
  qed
  then show "heap_inv h' R (T + objs_of xs')" "hp_blocks h' = hp_blocks h" by simp_all
qed

lemma mux_set_add_yields [safe_calls]:
  assumes "heap_inv h R (T + objs_of xs)" "q \<in># R"
  shows "yields (mux_set_add H xs q h) (\<lambda>_. R) (\<lambda>xs'. T + objs_of xs')"
proof -
  obtain v w h1 where a: "deref q h = Some v" "snapshot_key H v h = Some (w, h1)"
    "heap_inv h1 R (T + objs_of xs + mset (objs w))"
    using snapshot_arg [OF assms, of H] by metis
  obtain b xs' h2 where s: "set_insert H xs w h1 = (b, xs', h2)" by (metis prod_cases3)
  show ?thesis using set_insert_inv(1) [OF a(3) s] a(1,2) s by (simp add: mux_set_add_def yields_def)
qed

lemma mux_set_add_value_yields [safe_calls]:
  assumes "heap_inv h R T" "p = 0 \<or> p \<in># R" "q \<in># R"
  shows "yields (mux_set_add_value H p q h) (\<lambda>_. R) (\<lambda>_. T)"
proof -
  obtain v w h1 where a: "deref q h = Some v" "snapshot_key H v h = Some (w, h1)" "heap_inv h1 R (T + mset (objs w))"
    using snapshot_arg [OF assms(1,3), of H] by metis
  have "yields (with_set_mut p (\<lambda>set_data h. ((), snd (set_insert H set_data w h))) h1) (\<lambda>_. R)
    (\<lambda>r. if r = None then T + mset (objs w) else T)"
  proof (rule with_set_mut_yields [OF a(3) assms(2)])
    fix xs and h3 :: "'a heap_scheme"
    assume i: "heap_inv h3 R (T + mset (objs w) + objs_of xs)"
    obtain b xs' h4 where s: "set_insert H xs w h3 = (b, xs', h4)" by (metis prod_cases3)
    have "heap_inv h3 R (T + objs_of xs + mset (objs w))" using i by (simp add: ac_simps)
    from set_insert_inv [OF this s] s show "\<exists>r xs' h2. ((), snd (set_insert H xs w h3)) = (r, xs', h2) \<and>
      heap_inv h2 R ((if Some r = None then T + mset (objs w) else T) + objs_of xs') \<and> hp_blocks h2 = hp_blocks h3" by simp
  qed simp
  from store_or_drop [OF this] show ?thesis using a(1,2) by (simp add: mux_set_add_value_def)
qed

lemma mux_set_remove_yields [safe_calls]:
  assumes "heap_inv h R (T + objs_of xs)" "q \<in># R"
  shows "yields (mux_set_remove H xs q h) (\<lambda>_. R) (\<lambda>r. T + objs_of (snd r))"
proof -
  obtain v w h1 where a: "deref q h = Some v" "clone_value H v h = (w, h1)"
    "heap_inv h1 R (T + objs_of xs + mset (objs w))"
    using clone_arg [OF assms, of H] by metis
  obtain b xs' h2 where s: "set_remove H xs w h1 = (b, xs', h2)" by (metis prod_cases3)
  have "heap_inv h1 R (T + mset (objs w) + objs_of xs)" using a(3) by (simp add: ac_simps)
  from set_remove_inv(1) [OF this s] have "heap_inv h2 R (T + objs_of xs' + mset (objs w))" by (simp add: ac_simps)
  from drop_inv [OF this] show ?thesis using a(1,2) s by (simp add: mux_set_remove_def yields_def)
qed

lemma mux_set_remove_value_yields [safe_calls]:
  assumes "heap_inv h R T" "p = 0 \<or> p \<in># R" "q \<in># R"
  shows "yields (mux_set_remove_value H p q h) (\<lambda>_. R) (\<lambda>_. T)"
proof -
  obtain v w h1 where a: "deref q h = Some v" "clone_value H v h = (w, h1)" "heap_inv h1 R (T + mset (objs w))"
    using clone_arg [OF assms(1,3), of H] by metis
  have "yields (with_set_mut p (\<lambda>set_data h. set_remove H set_data w h) h1) (\<lambda>_. R) (\<lambda>_. T + mset (objs w))"
  proof (rule with_set_mut_yields [OF a(3) assms(2)])
    fix xs and h3 :: "'a heap_scheme"
    assume i: "heap_inv h3 R (T + mset (objs w) + objs_of xs)"
    obtain b xs' h4 where s: "set_remove H xs w h3 = (b, xs', h4)" by (metis prod_cases3)
    from set_remove_inv [OF i s] s show "\<exists>r xs' h2. set_remove H xs w h3 = (r, xs', h2) \<and>
      heap_inv h2 R (T + mset (objs w) + objs_of xs') \<and> hp_blocks h2 = hp_blocks h3" by simp
  qed simp
  then show ?thesis using a(1,2) drop_inv by (fastforce simp: mux_set_remove_value_def yields_def)
qed

lemma mux_set_to_list_yields [safe_calls]:
  assumes "heap_inv h R T" "objs_of xs \<subseteq># T"
  shows "yields (Some (mux_set_to_list H (Some xs) h)) (\<lambda>q. own q R) (\<lambda>_. T)"
  using clone_list_alloc [OF assms(1) raw_list [OF assms(2)], of H] by (simp add: mux_set_to_list_def)

lemma set_extend_inv:
  "heap_inv h R (T + objs_of xs + objs_of ys) \<Longrightarrow> set_extend H xs ys h = (xs', h') \<Longrightarrow> heap_inv h' R (T + objs_of xs')"
proof (induction H xs ys h arbitrary: xs' h' rule: set_extend.induct)
  case (2 H xs v others h)
  obtain b xs1 h1 where s: "set_insert H xs v h = (b, xs1, h1)" by (metis prod_cases3)
  have "heap_inv h R ((T + objs_of others) + objs_of xs + mset (objs v))" using "2.prems"(1) by (simp add: ac_simps)
  from set_insert_inv(1) [OF this s] have "heap_inv h1 R (T + objs_of xs1 + objs_of others)" by (simp add: ac_simps)
  then show ?case using "2.IH" [OF s [symmetric] refl] "2.prems"(2) s by simp
qed simp

lemma mux_set_union_yields [safe_calls]:
  assumes "heap_inv h R T" "objs_of xs \<subseteq># T" "objs_of ys \<subseteq># T" "mux_set_union H (Some xs) (Some ys) h = (out, h')"
  shows "\<exists>zs. out = Some zs \<and> heap_inv h' R (T + objs_of zs)"
proof -
  obtain a h1 where a: "clone_list H xs h = (a, h1)" by fastforce
  obtain b h2 where b: "clone_list H ys h1 = (b, h2)" by fastforce
  obtain c h3 where c: "set_extend H a b h2 = (c, h3)" by fastforce
  note i1 = clone_list_inv [OF assms(1) raw_list [OF assms(2)] a]
  have "set_mset (objs_of ys) \<subseteq> set_mset (held h1 + (T + objs_of a))" using raw_list [OF assms(3), of h1] by auto
  from clone_list_inv(1) [OF i1(1) this b] have "heap_inv h3 R (T + objs_of c)" by (rule set_extend_inv [OF _ c])
  then show ?thesis using assms(4) a b c by (auto simp: mux_set_union_def)
qed

end
