(* ===== verification/Runtime_Machine.thy ===== *)
theory Runtime_Machine
  imports Container_Safety
begin

text \<open>
  A compiled program as a sequence of calls into the runtime. The state beside the heap is what the
  program owns: a multiset of references to blocks, and the raw containers it holds. A
  call is enabled when every pointer it passes is null, where the entry point allows null, or
  owned by the program; this is the contract the \<open># Safety\<close> comments of the source state. Each rule
  of the call relations is one entry point with the change of ownership its comment documents.
\<close>

datatype raw = RawList "mux_value list" | RawMap entries | RawSet "mux_value list" | RawTuple tuple

fun raw_value :: "raw \<Rightarrow> mux_value" where
  "raw_value (RawList xs) = VList xs"
| "raw_value (RawMap es) = VMap es"
| "raw_value (RawSet xs) = VSet xs"
| "raw_value (RawTuple t) = VTuple (fst t) (snd t)"

definition raw_objs :: "raw \<Rightarrow> object_ref multiset" where
  "raw_objs b = mset (objs (raw_value b))"

definition boxes_objs :: "raw multiset \<Rightarrow> object_ref multiset" where
  "boxes_objs B = \<Sum>\<^sub># (image_mset raw_objs B)"

type_synonym owned = "nat multiset \<times> raw multiset"
type_synonym 'z effect = "'z heap_scheme \<Rightarrow> (owned \<times> 'z heap_scheme) option"

lemma boxes_simps [simp]:
  "boxes_objs {#} = {#}" "boxes_objs (add_mset b B) = boxes_objs B + raw_objs b"
  "raw_objs (RawList xs) = objs_of xs" "raw_objs (RawMap es) = entry_objs es" "raw_objs (RawSet xs) = objs_of xs"
  "raw_objs (RawTuple t) = mset (objs (fst t)) + mset (objs (snd t))"
  by (simp_all add: boxes_objs_def raw_objs_def)

subsection \<open>Answers\<close>

definition ret_ptr :: "nat multiset \<Rightarrow> raw multiset \<Rightarrow> (nat \<times> 'z heap_scheme) option \<Rightarrow> (owned \<times> 'z heap_scheme) option" where
  "ret_ptr R B m = map_option (\<lambda>(q, h). ((own q R, B), h)) m"

definition ret_done :: "nat multiset \<Rightarrow> raw multiset \<Rightarrow> ('r \<times> 'z heap_scheme) option \<Rightarrow> (owned \<times> 'z heap_scheme) option" where
  "ret_done R B m = map_option (\<lambda>(_, h). ((R, B), h)) m"

definition ret_read :: "nat multiset \<Rightarrow> raw multiset \<Rightarrow> 'z heap_scheme \<Rightarrow> 'r option \<Rightarrow> (owned \<times> 'z heap_scheme) option" where
  "ret_read R B h m = map_option (\<lambda>_. ((R, B), h)) m"

definition ret_raw ::
  "('c \<Rightarrow> raw) \<Rightarrow> nat multiset \<Rightarrow> raw multiset \<Rightarrow> ('c \<times> 'z heap_scheme) option \<Rightarrow> (owned \<times> 'z heap_scheme) option" where
  "ret_raw wrap R B m = map_option (\<lambda>(c, h). ((R, add_mset (wrap c) B), h)) m"

definition ret_opt_raw ::
  "('c \<Rightarrow> raw) \<Rightarrow> nat multiset \<Rightarrow> raw multiset \<Rightarrow> ('c option \<times> 'z heap_scheme) option \<Rightarrow> (owned \<times> 'z heap_scheme) option" where
  "ret_opt_raw wrap R B m =
     map_option (\<lambda>(c, h). ((R, case c of None \<Rightarrow> B | Some x \<Rightarrow> add_mset (wrap x) B), h)) m"

definition ret_ptr_raw ::
  "('c \<Rightarrow> raw) \<Rightarrow> nat multiset \<Rightarrow> raw multiset \<Rightarrow> ((nat \<times> 'c) \<times> 'z heap_scheme) option \<Rightarrow> (owned \<times> 'z heap_scheme) option" where
  "ret_ptr_raw wrap R B m = map_option (\<lambda>((q, c), h). ((own q R, add_mset (wrap c) B), h)) m"

definition ret_call ::
  "nat multiset \<Rightarrow> raw multiset \<Rightarrow> 'z heap_scheme \<Rightarrow> (nat \<times> 'z heap_scheme) rust_call option \<Rightarrow> (owned \<times> 'z heap_scheme) option" where
  "ret_call R B h m = (case m of
       None \<Rightarrow> None
     | Some (Panics _) \<Rightarrow> Some ((R, B), h)
     | Some (Returns (q, h')) \<Rightarrow> Some ((own q R, B), h'))"

subsection \<open>The calls\<close>

abbreviation ref :: "nat \<Rightarrow> nat multiset \<Rightarrow> bool" where "ref p R \<equiv> p = 0 \<or> p \<in># R"

inductive block_call :: "hooks \<Rightarrow> nat multiset \<Rightarrow> raw multiset \<Rightarrow> 'z effect \<Rightarrow> bool" for H where
  "ref p R \<Longrightarrow> block_call H R B (\<lambda>h. map_option (\<lambda>h'. ((own p R, B), h')) (mux_rc_inc p h))"
| "ref p R \<Longrightarrow> block_call H R B (\<lambda>h. ret_ptr R B (mux_rc_clone p h))"
| "ref p R \<Longrightarrow> block_call H R B (\<lambda>h. map_option (\<lambda>(_, h'). ((R - {#p#}, B), h')) (mux_rc_dec p h))"
| "ref p R \<Longrightarrow> block_call H R B (\<lambda>h. map_option (\<lambda>h'. ((R - {#p#}, B), h')) (free_object p h))"
| "ref p R \<Longrightarrow> block_call H R B (\<lambda>h. ret_read R B h (mux_rc_count p h))"
| "ref p R \<Longrightarrow> block_call H R B (\<lambda>h. ret_ptr R B (mux_value_deep_clone H p h))"
| "block_call H R B (\<lambda>h. ret_ptr R B (Some (alloc_object t h)))"
| "block_call H R B (\<lambda>h. Some ((R, B), snd (mux_register_object_type name sz h)))"
| "block_call H R B (\<lambda>h. Some ((R, B), snd (register_shared_object_type name sz destructor h)))"
| "block_call H R B (\<lambda>h. Some ((R, B), mux_register_object_copy t f h))"
| "block_call H R B (\<lambda>h. Some ((R, B), mux_register_object_destructor t d h))"
| "block_call H R B (\<lambda>h. Some ((R, B), mux_register_object_equals t eq h))"
| "block_call H R B (\<lambda>h. Some ((R, B), mux_register_object_compare t cmp h))"
| "block_call H R B (\<lambda>h. Some ((R, B), mux_register_object_hash t hs h))"

inductive value_call :: "hooks \<Rightarrow> bool \<Rightarrow> float_ops \<Rightarrow> nat multiset \<Rightarrow> raw multiset \<Rightarrow> 'z effect \<Rightarrow> bool" for H chk F where
  "value_call H chk F R B (\<lambda>h. ret_ptr R B (Some (mux_int_value i h)))"
| "value_call H chk F R B (\<lambda>h. ret_ptr R B (Some (mux_bool_value i h)))"
| "value_call H chk F R B (\<lambda>h. ret_ptr R B (Some (mux_float_value f h)))"
| "value_call H chk F R B (\<lambda>h. ret_ptr R B (Some (mux_string_value s h)))"
| "value_call H chk F R B (\<lambda>h. ret_ptr R B (Some (mux_box_enum bytes h)))"
| "value_call H chk F R B (\<lambda>h. ret_ptr R B (Some (mux_box_enum_managed H bytes g1 g2 g3 g4 h)))"
| "value_call H chk F R B (\<lambda>h. ret_ptr R B (Some (mux_none h)))"
| "value_call H chk F R B (\<lambda>h. ret_ptr R B (Some (mux_err s h)))"
| "value_call H chk F R B (\<lambda>h. ret_ptr R B (Some (mux_optional_some_int i h)))"
| "value_call H chk F R B (\<lambda>h. ret_ptr R B (Some (mux_optional_some_float f h)))"
| "value_call H chk F R B (\<lambda>h. ret_ptr R B (Some (mux_optional_some_bool i h)))"
| "value_call H chk F R B (\<lambda>h. ret_ptr R B (Some (mux_result_ok_int i h)))"
| "value_call H chk F R B (\<lambda>h. ret_ptr R B (Some (mux_result_ok_float f h)))"
| "value_call H chk F R B (\<lambda>h. ret_ptr R B (Some (mux_result_ok_bool i h)))"
| "value_call H chk F R B (\<lambda>h. ret_ptr R B (Some (mux_result_ok_unit h)))"
| "value_call H chk F R B (\<lambda>h. ret_ptr R B (Some (mux_result_err_str s h)))"
| "value_call H chk F R B (\<lambda>h. ret_ptr R B (Some (mux_float_div F H f g h)))"
| "value_call H chk F R B (\<lambda>h. ret_call R B h (Some (mux_int_div i j h)))"
| "p \<in># R \<Longrightarrow> value_call H chk F R B (\<lambda>h. ret_ptr R B (mux_some H p h))"
| "p \<in># R \<Longrightarrow> value_call H chk F R B (\<lambda>h. ret_ptr R B (mux_ok H p h))"
| "ref p R \<Longrightarrow> value_call H chk F R B (\<lambda>h. ret_ptr R B (mux_optional_get_value H p h))"
| "ref p R \<Longrightarrow> value_call H chk F R B (\<lambda>h. ret_ptr R B (mux_optional_some_value H p h))"
| "ref p R \<Longrightarrow> value_call H chk F R B (\<lambda>h. ret_ptr R B (mux_result_ok_value H p h))"
| "ref p R \<Longrightarrow> value_call H chk F R B (\<lambda>h. ret_ptr R B (mux_result_err_value H p h))"
| "ref p R \<Longrightarrow> value_call H chk F R B (\<lambda>h. ret_ptr R B (mux_result_data H p h))"
| "ref p R \<Longrightarrow> value_call H chk F R B (\<lambda>h. ret_ptr R B (mux_bool_to_int p h))"
| "ref p R \<Longrightarrow> value_call H chk F R B (\<lambda>h. ret_ptr R B (mux_bool_to_float F p h))"
| "ref p R \<Longrightarrow> value_call H chk F R B (\<lambda>h. ret_ptr R B (mux_int_to_float F p h))"
| "ref p R \<Longrightarrow> value_call H chk F R B (\<lambda>h. ret_ptr R B (mux_float_to_int F p h))"
| "p \<in># R \<Longrightarrow> q \<in># R \<Longrightarrow> value_call H chk F R B (\<lambda>h. ret_call R B h (mux_value_add chk F p q h))"
| "ref p R \<Longrightarrow> value_call H chk F R B (\<lambda>h. ret_read R B h (mux_value_get_int p h))"
| "ref p R \<Longrightarrow> value_call H chk F R B (\<lambda>h. ret_read R B h (mux_value_get_float p h))"
| "ref p R \<Longrightarrow> value_call H chk F R B (\<lambda>h. ret_read R B h (mux_value_get_bool p h))"
| "ref p R \<Longrightarrow> value_call H chk F R B (\<lambda>h. ret_read R B h (mux_value_get_type_tag p h))"
| "ref p R \<Longrightarrow> value_call H chk F R B (\<lambda>h. ret_read R B h (mux_value_hash H p h))"
| "ref p R \<Longrightarrow> value_call H chk F R B (\<lambda>h. ret_read R B h (mux_optional_is_some p h))"
| "ref p R \<Longrightarrow> value_call H chk F R B (\<lambda>h. ret_read R B h (mux_optional_is_none p h))"
| "ref p R \<Longrightarrow> value_call H chk F R B (\<lambda>h. ret_read R B h (mux_value_optional_discriminant p h))"
| "ref p R \<Longrightarrow> value_call H chk F R B (\<lambda>h. ret_read R B h (mux_result_is_ok p h))"
| "ref p R \<Longrightarrow> value_call H chk F R B (\<lambda>h. ret_read R B h (mux_result_is_err p h))"
| "ref p R \<Longrightarrow> value_call H chk F R B (\<lambda>h. ret_read R B h (mux_value_result_discriminant p h))"
| "p \<in># R \<Longrightarrow> value_call H chk F R B (\<lambda>h. ret_read R B h (mux_value_to_string H p h))"
| "ref p R \<Longrightarrow> ref q R \<Longrightarrow> value_call H chk F R B (\<lambda>h. ret_read R B h (mux_value_equal H p q h))"
| "ref p R \<Longrightarrow> ref q R \<Longrightarrow> value_call H chk F R B (\<lambda>h. ret_read R B h (mux_value_compare H p q h))"
| "p \<in># R \<Longrightarrow> q \<in># R \<Longrightarrow> value_call H chk F R B (\<lambda>h. ret_raw RawTuple R B (mux_new_tuple H p q h))"
| "value_call H chk F R (add_mset (RawTuple t) B) (\<lambda>h. ret_ptr R B (Some (mux_tuple_value t h)))"
| "value_call H chk F R (add_mset (RawTuple t) B) (\<lambda>h. ret_ptr R (add_mset (RawTuple t) B) (Some (mux_tuple_left H t h)))"
| "value_call H chk F R (add_mset (RawTuple t) B) (\<lambda>h. ret_ptr R (add_mset (RawTuple t) B) (Some (mux_tuple_right H t h)))"

inductive list_call :: "hooks \<Rightarrow> nat multiset \<Rightarrow> raw multiset \<Rightarrow> 'z effect \<Rightarrow> bool" for H where
  "list_call H R B (\<lambda>h. ret_raw RawList R B (Some (mux_new_list, h)))"
| "list_call H R B (\<lambda>h. ret_raw RawList R B (Some (mux_range a b, h)))"
| "ref p R \<Longrightarrow> list_call H R B (\<lambda>h. ret_opt_raw RawList R B (mux_value_get_list H p h))"
| "ref p R \<Longrightarrow> list_call H R B (\<lambda>h. ret_opt_raw RawList R B (mux_value_to_list H p h))"
| "list_call H R (add_mset (RawList xs) B) (\<lambda>h. ret_ptr R B (Some (mux_list_value xs h)))"
| "list_call H R (add_mset (RawList xs) B) (\<lambda>h. Some ((R, B), mux_free_list (Some xs) h))"
| "q \<in># R \<Longrightarrow> list_call H R (add_mset (RawList xs) B) (\<lambda>h. ret_raw RawList R B (mux_list_push_back H xs q h))"
| "q \<in># R \<Longrightarrow> list_call H R (add_mset (RawList xs) B) (\<lambda>h. ret_raw RawList R B (mux_list_push H xs q h))"
| "q \<in># R \<Longrightarrow> list_call H R (add_mset (RawList xs) B) (\<lambda>h. ret_raw RawList R B (mux_list_insert H xs i q h))"
| "q \<in># R \<Longrightarrow> list_call H R (add_mset (RawList xs) B) (\<lambda>h. ret_raw RawList R B (mux_list_set H xs i q h))"
| "list_call H R (add_mset (RawList xs) B) (\<lambda>h. ret_ptr_raw RawList R B (Some (mux_list_pop_back xs h)))"
| "list_call H R (add_mset (RawList xs) B) (\<lambda>h. ret_ptr_raw RawList R B (Some (mux_list_pop xs h)))"
| "RawList xs \<in># B \<Longrightarrow> list_call H R B (\<lambda>h. ret_ptr R B (Some (mux_list_get H xs i h)))"
| "RawList xs \<in># B \<Longrightarrow> list_call H R B (\<lambda>h. ret_ptr R B (Some (mux_list_get_value H (Some xs) i h)))"
| "q \<in># R \<Longrightarrow> list_call H R B (\<lambda>h. ret_read R B h (mux_list_contains H xs q h))"
| "RawList xs \<in># B \<Longrightarrow> RawList ys \<in># B \<Longrightarrow>
     list_call H R B (\<lambda>h. ret_opt_raw RawList R B (Some (mux_list_concat H (Some xs) (Some ys) h)))"
| "ref p R \<Longrightarrow> q \<in># R \<Longrightarrow> list_call H R B (\<lambda>h. ret_done R B (mux_list_push_back_value H p q h))"
| "ref p R \<Longrightarrow> q \<in># R \<Longrightarrow> list_call H R B (\<lambda>h. ret_done R B (mux_list_push_value H p q h))"
| "ref p R \<Longrightarrow> ref q R \<Longrightarrow> list_call H R B (\<lambda>h. ret_done R B (mux_list_set_value H p i q h))"
| "ref p R \<Longrightarrow> list_call H R B (\<lambda>h. ret_ptr R B (mux_list_pop_back_value p h))"
| "ref p R \<Longrightarrow> list_call H R B (\<lambda>h. ret_ptr R B (mux_list_pop_value p h))"
| "ref p R \<Longrightarrow> list_call H R B (\<lambda>h. ret_ptr R B (mux_list_slice_value H p a b h))"
| "p \<in># R \<Longrightarrow> list_call H R B (\<lambda>h. ret_ptr R B (mux_value_list_slice H p a b h))"
| "p \<in># R \<Longrightarrow> list_call H R B (\<lambda>h. ret_ptr R B (mux_value_list_get_value H p i h))"
| "p \<in># R \<Longrightarrow> list_call H R B (\<lambda>h. ret_read R B h (mux_value_list_length p h))"

inductive map_call :: "hooks \<Rightarrow> nat multiset \<Rightarrow> raw multiset \<Rightarrow> 'z effect \<Rightarrow> bool" for H where
  "map_call H R B (\<lambda>h. ret_raw RawMap R B (Some (mux_new_map, h)))"
| "ref p R \<Longrightarrow> map_call H R B (\<lambda>h. ret_opt_raw RawMap R B (mux_value_get_map H p h))"
| "map_call H R (add_mset (RawMap es) B) (\<lambda>h. ret_ptr R B (Some (mux_map_value es h)))"
| "map_call H R (add_mset (RawMap es) B) (\<lambda>h. Some ((R, B), mux_free_map (Some es) h))"
| "p \<in># R \<Longrightarrow> q \<in># R \<Longrightarrow> map_call H R (add_mset (RawMap es) B) (\<lambda>h. ret_raw RawMap R B (mux_map_put H es p q h))"
| "q \<in># R \<Longrightarrow> map_call H R (add_mset (RawMap es) B) (\<lambda>h. ret_ptr_raw RawMap R B (mux_map_remove H es q h))"
| "RawMap es \<in># B \<Longrightarrow> q \<in># R \<Longrightarrow> map_call H R B (\<lambda>h. ret_ptr R B (mux_map_get H es q h))"
| "RawMap es \<in># B \<Longrightarrow> ref q R \<Longrightarrow> map_call H R B (\<lambda>h. ret_read R B h (mux_map_contains H (Some es) q h))"
| "RawMap es \<in># B \<Longrightarrow> map_call H R B (\<lambda>h. ret_ptr R B (Some (mux_map_keys H (Some es) h)))"
| "RawMap es \<in># B \<Longrightarrow> map_call H R B (\<lambda>h. ret_ptr R B (Some (mux_map_values H (Some es) h)))"
| "RawMap es \<in># B \<Longrightarrow> map_call H R B (\<lambda>h. ret_ptr R B (Some (mux_map_pairs H (Some es) h)))"
| "RawMap xs \<in># B \<Longrightarrow> RawMap ys \<in># B \<Longrightarrow>
     map_call H R B (\<lambda>h. ret_opt_raw RawMap R B (Some (mux_map_merge H (Some xs) (Some ys) h)))"
| "ref m R \<Longrightarrow> ref p R \<Longrightarrow> ref q R \<Longrightarrow> map_call H R B (\<lambda>h. ret_done R B (mux_map_put_value H m p q h))"
| "ref m R \<Longrightarrow> q \<in># R \<Longrightarrow> map_call H R B (\<lambda>h. ret_ptr R B (mux_map_remove_value H m q h))"
| "ref m R \<Longrightarrow> ref q R \<Longrightarrow> map_call H R B (\<lambda>h. ret_ptr R B (mux_value_map_get_value H m q h))"

inductive set_call :: "hooks \<Rightarrow> nat multiset \<Rightarrow> raw multiset \<Rightarrow> 'z effect \<Rightarrow> bool" for H where
  "set_call H R B (\<lambda>h. ret_raw RawSet R B (Some (mux_new_set, h)))"
| "ref p R \<Longrightarrow> set_call H R B (\<lambda>h. ret_opt_raw RawSet R B (mux_value_get_set H p h))"
| "set_call H R (add_mset (RawSet xs) B) (\<lambda>h. ret_ptr R B (Some (mux_set_value xs h)))"
| "set_call H R (add_mset (RawSet xs) B) (\<lambda>h. Some ((R, B), mux_free_set (Some xs) h))"
| "q \<in># R \<Longrightarrow> set_call H R (add_mset (RawSet xs) B) (\<lambda>h. ret_raw RawSet R B (mux_set_add H xs q h))"
| "q \<in># R \<Longrightarrow> set_call H R (add_mset (RawSet xs) B)
     (\<lambda>h. ret_raw (\<lambda>(_, ys). RawSet ys) R B (mux_set_remove H xs q h))"
| "q \<in># R \<Longrightarrow> set_call H R B (\<lambda>h. ret_read R B h (mux_set_contains H xs q h))"
| "RawSet xs \<in># B \<Longrightarrow> set_call H R B (\<lambda>h. ret_ptr R B (Some (mux_set_to_list H (Some xs) h)))"
| "RawSet xs \<in># B \<Longrightarrow> RawSet ys \<in># B \<Longrightarrow>
     set_call H R B (\<lambda>h. ret_opt_raw RawSet R B (Some (mux_set_union H (Some xs) (Some ys) h)))"
| "ref p R \<Longrightarrow> q \<in># R \<Longrightarrow> set_call H R B (\<lambda>h. ret_done R B (mux_set_add_value H p q h))"
| "ref p R \<Longrightarrow> q \<in># R \<Longrightarrow> set_call H R B (\<lambda>h. ret_done R B (mux_set_remove_value H p q h))"

text \<open>Any call of the program, and the states it can reach from an empty heap.\<close>

definition mux_call :: "hooks \<Rightarrow> bool \<Rightarrow> float_ops \<Rightarrow> nat multiset \<Rightarrow> raw multiset \<Rightarrow> 'z effect \<Rightarrow> bool" where
  "mux_call H chk F R B f \<longleftrightarrow>
     block_call H R B f \<or> value_call H chk F R B f \<or> list_call H R B f \<or> map_call H R B f \<or> set_call H R B f"

inductive reaches :: "hooks \<Rightarrow> bool \<Rightarrow> float_ops \<Rightarrow> 'z heap_scheme \<Rightarrow> 'z heap_scheme \<Rightarrow> nat multiset \<Rightarrow> raw multiset \<Rightarrow> bool"
  for H chk F h0 where
  start: "reaches H chk F h0 h0 {#} {#}"
| call: "reaches H chk F h0 h R B \<Longrightarrow> mux_call H chk F R B f \<Longrightarrow> f h = Some ((R', B'), h') \<Longrightarrow>
     reaches H chk F h0 h' R' B'"

subsection \<open>Every call is safe\<close>

definition sound_call :: "nat multiset \<Rightarrow> raw multiset \<Rightarrow> 'z effect \<Rightarrow> bool" where
  "sound_call R B f \<longleftrightarrow> (\<forall>h. heap_inv h R (boxes_objs B) \<longrightarrow> yields (f h) fst (\<lambda>r. boxes_objs (snd r)))"

lemma sound_ptr:
  "(\<And>h. heap_inv h R (boxes_objs B) \<Longrightarrow> yields (m h) (\<lambda>q. own q R) (\<lambda>_. boxes_objs B')) \<Longrightarrow>
     sound_call R B (\<lambda>h. ret_ptr R B' (m h))"
  by (fastforce simp: sound_call_def ret_ptr_def yields_def)

lemma sound_done:
  "(\<And>h. heap_inv h R (boxes_objs B) \<Longrightarrow> yields (m h) (\<lambda>_. R) (\<lambda>_. boxes_objs B)) \<Longrightarrow>
     sound_call R B (\<lambda>h. ret_done R B (m h))"
  by (fastforce simp: sound_call_def ret_done_def yields_def)

lemma sound_read:
  "(\<And>h. heap_inv h R (boxes_objs B) \<Longrightarrow> \<exists>r. m h = Some r) \<Longrightarrow> sound_call R B (\<lambda>h. ret_read R B h (m h))"
  by (fastforce simp: sound_call_def ret_read_def yields_def)

lemma sound_raw:
  "(\<And>h. heap_inv h R (boxes_objs B) \<Longrightarrow> yields (m h) (\<lambda>_. R) (\<lambda>c. boxes_objs B' + raw_objs (wrap c))) \<Longrightarrow>
     sound_call R B (\<lambda>h. ret_raw wrap R B' (m h))"
  by (fastforce simp: sound_call_def ret_raw_def yields_def)

lemma sound_ptr_raw:
  "(\<And>h. heap_inv h R (boxes_objs B) \<Longrightarrow>
      yields (m h) (\<lambda>r. own (fst r) R) (\<lambda>r. boxes_objs B' + raw_objs (wrap (snd r)))) \<Longrightarrow>
     sound_call R B (\<lambda>h. ret_ptr_raw wrap R B' (m h))"
  by (fastforce simp: sound_call_def ret_ptr_raw_def yields_def)

lemma sound_opt_raw:
  fixes m :: "'z heap_scheme \<Rightarrow> ('c option \<times> 'z heap_scheme) option"
  assumes "\<And>h. heap_inv h R (boxes_objs B) \<Longrightarrow> yields (m h) (\<lambda>_. R)
      (\<lambda>c. boxes_objs (case c of None \<Rightarrow> B | Some x \<Rightarrow> add_mset (wrap x) B))"
  shows "sound_call R B (\<lambda>h. ret_opt_raw wrap R B (m h))"
  unfolding sound_call_def
proof (intro allI impI)
  fix h :: "'z heap_scheme" assume "heap_inv h R (boxes_objs B)"
  from assms [OF this] obtain c h' where m: "m h = Some (c, h')"
    "heap_inv h' R (boxes_objs (case c of None \<Rightarrow> B | Some x \<Rightarrow> add_mset (wrap x) B))" by (rule yieldsE)
  show "yields (ret_opt_raw wrap R B (m h)) fst (\<lambda>r. boxes_objs (snd r))"
    by (rule yieldsI [where r = "(R, case c of None \<Rightarrow> B | Some x \<Rightarrow> add_mset (wrap x) B)" and h = h'])
      (use m in \<open>simp_all add: ret_opt_raw_def\<close>)
qed

lemma sound_alloc: "objs v = [] \<Longrightarrow> sound_call R B (\<lambda>h. ret_ptr R B (Some (mux_rc_alloc v h)))"
  by (rule sound_ptr, rule alloc_plain)

lemma ref_deref: "heap_inv h R T \<Longrightarrow> p \<in># R \<Longrightarrow> \<exists>v. deref p h = Some v"
  by (rule deref_owned)

lemma owned_block: "heap_inv h R T \<Longrightarrow> p \<in># R \<Longrightarrow> \<exists>n v. hp_blocks h p = Some (n, v)"
  using ref_deref [of h R T p] by (auto simp: deref_def)

lemma compare_returns:
  assumes "heap_inv h R T" "ref p R" "ref q R"
  shows "\<exists>r. mux_value_equal H p q h = Some r" "\<exists>r. mux_value_compare H p q h = Some r"
  using ref_deref [OF assms(1), of p] ref_deref [OF assms(1), of q] assms(2,3)
  by (auto simp: mux_value_equal_def mux_value_compare_def)

lemma sound_read_or: "ref p R \<Longrightarrow> sound_call R B (\<lambda>h. ret_read R B h (read_or null (f h) p h))"
  by (rule sound_read) (auto simp: read_or_def dest: ref_deref)

lemma sound_state: "(\<And>h T. heap_inv h R T \<Longrightarrow> heap_inv (f h) R T) \<Longrightarrow> sound_call R B (\<lambda>h. Some ((R, B), f h))"
  by (auto simp: sound_call_def yields_def)

lemma types_inv: "heap_inv (h\<lparr>hp_types := x\<rparr>) R T = heap_inv h R T" "heap_inv (h\<lparr>hp_next_type := y\<rparr>) R T = heap_inv h R T"
  by (simp_all add: heap_inv_def heap_ok_def buffers_ok_def handed_out_def held_def rc_of_def [abs_def])

lemmas register_defs = mux_register_object_type_def register_object_type_def register_object_type_with_copy_def
  register_shared_object_type_def object_type_new_def mux_register_object_copy_def update_type_def
  mux_register_object_destructor_def mux_register_object_equals_def mux_register_object_compare_def
  mux_register_object_hash_def Let_def split_beta

lemma copy_block_inv:
  assumes "heap_inv h R T" "deref p h = Some (VObject obj)"
  shows "yields (Some (copy_object H (Some (VObject obj)) h)) (\<lambda>q. own q R) (\<lambda>_. T)"
proof -
  obtain q h' where c: "copy_object H (Some (VObject obj)) h = (q, h')" by fastforce
  have "obj \<in># held h + T" using deref_objs [OF assms] by simp
  then show ?thesis
    by (rule copy_object_inv [OF assms(1) _ c]) (auto simp: c new_block_def own_def yields_def)
qed

lemma mux_value_deep_clone_yields:
  assumes "heap_inv h R T" "ref p R"
  shows "yields (mux_value_deep_clone H p h) (\<lambda>q. own q R) (\<lambda>_. T)"
proof (cases "p = 0")
  case True
  then show ?thesis using null_yields [OF assms(1)] by (simp add: mux_value_deep_clone_def)
next
  case False
  then obtain v where v: "deref p h = Some v" using deref_owned [OF assms(1)] assms(2) by blast
  have "yields (map_option (\<lambda>(v', h'). mux_rc_alloc v' h') (deep_clone_value H v h)) (\<lambda>q. own q R) (\<lambda>_. T)"
    using deep_clone_inv_part [OF assms(1) deref_objs [OF assms(1) v], of H] alloc_yields
    by (fastforce simp: yields_def)
  then show ?thesis using False v copy_block_inv [OF assms(1), of p]
    by (cases v) (simp_all add: mux_value_deep_clone_def)
qed

lemma alloc_object_yields:
  assumes "heap_inv h R T" shows "yields (Some (alloc_object t h)) (\<lambda>q. own q R) (\<lambda>_. T)"
proof -
  obtain q h' where a: "alloc_object t h = (q, h')" by fastforce
  show ?thesis by (rule alloc_object_inv [OF assms a]) (auto simp: a new_block_def own_def yields_def)
qed

lemma block_call_sound: "block_call H R B f \<Longrightarrow> sound_call R B f"
proof (induction rule: block_call.induct)
  case (1 p R B)
  then show ?case unfolding sound_call_def
    by (intro allI impI) (erule inc_inv [of _ _ _ p], auto simp: yields_def own_def)
next
  case (2 p R B)
  have "yields (mux_rc_clone p h) (\<lambda>q. own q R) (\<lambda>_. boxes_objs B)" if "heap_inv h R (boxes_objs B)" for h :: "'a heap_scheme"
    by (rule inc_inv [OF that 2]) (use that in \<open>auto simp: mux_rc_clone_def yields_def own_def\<close>)
  then show ?case by (rule sound_ptr)
next
  case (3 p R B)
  then show ?case unfolding sound_call_def
    by (intro allI impI) (erule dec_inv [of _ _ _ p], auto simp: yields_def)
next
  case (4 p R B)
  then show ?case unfolding sound_call_def free_object_def
    by (intro allI impI) (erule dec_inv [of _ _ _ p], auto simp: yields_def)
next
  case (5 p R B)
  then show ?case by (intro sound_read) (auto simp: mux_rc_count_def dest: owned_block)
next
  case (6 p R B)
  then show ?case by (intro sound_ptr mux_value_deep_clone_yields)
next
  case (7 R B t)
  show ?case by (intro sound_ptr alloc_object_yields)
qed (rule sound_state, simp add: register_defs types_inv)+

lemmas scalar_defs = mux_int_value_def mux_bool_value_def mux_float_value_def mux_string_value_def mux_box_enum_def
  mux_box_enum_managed_def mux_none_def mux_err_def mux_optional_some_int_def mux_optional_some_float_def
  mux_optional_some_bool_def mux_result_ok_int_def mux_result_ok_float_def mux_result_ok_bool_def
  mux_result_ok_unit_def mux_result_err_str_def mux_float_div_def Let_def

lemmas reader_defs = mux_value_get_int_def mux_value_get_float_def mux_value_get_bool_def mux_value_get_type_tag_def
  mux_value_hash_def mux_optional_is_some_def mux_optional_is_none_def mux_value_optional_discriminant_def
  mux_result_is_ok_def mux_result_is_err_def mux_value_result_discriminant_def

lemmas wrapper_defs = mux_some_def mux_ok_def mux_optional_get_value_def mux_result_ok_value_def
  mux_result_err_value_def mux_result_data_def mux_bool_to_int_def mux_bool_to_float_def mux_int_to_float_def mux_float_to_int_def

lemma ret_call_sound:
  assumes "\<And>h :: 'z heap_scheme. heap_inv h R (boxes_objs B) \<Longrightarrow>
      \<exists>r. m h = Some r \<and> (\<forall>x. r = Returns x \<longrightarrow> (\<exists>v. objs v = [] \<and> x = mux_rc_alloc v h))"
  shows "sound_call R B (\<lambda>h :: 'z heap_scheme. ret_call R B h (m h))"
  unfolding sound_call_def
proof (intro allI impI)
  fix h :: "'z heap_scheme" assume i: "heap_inv h R (boxes_objs B)"
  then obtain r where r: "m h = Some r" "\<And>x. r = Returns x \<Longrightarrow> \<exists>v. objs v = [] \<and> x = mux_rc_alloc v h" using assms by blast
  show "yields (ret_call R B h (m h)) fst (\<lambda>r. boxes_objs (snd r))"
  proof (cases r)
    case (Panics msg)
    then show ?thesis using r(1) i by (simp add: ret_call_def yields_def)
  next
    case (Returns x)
    then obtain v where v: "objs v = []" "x = mux_rc_alloc v h" using r(2) by blast
    obtain q h' where q: "mux_rc_alloc v h = (q, h')" by fastforce
    show ?thesis using alloc_plain [OF i v(1)] r(1) Returns v(2) q by (simp add: ret_call_def yields_def)
  qed
qed

lemma value_add_plain: "value_add chk F a b = Returns v \<Longrightarrow> objs v = []"
  by (cases "(chk, F, a, b)" rule: value_add.cases) (auto simp: arith_def split: if_splits)

lemma map_rust_call_Returns: "map_rust_call f c = Returns y \<longleftrightarrow> (\<exists>x. c = Returns x \<and> y = f x)"
  by (cases c) auto

lemma mux_int_div_plain:
  assumes "mux_int_div i j h = Returns x" shows "\<exists>v. objs v = [] \<and> x = mux_rc_alloc v h"
proof -
  obtain r where r: "x = (case r of Inr i \<Rightarrow> mux_rc_alloc (VResult (Inr (VInt i))) h
                                  | Inl e \<Rightarrow> mux_rc_alloc (VResult (Inl (VString e))) h)"
    using assms by (auto simp: mux_int_div_def map_rust_call_Returns)
  have "x = mux_rc_alloc (VResult (map_sum VString VInt r)) h" using r by (cases r) simp_all
  moreover have "objs (VResult (map_sum VString VInt r)) = []" by (cases r) simp_all
  ultimately show ?thesis by blast
qed

lemma optional_some_yields:
  assumes "heap_inv h R T" "ref p R"
  shows "yields (mux_optional_some_value H p h) (\<lambda>q. own q R) (\<lambda>_. T)"
  using alloc_plain [OF assms(1), of "VOptional None"]
    deep_clone_into_yields [OF assms, of "\<lambda>x. VOptional (Some x)" Some H]
  by (simp add: mux_optional_some_value_def)

lemma new_tuple_yields:
  assumes "heap_inv h R T" "p \<in># R" "q \<in># R"
  shows "yields (mux_new_tuple H p q h) (\<lambda>_. R) (\<lambda>t. T + (mset (objs (fst t)) + mset (objs (snd t))))"
proof -
  obtain v w h1 where a: "deref p h = Some v" "clone_value H v h = (w, h1)" "heap_inv h1 R (T + mset (objs w))"
    using clone_arg [OF assms(1,2), of H] by metis
  obtain v' w' h2 where b: "deref q h1 = Some v'" "clone_value H v' h1 = (w', h2)"
    "heap_inv h2 R (T + mset (objs w) + mset (objs w'))"
    using clone_arg [OF a(3) assms(3), of H] by metis
  then show ?thesis using a by (simp add: mux_new_tuple_def yields_def add.assoc)
qed

lemma box_sub: "b \<in># B \<Longrightarrow> raw_objs b \<subseteq># boxes_objs B"
  by (auto dest!: multi_member_split)

lemma tuple_part_yields:
  assumes "heap_inv h R (boxes_objs (add_mset (RawTuple t) B))" "x = fst t \<or> x = snd t"
  shows "yields (Some (let (v, h1) = clone_value H x h in mux_rc_alloc v h1)) (\<lambda>q. own q R)
    (\<lambda>_. boxes_objs (add_mset (RawTuple t) B))"
  by (rule clone_alloc [OF assms(1), where wrap = "\<lambda>v. v"]) (use assms(2) in auto)

lemma value_call_sound: "value_call H chk F R B f \<Longrightarrow> sound_call R B f"
proof (induction rule: value_call.induct)
  case (18 R B i j)
  show ?case by (rule ret_call_sound) (use mux_int_div_plain in blast)
next
  case (22 p R B)
  then show ?case by (intro sound_ptr optional_some_yields)
next
  case (30 p R q B)
  have "\<exists>r. mux_value_add chk F p q h = Some r \<and> (\<forall>x. r = Returns x \<longrightarrow> (\<exists>v. objs v = [] \<and> x = mux_rc_alloc v h))"
    if "heap_inv h R (boxes_objs B)" for h :: "'a heap_scheme"
    using deref_owned [OF that 30(1)] deref_owned [OF that 30(2)]
    by (auto simp: mux_value_add_def map_rust_call_Returns) (blast dest: value_add_plain)
  then show ?case by (rule ret_call_sound)
next
  case (42 p R B)
  then show ?case by (intro sound_read) (auto simp: mux_value_to_string_def dest: ref_deref)
next
  case (43 p R q B)
  then show ?case by (intro sound_read) (rule compare_returns(1))
next
  case (44 p R q B)
  then show ?case by (intro sound_read) (rule compare_returns(2))
next
  case (45 p R q B)
  then show ?case by (intro sound_raw) (simp add: new_tuple_yields)
next
  case (46 R t B)
  have "yields (Some (mux_tuple_value t h)) (\<lambda>q. own q R) (\<lambda>_. boxes_objs B)"
    if "heap_inv h R (boxes_objs (add_mset (RawTuple t) B))" for h :: "'a heap_scheme"
    using alloc_yields [of h R "boxes_objs B" "VTuple (fst t) (snd t)"] that by (simp add: mux_tuple_value_def)
  then show ?case by (rule sound_ptr)
next
  case (47 R t B)
  show ?case unfolding mux_tuple_left_def by (intro sound_ptr tuple_part_yields) simp_all
next
  case (48 R t B)
  show ?case unfolding mux_tuple_right_def by (intro sound_ptr tuple_part_yields) simp_all
qed (unfold scalar_defs reader_defs wrapper_defs,
     ((rule sound_alloc, simp split: if_split; fail) | (rule sound_read_or, simp; fail) |
      (rule sound_ptr, rule clone_into_yields deep_clone_into_yields convert_yields;
       auto split: mux_value.splits option.splits sum.splits; fail))+)

subsection \<open>Containers and the whole machine\<close>

lemma clone_out:
  assumes "heap_inv h R T" "p = 0 \<or> p \<in># R"
  shows "yields (mux_value_get_list H p h) (\<lambda>_. R) (\<lambda>c. case c of None \<Rightarrow> T | Some xs \<Rightarrow> T + objs_of xs)"
    "yields (mux_value_get_set H p h) (\<lambda>_. R) (\<lambda>c. case c of None \<Rightarrow> T | Some xs \<Rightarrow> T + objs_of xs)"
    "yields (mux_value_get_map H p h) (\<lambda>_. R) (\<lambda>c. case c of None \<Rightarrow> T | Some es \<Rightarrow> T + entry_objs es)"
    "yields (mux_value_to_list H p h) (\<lambda>_. R) (\<lambda>c. case c of None \<Rightarrow> T | Some xs \<Rightarrow> T + objs_of xs)"
proof -
  have list: "yields (Some (let (ys, h1) = clone_list H xs h in (Some ys, h1))) (\<lambda>_. R)
      (\<lambda>c. case c of None \<Rightarrow> T | Some xs \<Rightarrow> T + objs_of xs)"
    if "set_mset (objs_of xs) \<subseteq> set_mset (held h + T)" for xs
    using clone_list_inv(1) [OF assms(1) that, of H] by (auto simp: yields_def split: prod.split)
  have map: "yields (Some (let (es', h1) = clone_entries H es h in (Some es', h1))) (\<lambda>_. R)
      (\<lambda>c. case c of None \<Rightarrow> T | Some xs \<Rightarrow> T + entry_objs xs)"
    if "set_mset (entry_objs es) \<subseteq> set_mset (held h + T)" for es
    using clone_entries_inv(1) [OF assms(1) that, of H] by (auto simp: yields_def split: prod.split)
  have sub: "set (objs v) \<subseteq> set_mset (held h + T)" if "deref p h = Some v" for v
    by (rule deref_objs [OF assms(1) that])
  have none: "yields (Some (None, h)) (\<lambda>_. R) (\<lambda>c. case c of None \<Rightarrow> T | Some x \<Rightarrow> f x)" for f :: "'x \<Rightarrow> object_ref multiset"
    using assms(1) by (simp add: yields_def)
  obtain v where v: "p = 0 \<or> deref p h = Some v" using deref_owned [OF assms(1)] assms(2) by blast
  show "yields (mux_value_get_list H p h) (\<lambda>_. R) (\<lambda>c. case c of None \<Rightarrow> T | Some xs \<Rightarrow> T + objs_of xs)"
    using v sub list none by (cases v) (auto simp: mux_value_get_list_def)
  show "yields (mux_value_get_set H p h) (\<lambda>_. R) (\<lambda>c. case c of None \<Rightarrow> T | Some xs \<Rightarrow> T + objs_of xs)"
    using v sub list none by (cases v) (auto simp: mux_value_get_set_def)
  show "yields (mux_value_get_map H p h) (\<lambda>_. R) (\<lambda>c. case c of None \<Rightarrow> T | Some es \<Rightarrow> T + entry_objs es)"
    using v sub map none by (cases v) (auto simp: mux_value_get_map_def)
  obtain w h1 where c: "clone_value H v h = (w, h1)" by fastforce
  have "heap_inv h1 R (T + mset (objs w))" if "p \<noteq> 0"
    using clone_inv_deref(1) [OF assms(1) _ c] v that by auto
  then show "yields (mux_value_to_list H p h) (\<lambda>_. R) (\<lambda>c. case c of None \<Rightarrow> T | Some xs \<Rightarrow> T + objs_of xs)"
    using v c none drop_inv [of h1 R T w] by (cases w) (auto simp: mux_value_to_list_def yields_def)
qed

lemma sound_get_raw:
  assumes "\<And>h. heap_inv h R (boxes_objs B) \<Longrightarrow>
      yields (m h) (\<lambda>_. R) (\<lambda>c. case c of None \<Rightarrow> boxes_objs B | Some x \<Rightarrow> boxes_objs B + raw_objs (wrap x))"
  shows "sound_call R B (\<lambda>h. ret_opt_raw wrap R B (m h))"
proof (rule sound_opt_raw)
  have eq: "(\<lambda>c. case c of None \<Rightarrow> boxes_objs B | Some x \<Rightarrow> boxes_objs B + raw_objs (wrap x)) =
      (\<lambda>c. boxes_objs (case c of None \<Rightarrow> B | Some x \<Rightarrow> add_mset (wrap x) B))" by (auto split: option.split)
  show "yields (m h) (\<lambda>_. R) (\<lambda>c. boxes_objs (case c of None \<Rightarrow> B | Some x \<Rightarrow> add_mset (wrap x) B))"
    if "heap_inv h R (boxes_objs B)" for h
    using assms [OF that] unfolding eq .
qed

lemma sound_combine:
  assumes "\<And>h h' out. heap_inv h R (boxes_objs B) \<Longrightarrow> m h = (out, h') \<Longrightarrow>
      \<exists>z. out = Some z \<and> heap_inv h' R (boxes_objs B + raw_objs (wrap z))"
  shows "sound_call R B (\<lambda>h. ret_opt_raw wrap R B (Some (m h)))"
proof (rule sound_get_raw)
  show "yields (Some (m h)) (\<lambda>_. R) (\<lambda>c. case c of None \<Rightarrow> boxes_objs B | Some x \<Rightarrow> boxes_objs B + raw_objs (wrap x))"
    if "heap_inv h R (boxes_objs B)" for h
    using assms [OF that, of "fst (m h)" "snd (m h)"] by (cases "m h") (auto simp: yields_def)
qed

lemma sound_free:
  "(\<And>h. f h = drop_value (raw_value b) h) \<Longrightarrow> sound_call R (add_mset b B) (\<lambda>h. Some ((R, B), f h))"
  by (auto simp: sound_call_def yields_def raw_objs_def intro: drop_inv)

lemma range_objs [simp]: "objs_of (mux_range a b) = {#}"
proof -
  have "objs_of (range_list a n) = {#}" for a n by (induction n arbitrary: a) simp_all
  then show ?thesis by (simp add: mux_range_def)
qed

lemma list_sub: "RawList xs \<in># B \<Longrightarrow> objs_of xs \<subseteq># boxes_objs B"
  using box_sub by fastforce

lemma list_call_sound: "list_call H R B f \<Longrightarrow> sound_call R B f"
proof (induction rule: list_call.induct)
  case (1 R B)
  show ?case by (rule sound_raw) (simp add: yields_def mux_new_list_def)
next
  case (2 R B a b)
  show ?case by (rule sound_raw) (simp add: yields_def)
next
  case (3 p R B)
  then show ?case by (intro sound_get_raw) (unfold boxes_simps, rule clone_out(1))
next
  case (4 p R B)
  then show ?case by (intro sound_get_raw) (unfold boxes_simps, rule clone_out(4))
next
  case (5 R xs B)
  show ?case unfolding mux_list_value_def by (rule sound_ptr, rule alloc_list) simp
next
  case (6 R xs B)
  show ?case by (rule sound_free) (simp add: mux_free_list_def)
next
  case (15 q R B xs)
  then show ?case by (intro sound_read) (auto simp: mux_list_contains_def dest: ref_deref)
next
  case (16 xs B ys R)
  then show ?case by (intro sound_combine) (simp, rule mux_list_concat_yields; simp add: list_sub)
next
  case (25 p R B)
  then show ?case by (intro sound_read) (auto simp: mux_value_list_length_def dest: ref_deref)
qed ((rule sound_ptr sound_done sound_raw sound_ptr_raw, simp add: safe_calls list_sub; fail) |
     (rule sound_ptr sound_done sound_raw sound_ptr_raw, rule safe_calls; simp add: list_sub; fail))+

lemma map_sub: "RawMap es \<in># B \<Longrightarrow> entry_objs es \<subseteq># boxes_objs B"
  using box_sub by fastforce

lemma set_sub: "RawSet xs \<in># B \<Longrightarrow> objs_of xs \<subseteq># boxes_objs B"
  using box_sub by fastforce

lemma map_call_sound: "map_call H R B f \<Longrightarrow> sound_call R B f"
proof (induction rule: map_call.induct)
  case (1 R B)
  show ?case by (rule sound_raw) (simp add: yields_def mux_new_map_def)
next
  case (2 p R B)
  then show ?case by (intro sound_get_raw) (unfold boxes_simps, rule clone_out(3))
next
  case (3 R es B)
  show ?case unfolding mux_map_value_def by (rule sound_ptr, rule alloc_map) simp
next
  case (4 R es B)
  show ?case by (rule sound_free) (simp add: mux_free_map_def)
next
  case (8 es B q R)
  then show ?case by (simp add: mux_map_contains_def sound_read_or)
next
  case (12 xs B ys R)
  then show ?case by (intro sound_combine) (simp, rule mux_map_merge_yields; simp add: map_sub)
qed ((rule sound_ptr sound_done sound_raw sound_ptr_raw, simp add: safe_calls map_sub; fail) |
     (rule sound_ptr sound_done sound_raw sound_ptr_raw, rule safe_calls; simp add: map_sub; fail))+

lemma set_call_sound: "set_call H R B f \<Longrightarrow> sound_call R B f"
proof (induction rule: set_call.induct)
  case (1 R B)
  show ?case by (rule sound_raw) (simp add: yields_def mux_new_set_def)
next
  case (2 p R B)
  then show ?case by (intro sound_get_raw) (unfold boxes_simps, rule clone_out(2))
next
  case (3 R xs B)
  show ?case unfolding mux_set_value_def by (rule sound_ptr, rule alloc_set) simp
next
  case (4 R xs B)
  show ?case by (rule sound_free) (simp add: mux_free_set_def)
next
  case (6 q R xs B)
  then show ?case by (intro sound_raw) (simp add: split_beta mux_set_remove_yields)
next
  case (7 q R B xs)
  then show ?case by (intro sound_read) (auto simp: mux_set_contains_def dest: ref_deref)
next
  case (9 xs B ys R)
  then show ?case by (intro sound_combine) (simp, rule mux_set_union_yields; simp add: set_sub)
qed ((rule sound_ptr sound_done sound_raw sound_ptr_raw, simp add: safe_calls set_sub; fail) |
     (rule sound_ptr sound_done sound_raw sound_ptr_raw, rule safe_calls; simp add: set_sub; fail))+

lemma mux_call_sound: "mux_call H chk F R B f \<Longrightarrow> sound_call R B f"
  unfolding mux_call_def
  by (auto intro: block_call_sound value_call_sound list_call_sound map_call_sound set_call_sound)

lemma reaches_inv:
  assumes "reaches H chk F h0 h R B" "heap_inv h0 {#} {#}" shows "heap_inv h R (boxes_objs B)"
  using assms
proof (induction rule: reaches.induct)
  case (call h R B f R' B' h')
  have "yields (f h) fst (\<lambda>r. boxes_objs (snd r))"
    using mux_call_sound [OF call.hyps(2)] call.IH call.prems by (simp add: sound_call_def)
  then show ?case using call.hyps(3) by (auto simp: yields_def)
qed simp

end
