(* ===== verification/Machine_Properties.thy ===== *)
theory Machine_Properties
  imports Runtime_Machine Value_Properties
begin

text \<open>What holds of every sequence of runtime calls a program can make.\<close>

subsection \<open>Releasing everything\<close>





subsection \<open>A concrete allocator\<close>

definition demo_buf :: "nat \<Rightarrow> u64" where
  "demo_buf i = (if i = 0 then 4096 else if i = 1 then 8192 else 0)"

lemma demo_buf_inj: "inj_on demo_buf {i. demo_buf i \<noteq> 0}"
  by (auto simp: inj_on_def demo_buf_def split: if_splits)


definition demo_heap :: heap where
  "demo_heap = heap_init (\<lambda>_. False) demo_buf"

lemma demo_heap_inv: "heap_inv demo_heap {#} {#}"
  unfolding demo_heap_def by (rule heap_inv_init [OF demo_buf_inj])



subsection \<open>Properties\<close>









end
