(* ===== verification/Closures.thy ===== *)
theory Closures
  imports Heap_Calls
begin

text \<open>
  Capture cells and closures (\<open>src/src/closure.rs\<close>). A cell is a reference count and the pointer of
  the value it stores; a closure is a reference count, the array of captured cells
  (\<^term>\<open>None\<close> for the null pointer) and the capture count written by the compiler. They extend the heap
  record. Reading a slot past the array is undefined behaviour, as is any access to a freed cell or
  closure.
\<close>

record closure =
  cl_refs :: int
  cl_captures :: "nat list option"
  cl_count :: int

record closure_heap = heap +
  ch_cells :: "nat \<rightharpoonup> int \<times> nat"
  ch_closures :: "nat \<rightharpoonup> closure"
  ch_next :: nat
  ch_oom :: "nat \<Rightarrow> bool"

definition mux_cell_alloc :: "nat \<Rightarrow> closure_heap \<Rightarrow> nat \<times> closure_heap" where
  "mux_cell_alloc initial h =
     (let base = ch_next h; h1 = h\<lparr>ch_next := base + 1\<rparr> in
      if ch_oom h base then (0, h1)
      else (base, h1\<lparr>ch_cells := (ch_cells h1)(base \<mapsto> (1, initial))\<rparr>))"

definition mux_cell_retain :: "nat \<Rightarrow> closure_heap \<Rightarrow> closure_heap option" where
  "mux_cell_retain cell h = (if cell = 0 then Some h
     else case ch_cells h cell of
       None \<Rightarrow> None
     | Some (n, v) \<Rightarrow> Some (h\<lparr>ch_cells := (ch_cells h)(cell \<mapsto> (n + 1, v))\<rparr>))"

definition mux_cell_release :: "nat \<Rightarrow> closure_heap \<Rightarrow> closure_heap option" where
  "mux_cell_release cell h = (if cell = 0 then Some h
     else case ch_cells h cell of
       None \<Rightarrow> None
     | Some (n, v) \<Rightarrow>
         let h1 = h\<lparr>ch_cells := (ch_cells h)(cell \<mapsto> (n - 1, v))\<rparr> in
         if n > 1 then Some h1
         else do {
           (_, h2) \<leftarrow> mux_rc_dec v h1;
           Some (h2\<lparr>ch_cells := (ch_cells h2)(cell := None)\<rparr>)
         })"

definition mux_closure_retain :: "nat \<Rightarrow> closure_heap \<Rightarrow> closure_heap option" where
  "mux_closure_retain c h = (if c = 0 then Some h
     else case ch_closures h c of
       None \<Rightarrow> None
     | Some cl \<Rightarrow> Some (h\<lparr>ch_closures := (ch_closures h)(c \<mapsto> cl\<lparr>cl_refs := cl_refs cl + 1\<rparr>)\<rparr>))"

fun release_slots :: "nat list \<Rightarrow> nat \<Rightarrow> nat \<Rightarrow> closure_heap \<Rightarrow> closure_heap option" where
  "release_slots slots i 0 h = Some h"
| "release_slots slots i (Suc n) h =
     (if i < length slots then Option.bind (mux_cell_release (slots ! i) h) (release_slots slots (i + 1) n) else None)"

definition mux_closure_release :: "nat \<Rightarrow> closure_heap \<Rightarrow> closure_heap option" where
  "mux_closure_release c h = (if c = 0 then Some h
     else case ch_closures h c of
       None \<Rightarrow> None
     | Some cl \<Rightarrow>
         let h1 = h\<lparr>ch_closures := (ch_closures h)(c \<mapsto> cl\<lparr>cl_refs := cl_refs cl - 1\<rparr>)\<rparr> in
         if cl_refs cl > 1 then Some h1
         else do {
           h2 \<leftarrow> (case cl_captures cl of
               None \<Rightarrow> Some h1
             | Some slots \<Rightarrow> release_slots slots 0 (nat (max (cl_count cl) 0)) h1);
           Some (h2\<lparr>ch_closures := (ch_closures h2)(c := None)\<rparr>)
         })"

subsection \<open>Ownership\<close>

text \<open>Pointers that are not null.\<close>

definition real :: "nat list \<Rightarrow> nat multiset" where
  "real ps = mset (filter (\<lambda>p. p \<noteq> 0) ps)"

definition captured :: "closure \<Rightarrow> nat list" where
  "captured cl = (case cl_captures cl of None \<Rightarrow> [] | Some slots \<Rightarrow> slots)"

definition well_formed :: "closure \<Rightarrow> bool" where
  "well_formed cl \<longleftrightarrow> (\<forall>slots. cl_captures cl = Some slots \<longrightarrow> nat (max (cl_count cl) 0) = length slots)"

text \<open>The cells held by closures and the values held by cells.\<close>

definition msum :: "('b \<Rightarrow> 'c multiset) \<Rightarrow> (nat \<rightharpoonup> 'b) \<Rightarrow> 'c multiset" where
  "msum f m = (\<Sum>c\<in>dom m. f (the (m c)))"

definition caps :: "(nat \<rightharpoonup> closure) \<Rightarrow> nat multiset" where
  "caps = msum (\<lambda>cl. real (captured cl))"

definition vals :: "(nat \<rightharpoonup> int \<times> nat) \<Rightarrow> nat multiset" where
  "vals = msum (\<lambda>x. real [snd x])"

text \<open>
  The program owns references to blocks, cells and closures. Every count is the number of owners,
  the program, the closures and the cells together.
\<close>

definition cells_ok :: "closure_heap \<Rightarrow> nat multiset \<Rightarrow> bool" where
  "cells_ok h C \<longleftrightarrow> 0 < ch_next h \<and> (\<forall>c \<in># C. 0 < c \<and> c < ch_next h) \<and> dom (ch_cells h) = set_mset C \<and>
     (\<forall>c n v. ch_cells h c = Some (n, v) \<longrightarrow> n = int (count C c))"

definition closures_ok :: "closure_heap \<Rightarrow> nat multiset \<Rightarrow> bool" where
  "closures_ok h K \<longleftrightarrow> 0 \<notin># K \<and> dom (ch_closures h) = set_mset K \<and>
     (\<forall>c cl. ch_closures h c = Some cl \<longrightarrow> cl_refs cl = int (count K c) \<and> well_formed cl)"

definition cell_inv :: "closure_heap \<Rightarrow> nat multiset \<Rightarrow> nat multiset \<Rightarrow> object_ref multiset \<Rightarrow> bool" where
  "cell_inv h R C T \<longleftrightarrow> heap_inv h (R + vals (ch_cells h)) T \<and> cells_ok h C"

definition closure_inv :: "closure_heap \<Rightarrow> nat multiset \<Rightarrow> nat multiset \<Rightarrow> nat multiset \<Rightarrow> object_ref multiset \<Rightarrow> bool" where
  "closure_inv h R C K T \<longleftrightarrow> cell_inv h R (C + caps (ch_closures h)) T \<and> closures_ok h K"

lemma real_simps [simp]: "real [] = {#}" "real (p # ps) = (if p = 0 then real ps else add_mset p (real ps))"
  by (simp_all add: real_def)

lemma msum_simps:
  assumes "finite (dom m)"
  shows "m k = None \<Longrightarrow> msum f (m(k \<mapsto> x)) = f x + msum f m"
    "m k = Some y \<Longrightarrow> msum f m = f y + msum f (m(k := None))"
    "m k = Some y \<Longrightarrow> f x = f y \<Longrightarrow> msum f (m(k \<mapsto> x)) = msum f m"
proof -
  have *: "(\<Sum>c\<in>dom m - {k}. f (the ((m(k := z)) c))) = (\<Sum>c\<in>dom m - {k}. f (the (m c)))" for z
    by (rule sum.cong) auto
  show "m k = None \<Longrightarrow> msum f (m(k \<mapsto> x)) = f x + msum f m"
    using assms * [of "Some x"] by (simp add: msum_def insert_absorb sum.insert_remove domIff)
  show "m k = Some y \<Longrightarrow> msum f m = f y + msum f (m(k := None))"
    using assms * [of None] by (simp add: msum_def sum.remove [of "dom m" k] domI)
  show "m k = Some y \<Longrightarrow> f x = f y \<Longrightarrow> msum f (m(k \<mapsto> x)) = msum f m"
    unfolding msum_def by (rule sum.cong) (auto simp: domI)
qed

subsection \<open>The rest of the record\<close>

lemma release_more [simp]: "heap.more (release_obj obj h) = heap.more h"
  by (simp add: release_obj_def drop_object_data_def call_object_destructor_def Let_def split: option.split)

lemma release_all_more [simp]: "heap.more (fold release_obj os h) = heap.more h"
  by (induction os arbitrary: h) simp_all

lemma drop_more [simp]: "heap.more (drop_value v h) = heap.more h"
  by (simp add: drop_value_def)

lemma dec_frame:
  assumes "mux_rc_dec p h = Some (b, h')" shows "heap.more h' = heap.more h"
  using assms by (auto simp: mux_rc_dec_def Let_def split: if_splits option.splits)

lemma more_fields:
  "heap.more h' = heap.more (h :: closure_heap) \<Longrightarrow>
     ch_cells h' = ch_cells h \<and> ch_closures h' = ch_closures h \<and> ch_next h' = ch_next h \<and> ch_oom h' = ch_oom h"
  by (cases h; cases h') simp

lemma inv_fields [simp]:
  fixes h :: closure_heap
  shows "heap_inv (h\<lparr>ch_cells := x\<rparr>) R T = heap_inv h R T" "heap_inv (h\<lparr>ch_closures := y\<rparr>) R T = heap_inv h R T"
    "heap_inv (h\<lparr>ch_next := z\<rparr>) R T = heap_inv h R T"
  by (simp_all add: heap_inv_def heap_ok_def buffers_ok_def handed_out_def held_def rc_of_def [abs_def])

subsection \<open>Cells\<close>

lemma cells_okD:
  assumes "cells_ok h C"
  shows "finite (dom (ch_cells h))" "c \<in># C \<Longrightarrow> c \<noteq> 0 \<and> (\<exists>v. ch_cells h c = Some (int (count C c), v))"
    "ch_cells h (ch_next h) = None" "0 < ch_next h" "ch_cells h c = Some (n, v) \<Longrightarrow> n = int (count C c) \<and> c \<in># C"
proof -
  have d: "dom (ch_cells h) = set_mset C" using assms by (simp add: cells_ok_def)
  show "finite (dom (ch_cells h))" by (simp add: d)
  show "ch_cells h (ch_next h) = None" "0 < ch_next h" using assms d unfolding cells_ok_def by blast+
  show "ch_cells h c = Some (n, v) \<Longrightarrow> n = int (count C c) \<and> c \<in># C" using assms d unfolding cells_ok_def by blast
  show "c \<in># C \<Longrightarrow> c \<noteq> 0 \<and> (\<exists>v. ch_cells h c = Some (int (count C c), v))"
    using assms d unfolding cells_ok_def by (metis domD less_irrefl surj_pair)
qed

lemma cells_ok_fresh:
  assumes "cells_ok h C"
  shows "cells_ok (h\<lparr>ch_next := ch_next h + 1, ch_cells := (ch_cells h)(ch_next h \<mapsto> (1, v))\<rparr>) (add_mset (ch_next h) C)"
proof -
  have "ch_next h \<notin># C" using cells_okD(2) [OF assms, of "ch_next h"] cells_okD(3) [OF assms] by auto
  then have "count C (ch_next h) = 0" by (simp add: count_eq_zero_iff)
  then show ?thesis using assms unfolding cells_ok_def by (auto simp: less_Suc_eq)
qed

lemma cells_ok_count:
  assumes "cells_ok h C" "ch_cells h c = Some (n, v)" "c \<in># C'" "\<forall>x. x \<noteq> c \<longrightarrow> count C' x = count C x"
  shows "cells_ok (h\<lparr>ch_cells := (ch_cells h)(c \<mapsto> (int (count C' c), v))\<rparr>) C'"
proof -
  have c: "c \<in># C" using cells_okD(5) [OF assms(1,2)] by simp
  have s: "set_mset C' = set_mset C"
    using assms(3,4) c by (metis count_greater_zero_iff equalityI subsetI)
  show ?thesis using assms(1,4) c unfolding cells_ok_def s by auto
qed

lemma cells_ok_free:
  assumes "cells_ok h (add_mset c C)" "c \<notin># C"
  shows "cells_ok (h\<lparr>ch_cells := (ch_cells h)(c := None)\<rparr>) C"
  using assms unfolding cells_ok_def by (auto simp: split: if_splits)

lemma cell_alloc_inv:
  assumes "cell_inv h (R + real [v]) C T" "mux_cell_alloc v h = (c, h')" "c \<noteq> 0"
  shows "cell_inv h' R (add_mset c C) T" "ch_closures h' = ch_closures h"
proof -
  have i: "heap_inv h (R + real [v] + vals (ch_cells h)) T" "cells_ok h C"
    using assms(1) by (simp_all add: cell_inv_def)
  have c: "c = ch_next h" and h': "h' = h\<lparr>ch_next := ch_next h + 1, ch_cells := (ch_cells h)(ch_next h \<mapsto> (1, v))\<rparr>"
    using assms(2,3) by (auto simp: mux_cell_alloc_def Let_def split: if_splits)
  note d = cells_okD [OF i(2)]
  have "vals (ch_cells h') = real [v] + vals (ch_cells h)"
    unfolding vals_def h' using msum_simps(1) [OF d(1) d(3), of "\<lambda>x. real [snd x]" "(1, v)"] by simp
  moreover have "heap_inv h' X T = heap_inv h X T" for X by (simp add: h')
  moreover have "cells_ok h' (add_mset c C)" using cells_ok_fresh [OF i(2), of v] by (simp only: h' c)
  ultimately show "cell_inv h' R (add_mset c C) T" using i(1) by (simp add: cell_inv_def ac_simps)
  show "ch_closures h' = ch_closures h" by (simp add: h')
qed

text \<open>Changing the count of a live cell keeps the values that cells hold.\<close>

lemma cell_count_inv:
  assumes "cell_inv h R C T" "ch_cells h c = Some (n, v)" "c \<in># C'" "\<forall>x. x \<noteq> c \<longrightarrow> count C' x = count C x"
  shows "cell_inv (h\<lparr>ch_cells := (ch_cells h)(c \<mapsto> (int (count C' c), v))\<rparr>) R C' T"
proof -
  have i: "heap_inv h (R + vals (ch_cells h)) T" "cells_ok h C" using assms(1) by (simp_all add: cell_inv_def)
  have "vals ((ch_cells h)(c \<mapsto> (int (count C' c), v))) = vals (ch_cells h)"
    unfolding vals_def using msum_simps(3) [OF cells_okD(1) [OF i(2)] assms(2), of "\<lambda>x. real [snd x]"] by simp
  then show ?thesis using i(1) cells_ok_count [OF i(2) assms(2-4)] by (simp add: cell_inv_def)
qed

lemma cell_retain_inv:
  assumes "cell_inv h R C T" "c = 0 \<or> c \<in># C"
  shows "\<exists>h'. mux_cell_retain c h = Some h' \<and> cell_inv h' R (own c C) T \<and> ch_closures h' = ch_closures h"
proof (cases "c = 0")
  case True
  then show ?thesis using assms(1) by (simp add: mux_cell_retain_def own_def)
next
  case False
  have "cells_ok h C" using assms(1) by (simp add: cell_inv_def)
  from cells_okD(2) [OF this] obtain v where v: "ch_cells h c = Some (int (count C c), v)" using assms(2) False by blast
  have "cell_inv (h\<lparr>ch_cells := (ch_cells h)(c \<mapsto> (int (count C c) + 1, v))\<rparr>) R (add_mset c C) T"
    using cell_count_inv [OF assms(1) v, of "add_mset c C"] by (simp add: ac_simps)
  then show ?thesis using False v by (simp add: mux_cell_retain_def own_def)
qed

text \<open>Releasing one reference; the last one releases the stored value and frees the cell.\<close>

lemma last_cell_inv:
  assumes "cell_inv h R (add_mset c C) T" "c \<notin># C" "ch_cells h c = Some (1, v)"
  shows "\<exists>h'. mux_cell_release c h = Some h' \<and> cell_inv h' R C T \<and> ch_closures h' = ch_closures h"
proof -
  have i: "heap_inv h (R + vals (ch_cells h)) T" "cells_ok h (add_mset c C)"
    using assms(1) by (simp_all add: cell_inv_def)
  let ?h1 = "h\<lparr>ch_cells := (ch_cells h)(c \<mapsto> (0, v))\<rparr>"
  have vs: "vals (ch_cells h) = real [v] + vals ((ch_cells h)(c := None))"
    unfolding vals_def using msum_simps(2) [OF cells_okD(1) [OF i(2)] assms(3), of "\<lambda>x. real [snd x]"] by simp
  have "heap_inv ?h1 (R + vals (ch_cells h)) T" using i(1) by simp
  then obtain b h2 where r: "mux_rc_dec v ?h1 = Some (b, h2)" "heap_inv h2 (R + vals (ch_cells h) - {#v#}) T"
    by (rule dec_inv [where p = v]) (use vs in auto)
  have m: "ch_cells h2 = ch_cells ?h1" "ch_closures h2 = ch_closures h" "ch_next h2 = ch_next h"
    using more_fields [OF dec_frame [OF r(1)]] by simp_all
  let ?h3 = "h2\<lparr>ch_cells := (ch_cells h2)(c := None)\<rparr>"
  have cells: "ch_cells ?h3 = (ch_cells h)(c := None)" using m by simp
  have "0 \<notin># R + vals (ch_cells h)" using heap_okD(3) [of h "R + vals (ch_cells h)" T] i(1) by (simp add: heap_inv_def)
  then have "R + vals (ch_cells h) - {#v#} = R + vals (ch_cells ?h3)"
    using vs cells by (cases "v = 0") (simp_all add: diff_single_trivial)
  then have "heap_inv ?h3 (R + vals (ch_cells ?h3)) T" using r(2) by simp
  moreover have "cells_ok ?h3 C" using cells_ok_free [OF i(2) assms(2)] m by (simp add: cells_ok_def)
  moreover have "c \<noteq> 0" using cells_okD(2) [OF i(2), of c] by simp
  ultimately show ?thesis using assms(3) r(1) m by (simp add: mux_cell_release_def cell_inv_def)
qed

lemma cell_release_inv:
  assumes "cell_inv h R (C + real [c]) T"
  shows "\<exists>h'. mux_cell_release c h = Some h' \<and> cell_inv h' R C T \<and> ch_closures h' = ch_closures h"
proof (cases "c = 0")
  case True
  then show ?thesis using assms by (simp add: mux_cell_release_def)
next
  case False
  then have i: "cell_inv h R (add_mset c C) T" using assms by simp
  then obtain v where v: "ch_cells h c = Some (int (count C c) + 1, v)"
    using cells_okD(2) [of h "add_mset c C" c] by (auto simp: cell_inv_def ac_simps)
  show ?thesis
  proof (cases "c \<in># C")
    case True
    have "cell_inv (h\<lparr>ch_cells := (ch_cells h)(c \<mapsto> (int (count C c), v))\<rparr>) R C T"
      by (rule cell_count_inv [OF i v True]) simp
    moreover have "0 < count C c" using True by simp
    ultimately show ?thesis using False v by (simp add: mux_cell_release_def)
  next
    case last: False
    then show ?thesis using last_cell_inv [OF i last, of v] v by (simp add: not_in_iff)
  qed
qed

subsection \<open>Closures\<close>

lemma release_slots_inv:
  "cell_inv h R (C + real (drop i slots)) T \<Longrightarrow> n = length slots - i \<Longrightarrow> i \<le> length slots \<Longrightarrow>
     \<exists>h'. release_slots slots i n h = Some h' \<and> cell_inv h' R C T \<and> ch_closures h' = ch_closures h"
proof (induction n arbitrary: i h)
  case (Suc n)
  then have l: "i < length slots" by simp
  have "cell_inv h R (C + real (drop (Suc i) slots) + real [slots ! i]) T"
    using Suc.prems(1) Cons_nth_drop_Suc [OF l, symmetric] by (simp add: ac_simps split: if_splits)
  from cell_release_inv [OF this] obtain h1 where
    h1: "mux_cell_release (slots ! i) h = Some h1" "cell_inv h1 R (C + real (drop (Suc i) slots)) T" "ch_closures h1 = ch_closures h"
    by blast
  have n: "n = length slots - Suc i" using Suc.prems(2) by simp
  obtain h' where "release_slots slots (Suc i) n h1 = Some h'" "cell_inv h' R C T" "ch_closures h' = ch_closures h1"
    using Suc.IH [OF h1(2) n] l by auto
  then show ?case using h1(1,3) l by simp
qed simp

lemma closures_okD:
  assumes "closures_ok h K"
  shows "finite (dom (ch_closures h))"
    "c \<in># K \<Longrightarrow> \<exists>cl. ch_closures h c = Some cl \<and> cl_refs cl = int (count K c) \<and> well_formed cl"
    "c \<in># K \<Longrightarrow> c \<noteq> 0"
proof -
  have d: "dom (ch_closures h) = set_mset K" using assms by (simp add: closures_ok_def)
  show "finite (dom (ch_closures h))" by (simp add: d)
  show "c \<in># K \<Longrightarrow> \<exists>cl. ch_closures h c = Some cl \<and> cl_refs cl = int (count K c) \<and> well_formed cl"
    using assms d unfolding closures_ok_def by (metis domD)
  show "c \<in># K \<Longrightarrow> c \<noteq> 0" using assms by (auto simp: closures_ok_def)
qed

text \<open>Changing the count of a live closure.\<close>

lemma closure_count_inv:
  assumes "closure_inv h R C K T" "ch_closures h c = Some cl" "c \<in># K'" "\<forall>x. x \<noteq> c \<longrightarrow> count K' x = count K x"
  shows "closure_inv (h\<lparr>ch_closures := (ch_closures h)(c \<mapsto> cl\<lparr>cl_refs := int (count K' c)\<rparr>)\<rparr>) R C K' T"
proof -
  have i: "cell_inv h R (C + caps (ch_closures h)) T" "closures_ok h K" using assms(1) by (simp_all add: closure_inv_def)
  have c: "c \<in># K" using i(2) assms(2) by (auto simp: closures_ok_def)
  have s: "set_mset K' = set_mset K" using assms(3,4) c by (metis count_greater_zero_iff equalityI subsetI)
  have "caps ((ch_closures h)(c \<mapsto> cl\<lparr>cl_refs := int (count K' c)\<rparr>)) = caps (ch_closures h)"
    unfolding caps_def
    by (rule msum_simps(3) [OF closures_okD(1) [OF i(2)] assms(2)]) (simp add: captured_def)
  moreover have "cell_inv (h\<lparr>ch_closures := m\<rparr>) R X T = cell_inv h R X T" for m X
    by (simp add: cell_inv_def cells_ok_def)
  moreover have "closures_ok (h\<lparr>ch_closures := (ch_closures h)(c \<mapsto> cl\<lparr>cl_refs := int (count K' c)\<rparr>)\<rparr>) K'"
    using i(2) assms(2,4) c unfolding closures_ok_def s by (auto simp: well_formed_def)
  ultimately show ?thesis using i(1) by (simp add: closure_inv_def)
qed

lemma closure_retain_inv:
  assumes "closure_inv h R C K T" "c = 0 \<or> c \<in># K"
  shows "\<exists>h'. mux_closure_retain c h = Some h' \<and> closure_inv h' R C (own c K) T"
proof (cases "c = 0")
  case True
  then show ?thesis using assms(1) by (simp add: mux_closure_retain_def own_def)
next
  case False
  then obtain cl where cl: "ch_closures h c = Some cl" "cl_refs cl = int (count K c)"
    using assms closures_okD(2) [of h K c] by (auto simp: closure_inv_def)
  have n: "int (count (add_mset c K) c) = cl_refs cl + 1" using cl(2) by simp
  have "closure_inv (h\<lparr>ch_closures := (ch_closures h)(c \<mapsto> cl\<lparr>cl_refs := cl_refs cl + 1\<rparr>)\<rparr>) R C (add_mset c K) T"
    using closure_count_inv [OF assms(1) cl(1), of "add_mset c K"] unfolding n by simp
  then show ?thesis using False cl(1) by (simp add: mux_closure_retain_def own_def)
qed

lemma last_closure_inv:
  assumes "closure_inv h R C (add_mset c K) T" "c \<notin># K"
  shows "\<exists>h'. mux_closure_release c h = Some h' \<and> closure_inv h' R C K T"
proof -
  have i: "cell_inv h R (C + caps (ch_closures h)) T" "closures_ok h (add_mset c K)"
    using assms(1) by (simp_all add: closure_inv_def)
  obtain cl where cl: "ch_closures h c = Some cl" "cl_refs cl = 1" "well_formed cl"
    using closures_okD(2) [OF i(2), of c] assms(2) by (auto simp: count_eq_zero_iff [symmetric])
  let ?m = "(ch_closures h)(c := None)"
  have cs: "caps (ch_closures h) = real (captured cl) + caps ?m"
    unfolding caps_def by (rule msum_simps(2) [OF closures_okD(1) [OF i(2)] cl(1)])
  let ?h1 = "h\<lparr>ch_closures := (ch_closures h)(c \<mapsto> cl\<lparr>cl_refs := 0\<rparr>)\<rparr>"
  have upd: "cell_inv (h\<lparr>ch_closures := m\<rparr>) R X T = cell_inv h R X T" for h m X
    by (simp add: cell_inv_def cells_ok_def)
  have h1: "cell_inv ?h1 R (C + caps ?m + real (captured cl)) T" using i(1) cs by (simp add: upd ac_simps)
  have "\<exists>h2. (case cl_captures cl of None \<Rightarrow> Some ?h1
        | Some slots \<Rightarrow> release_slots slots 0 (nat (max (cl_count cl) 0)) ?h1) = Some h2 \<and>
      cell_inv h2 R (C + caps ?m) T \<and> ch_closures h2 = ch_closures ?h1"
    using h1 release_slots_inv [of ?h1 R "C + caps ?m" 0] cl(3)
    by (cases "cl_captures cl") (auto simp: captured_def well_formed_def)
  then obtain h2 where h2: "(case cl_captures cl of None \<Rightarrow> Some ?h1
        | Some slots \<Rightarrow> release_slots slots 0 (nat (max (cl_count cl) 0)) ?h1) = Some h2"
      "cell_inv h2 R (C + caps ?m) T" "ch_closures h2 = ch_closures ?h1" by blast
  let ?h3 = "h2\<lparr>ch_closures := (ch_closures h2)(c := None)\<rparr>"
  have m: "ch_closures ?h3 = ?m" using h2(3) by simp
  have "closures_ok ?h3 K"
    using i(2) assms(2) unfolding closures_ok_def m by (auto split: if_splits)
  then have "closure_inv ?h3 R C K T" using h2(2) unfolding closure_inv_def m by (simp add: upd)
  moreover have "mux_closure_release c h = Some ?h3"
    using cl h2(1) closures_okD(3) [OF i(2), of c] by (simp add: mux_closure_release_def)
  ultimately show ?thesis by blast
qed

lemma closure_release_inv:
  assumes "closure_inv h R C (K + real [c]) T"
  shows "\<exists>h'. mux_closure_release c h = Some h' \<and> closure_inv h' R C K T"
proof (cases "c = 0")
  case True
  then show ?thesis using assms by (simp add: mux_closure_release_def)
next
  case False
  then have i: "closure_inv h R C (add_mset c K) T" using assms by simp
  then obtain cl where cl: "ch_closures h c = Some cl" "cl_refs cl = int (count K c) + 1"
    using closures_okD(2) [of h "add_mset c K" c] by (auto simp: closure_inv_def)
  show ?thesis
  proof (cases "c \<in># K")
    case True
    then have "0 < count K c" by simp
    then show ?thesis using closure_count_inv [OF i cl(1) True] False cl by (simp add: mux_closure_release_def)
  next
    case last: False
    then show ?thesis by (rule last_closure_inv [OF i])
  qed
qed

end
