(* ===== verification/Closure_Properties.thy ===== *)
theory Closure_Properties
  imports Closures
begin












subsection \<open>Properties\<close>



subsection \<open>A concrete run\<close>








end
