(* ===== verification/Byte_Order.thy ===== *)
theory Byte_Order
  imports Prelude
begin

text \<open>
  Integers as bytes, least significant first, as \<open>to_le_bytes\<close> and \<open>from_le_bytes\<close> have them and as
  \<open>to_ne_bytes\<close> and a cast pointer have them on the little-endian targets of the runtime.
\<close>

primrec le_bytes :: "nat \<Rightarrow> int \<Rightarrow> u8 list" where
  "le_bytes 0 x = []"
| "le_bytes (Suc n) x = word_of_int x # le_bytes n (x div 256)"

primrec le_unsigned :: "u8 list \<Rightarrow> int" where
  "le_unsigned [] = 0"
| "le_unsigned (b # bs) = uint b + 256 * le_unsigned bs"

text \<open>Reading an \<open>i64\<close> through a pointer; fewer than eight initialised bytes are undefined.\<close>

definition load_i64 :: "u8 list \<Rightarrow> int option" where
  "load_i64 bs = (if length bs < 8 then None else Some (wrap_i64 (le_unsigned (take 8 bs))))"

lemma length_le_bytes [simp]: "length (le_bytes n x) = n"
  by (induction n arbitrary: x) simp_all

lemma uint_byte: "uint (word_of_int x :: u8) = x mod 256"
  by (simp add: uint_word_of_int)

lemma le_unsigned_bytes: "le_unsigned (le_bytes n x) = x mod 256 ^ n"
proof (induction n arbitrary: x)
  case (Suc n)
  have "x mod (256 * 256 ^ n) = 256 * (x div 256 mod 256 ^ n) + x mod 256"
    by (rule zmod_zmult2_eq) simp
  then show ?case using Suc by (simp add: uint_byte)
qed simp

lemma le_bytes_unsigned: "le_bytes (length bs) (le_unsigned bs) = bs"
proof (induction bs)
  case (Cons b bs)
  have b: "0 \<le> uint b" "uint b < 256" using uint_bounded [of b] by simp_all
  have "word_of_int (uint b + 256 * le_unsigned bs) = b"
    by (rule word_uint_eqI, unfold uint_byte) (use b in simp)
  moreover have "(uint b + 256 * le_unsigned bs) div 256 = le_unsigned bs" using b by simp
  ultimately show ?case using Cons by simp
qed simp

lemma wrap_i64_mod: "wrap_i64 (x mod 2 ^ 64) = wrap_i64 x"
  by (simp add: wrap_i64_def mod_simps)

lemma load_stored: "in_i64 x \<Longrightarrow> load_i64 (le_bytes 8 x) = Some x"
  using wrap_i64_mod [of x] by (simp add: load_i64_def le_unsigned_bytes wrap_i64_id)

end
