(* ===== verification/Error_Kinds.thy ===== *)
theory Error_Kinds
  imports Byte_Order
begin

text \<open>
  The error categories of \<open>src/src/std.rs\<close>: the shared taxonomy \<open>StdErrorKind\<close>, and for each of the
  twenty error types its own enum of categories. The variants of all these enums share the type
  \<open>error_kind\<close>; an enum is the list of its variants in the order of their discriminants, each with
  the text its \<open>as_str\<close> gives.
\<close>

subsection \<open>Categories\<close>

datatype std_error_kind = StdInvalid | StdParse | StdIo | StdOs | StdTimeout | StdUnsupported
    | StdNotFound | StdPermission | StdResolve | StdOverflow | StdRange | StdProtocol
    | StdCertificate | StdHandshake | StdCapture | StdAuthentication | StdState | StdLogger
    | StdStatus | StdTransport | StdCallback | StdConfig | StdNotUnicode | StdSpawn | StdClosed
    | StdDomain | StdMatch

datatype error_kind = KInvalid | KParse | KType | KMissing | KDuplicate | KLimit | KIo | KRange
    | KOverflow | KDivideByZero | KShift | KBounds | KUtf8 | KNotUnicode | KOs | KNotFound
    | KPermission | KClosed | KTimeout | KResolve | KUnsupported | KDomain | KSpawn | KState
    | KHandshake | KCertificate | KProtocol | KFormat | KSystem | KAuthentication | KMatch
    | KCapture | KConfig | KCallback

datatype error_family = JsonError | CsvError | ByteError | BytesError | EnvError | FsError
    | IoError | NetError | UrlError | UuidError | MathError | ProcessError | TlsError
    | DateTimeError | CliError | CryptoError | RegexError | RandomError | LogError | SyncError

text \<open>What distinguishes one error type from another.\<close>

record error_spec =
  es_type_name :: string
  es_kinds :: "(error_kind \<times> string) list"
  es_from_std_kind :: "std_error_kind \<Rightarrow> error_kind"
  es_default :: std_error_kind  \<comment> \<open>of an error made from a message\<close>
  es_invalid_detail :: string
  es_alloc_failed :: string
  es_invalid_handle :: string
  es_eager :: bool  \<comment> \<open>readers resolve the type before they look at the pointer\<close>

subsection \<open>The error types\<close>

definition json_error :: error_spec where
  "json_error = \<lparr> es_type_name = ''JsonError'',
     es_kinds = [(KInvalid, ''invalid''), (KParse, ''parse''), (KType, ''type''),
     (KMissing, ''missing''), (KDuplicate, ''duplicate''), (KLimit, ''limit''), (KIo, ''io'')],
     es_from_std_kind = (\<lambda>kind. case kind of StdInvalid \<Rightarrow> KInvalid
    | StdRange \<Rightarrow> KLimit | StdOverflow \<Rightarrow> KLimit | StdIo \<Rightarrow> KIo
    | StdOs \<Rightarrow> KIo | StdNotUnicode \<Rightarrow> KParse | _ \<Rightarrow> KParse),
     es_default = StdParse, es_invalid_detail = ''invalid JSON error detail'',
     es_alloc_failed = ''could not allocate JsonError'',
     es_invalid_handle = ''invalid JsonError handle'', es_eager = True \<rparr>"

definition csv_error :: error_spec where
  "csv_error = \<lparr> es_type_name = ''CsvError'',
     es_kinds = [(KInvalid, ''invalid''), (KParse, ''parse''), (KType, ''type''),
     (KLimit, ''limit''), (KIo, ''io'')],
     es_from_std_kind = (\<lambda>kind. case kind of StdInvalid \<Rightarrow> KInvalid
    | StdRange \<Rightarrow> KLimit | StdOverflow \<Rightarrow> KLimit | StdIo \<Rightarrow> KIo
    | StdOs \<Rightarrow> KIo | StdNotUnicode \<Rightarrow> KParse | _ \<Rightarrow> KParse),
     es_default = StdParse, es_invalid_detail = ''invalid CSV error detail'',
     es_alloc_failed = ''could not allocate CsvError'',
     es_invalid_handle = ''invalid CsvError handle'', es_eager = True \<rparr>"

definition byte_error :: error_spec where
  "byte_error = \<lparr> es_type_name = ''ByteError'',
     es_kinds = [(KInvalid, ''invalid''), (KParse, ''parse''), (KRange, ''range''),
     (KOverflow, ''overflow''), (KDivideByZero, ''divide_by_zero''), (KShift, ''shift''),
     (KIo, ''io'')],
     es_from_std_kind = (\<lambda>kind. case kind of StdInvalid \<Rightarrow> KInvalid
    | StdRange \<Rightarrow> KRange | StdOverflow \<Rightarrow> KRange | StdIo \<Rightarrow> KIo
    | StdOs \<Rightarrow> KIo | StdNotUnicode \<Rightarrow> KParse | _ \<Rightarrow> KParse),
     es_default = StdParse, es_invalid_detail = ''invalid byte error detail'',
     es_alloc_failed = ''could not allocate ByteError'',
     es_invalid_handle = ''invalid ByteError handle'', es_eager = True \<rparr>"

definition bytes_error :: error_spec where
  "bytes_error = \<lparr> es_type_name = ''BytesError'',
     es_kinds = [(KInvalid, ''invalid''), (KParse, ''parse''), (KRange, ''range''),
     (KOverflow, ''overflow''), (KBounds, ''bounds''), (KUtf8, ''utf8''), (KIo, ''io'')],
     es_from_std_kind = (\<lambda>kind. case kind of StdInvalid \<Rightarrow> KInvalid
    | StdRange \<Rightarrow> KRange | StdOverflow \<Rightarrow> KRange | StdIo \<Rightarrow> KIo
    | StdOs \<Rightarrow> KIo | StdNotUnicode \<Rightarrow> KUtf8 | _ \<Rightarrow> KParse),
     es_default = StdParse, es_invalid_detail = ''invalid bytes error detail'',
     es_alloc_failed = ''could not allocate BytesError'',
     es_invalid_handle = ''invalid BytesError handle'', es_eager = True \<rparr>"

definition env_error :: error_spec where
  "env_error = \<lparr> es_type_name = ''EnvError'',
     es_kinds = [(KInvalid, ''invalid''), (KNotUnicode, ''not_unicode''), (KOs, ''os'')],
     es_from_std_kind = (\<lambda>kind. case kind of StdInvalid \<Rightarrow> KInvalid
    | StdNotUnicode \<Rightarrow> KNotUnicode | _ \<Rightarrow> KOs),
     es_default = StdOs, es_invalid_detail = ''invalid environment error detail'',
     es_alloc_failed = ''could not allocate environment error'',
     es_invalid_handle = ''invalid EnvError handle'', es_eager = False \<rparr>"

definition fs_error :: error_spec where
  "fs_error = \<lparr> es_type_name = ''FsError'',
     es_kinds = [(KInvalid, ''invalid''), (KIo, ''io''), (KNotFound, ''not_found''),
     (KPermission, ''permission''), (KNotUnicode, ''not_unicode''), (KOs, ''os'')],
     es_from_std_kind = (\<lambda>kind. case kind of StdInvalid \<Rightarrow> KInvalid
    | StdNotFound \<Rightarrow> KNotFound | StdPermission \<Rightarrow> KPermission
    | StdNotUnicode \<Rightarrow> KNotUnicode | StdIo \<Rightarrow> KIo | _ \<Rightarrow> KOs),
     es_default = StdIo, es_invalid_detail = ''invalid filesystem error detail'',
     es_alloc_failed = ''could not allocate filesystem error'',
     es_invalid_handle = ''invalid FsError handle'', es_eager = False \<rparr>"

definition io_error :: error_spec where
  "io_error = \<lparr> es_type_name = ''IoError'',
     es_kinds = [(KInvalid, ''invalid''), (KIo, ''io''), (KNotFound, ''not_found''),
     (KPermission, ''permission''), (KNotUnicode, ''not_unicode''), (KClosed, ''closed''),
     (KOs, ''os'')],
     es_from_std_kind = (\<lambda>kind. case kind of StdInvalid \<Rightarrow> KInvalid
    | StdNotFound \<Rightarrow> KNotFound | StdPermission \<Rightarrow> KPermission
    | StdNotUnicode \<Rightarrow> KNotUnicode | StdClosed \<Rightarrow> KClosed | StdIo \<Rightarrow> KIo
    | _ \<Rightarrow> KOs),
     es_default = StdIo, es_invalid_detail = ''invalid I/O error detail'',
     es_alloc_failed = ''could not allocate I/O error'',
     es_invalid_handle = ''invalid IoError handle'', es_eager = False \<rparr>"

definition net_error :: error_spec where
  "net_error = \<lparr> es_type_name = ''NetError'',
     es_kinds = [(KInvalid, ''invalid''), (KTimeout, ''timeout''), (KResolve, ''resolve''),
     (KUnsupported, ''unsupported''), (KIo, ''io'')],
     es_from_std_kind = (\<lambda>kind. case kind of StdInvalid \<Rightarrow> KInvalid
    | StdParse \<Rightarrow> KInvalid | StdRange \<Rightarrow> KInvalid | StdOverflow \<Rightarrow> KInvalid
    | StdTimeout \<Rightarrow> KTimeout | StdResolve \<Rightarrow> KResolve
    | StdUnsupported \<Rightarrow> KUnsupported | _ \<Rightarrow> KIo),
     es_default = StdIo, es_invalid_detail = ''invalid network error detail'',
     es_alloc_failed = ''could not allocate network error'',
     es_invalid_handle = ''invalid NetError handle'', es_eager = False \<rparr>"

definition url_error :: error_spec where
  "url_error = \<lparr> es_type_name = ''UrlError'',
     es_kinds = [(KInvalid, ''invalid''), (KUnsupported, ''unsupported''), (KParse, ''parse'')],
     es_from_std_kind = (\<lambda>kind. case kind of StdUnsupported \<Rightarrow> KUnsupported
    | StdParse \<Rightarrow> KParse | StdNotUnicode \<Rightarrow> KParse | _ \<Rightarrow> KInvalid),
     es_default = StdParse, es_invalid_detail = ''invalid URL error detail'',
     es_alloc_failed = ''could not allocate URL error'',
     es_invalid_handle = ''invalid UrlError handle'', es_eager = False \<rparr>"

definition uuid_error :: error_spec where
  "uuid_error = \<lparr> es_type_name = ''UuidError'',
     es_kinds = [(KInvalid, ''invalid''), (KParse, ''parse''), (KNotUnicode, ''not_unicode'')],
     es_from_std_kind = (\<lambda>kind. case kind of StdNotUnicode \<Rightarrow> KNotUnicode
    | StdParse \<Rightarrow> KParse | _ \<Rightarrow> KInvalid),
     es_default = StdParse, es_invalid_detail = ''invalid UUID error detail'',
     es_alloc_failed = ''could not allocate UUID error'',
     es_invalid_handle = ''invalid UuidError handle'', es_eager = False \<rparr>"

definition math_error :: error_spec where
  "math_error = \<lparr> es_type_name = ''MathError'',
     es_kinds = [(KInvalid, ''invalid''), (KRange, ''range''), (KOverflow, ''overflow''),
     (KDomain, ''domain'')],
     es_from_std_kind = (\<lambda>kind. case kind of StdRange \<Rightarrow> KRange
    | StdOverflow \<Rightarrow> KOverflow | StdDomain \<Rightarrow> KDomain | _ \<Rightarrow> KInvalid),
     es_default = StdInvalid, es_invalid_detail = ''invalid math error detail'',
     es_alloc_failed = ''could not allocate math error'',
     es_invalid_handle = ''invalid MathError handle'', es_eager = False \<rparr>"

definition process_error :: error_spec where
  "process_error = \<lparr> es_type_name = ''ProcessError'',
     es_kinds = [(KInvalid, ''invalid''), (KIo, ''io''), (KSpawn, ''spawn''),
     (KTimeout, ''timeout''), (KState, ''state''), (KNotFound, ''not_found'')],
     es_from_std_kind = (\<lambda>kind. case kind of StdInvalid \<Rightarrow> KInvalid
    | StdSpawn \<Rightarrow> KSpawn | StdTimeout \<Rightarrow> KTimeout | StdNotFound \<Rightarrow> KNotFound
    | StdIo \<Rightarrow> KIo | StdOs \<Rightarrow> KIo | _ \<Rightarrow> KState),
     es_default = StdIo, es_invalid_detail = ''invalid process error detail'',
     es_alloc_failed = ''could not allocate process error'',
     es_invalid_handle = ''invalid ProcessError handle'', es_eager = False \<rparr>"

definition tls_error :: error_spec where
  "tls_error = \<lparr> es_type_name = ''TlsError'',
     es_kinds = [(KInvalid, ''invalid''), (KIo, ''io''), (KTimeout, ''timeout''),
     (KHandshake, ''handshake''), (KCertificate, ''certificate''),
     (KUnsupported, ''unsupported''), (KProtocol, ''protocol'')],
     es_from_std_kind = (\<lambda>kind. case kind of StdTimeout \<Rightarrow> KTimeout
    | StdHandshake \<Rightarrow> KHandshake | StdCertificate \<Rightarrow> KCertificate
    | StdUnsupported \<Rightarrow> KUnsupported | StdProtocol \<Rightarrow> KProtocol
    | StdIo \<Rightarrow> KIo | StdOs \<Rightarrow> KIo | _ \<Rightarrow> KInvalid),
     es_default = StdIo, es_invalid_detail = ''invalid TLS error detail'',
     es_alloc_failed = ''could not allocate TLS error'',
     es_invalid_handle = ''invalid TlsError handle'', es_eager = False \<rparr>"

definition datetime_error :: error_spec where
  "datetime_error = \<lparr> es_type_name = ''DateTimeError'',
     es_kinds = [(KInvalid, ''invalid''), (KParse, ''parse''), (KRange, ''range''),
     (KFormat, ''format''), (KSystem, ''system'')],
     es_from_std_kind = (\<lambda>kind. case kind of StdInvalid \<Rightarrow> KInvalid
    | StdRange \<Rightarrow> KRange | StdOverflow \<Rightarrow> KRange | StdParse \<Rightarrow> KParse
    | StdIo \<Rightarrow> KSystem | StdOs \<Rightarrow> KSystem | _ \<Rightarrow> KFormat),
     es_default = StdParse, es_invalid_detail = ''invalid datetime error detail'',
     es_alloc_failed = ''could not allocate datetime error'',
     es_invalid_handle = ''invalid DateTimeError handle'', es_eager = False \<rparr>"

definition cli_error :: error_spec where
  "cli_error = \<lparr> es_type_name = ''CliError'',
     es_kinds = [(KInvalid, ''invalid''), (KParse, ''parse''), (KIo, ''io'')],
     es_from_std_kind = (\<lambda>kind. case kind of StdIo \<Rightarrow> KIo | StdOs \<Rightarrow> KIo
    | StdInvalid \<Rightarrow> KParse | StdParse \<Rightarrow> KParse | _ \<Rightarrow> KInvalid),
     es_default = StdParse, es_invalid_detail = ''invalid CLI error detail'',
     es_alloc_failed = ''could not allocate CLI error'',
     es_invalid_handle = ''invalid CliError handle'', es_eager = False \<rparr>"

definition crypto_error :: error_spec where
  "crypto_error = \<lparr> es_type_name = ''CryptoError'',
     es_kinds = [(KInvalid, ''invalid''), (KUnsupported, ''unsupported''),
     (KAuthentication, ''authentication''), (KIo, ''io'')],
     es_from_std_kind = (\<lambda>kind. case kind of StdIo \<Rightarrow> KIo | StdOs \<Rightarrow> KIo
    | StdUnsupported \<Rightarrow> KUnsupported | StdAuthentication \<Rightarrow> KAuthentication
    | _ \<Rightarrow> KInvalid),
     es_default = StdInvalid, es_invalid_detail = ''invalid crypto error detail'',
     es_alloc_failed = ''could not allocate crypto error'',
     es_invalid_handle = ''invalid CryptoError handle'', es_eager = False \<rparr>"

definition regex_error :: error_spec where
  "regex_error = \<lparr> es_type_name = ''RegexError'',
     es_kinds = [(KInvalid, ''invalid''), (KParse, ''parse''), (KMatch, ''match''),
     (KCapture, ''capture'')],
     es_from_std_kind = (\<lambda>kind. case kind of StdParse \<Rightarrow> KParse
    | StdMatch \<Rightarrow> KMatch | StdCapture \<Rightarrow> KCapture | _ \<Rightarrow> KInvalid),
     es_default = StdInvalid, es_invalid_detail = ''invalid regex error detail'',
     es_alloc_failed = ''could not allocate regex error'',
     es_invalid_handle = ''invalid RegexError handle'', es_eager = False \<rparr>"

definition random_error :: error_spec where
  "random_error = \<lparr> es_type_name = ''RandomError'',
     es_kinds = [(KInvalid, ''invalid''), (KRange, ''range''), (KUnsupported, ''unsupported''),
     (KIo, ''io'')],
     es_from_std_kind = (\<lambda>kind. case kind of StdRange \<Rightarrow> KRange
    | StdOverflow \<Rightarrow> KRange | StdUnsupported \<Rightarrow> KUnsupported | StdIo \<Rightarrow> KIo
    | StdOs \<Rightarrow> KIo | _ \<Rightarrow> KInvalid),
     es_default = StdInvalid, es_invalid_detail = ''invalid random error detail'',
     es_alloc_failed = ''could not allocate random error'',
     es_invalid_handle = ''invalid RandomError handle'', es_eager = False \<rparr>"

definition log_error :: error_spec where
  "log_error = \<lparr> es_type_name = ''LogError'',
     es_kinds = [(KInvalid, ''invalid''), (KIo, ''io''), (KConfig, ''config''),
     (KState, ''state'')],
     es_from_std_kind = (\<lambda>kind. case kind of StdIo \<Rightarrow> KIo | StdOs \<Rightarrow> KIo
    | StdConfig \<Rightarrow> KConfig | StdState \<Rightarrow> KState | _ \<Rightarrow> KInvalid),
     es_default = StdLogger, es_invalid_detail = ''invalid log error detail'',
     es_alloc_failed = ''could not allocate log error'',
     es_invalid_handle = ''invalid LogError handle'', es_eager = False \<rparr>"

definition sync_error :: error_spec where
  "sync_error = \<lparr> es_type_name = ''SyncError'',
     es_kinds = [(KInvalid, ''invalid''), (KState, ''state''), (KTimeout, ''timeout''),
     (KClosed, ''closed''), (KCallback, ''callback''), (KSpawn, ''spawn''), (KIo, ''io'')],
     es_from_std_kind = (\<lambda>kind. case kind of StdInvalid \<Rightarrow> KInvalid
    | StdTimeout \<Rightarrow> KTimeout | StdClosed \<Rightarrow> KClosed
    | StdCallback \<Rightarrow> KCallback | StdSpawn \<Rightarrow> KSpawn | StdIo \<Rightarrow> KIo
    | StdOs \<Rightarrow> KIo | _ \<Rightarrow> KState),
     es_default = StdState, es_invalid_detail = ''invalid synchronization error detail'',
     es_alloc_failed = ''could not allocate sync error'',
     es_invalid_handle = ''invalid SyncError handle'', es_eager = False \<rparr>"

fun spec_of :: "error_family \<Rightarrow> error_spec" where
  "spec_of JsonError = json_error"
| "spec_of CsvError = csv_error"
| "spec_of ByteError = byte_error"
| "spec_of BytesError = bytes_error"
| "spec_of EnvError = env_error"
| "spec_of FsError = fs_error"
| "spec_of IoError = io_error"
| "spec_of NetError = net_error"
| "spec_of UrlError = url_error"
| "spec_of UuidError = uuid_error"
| "spec_of MathError = math_error"
| "spec_of ProcessError = process_error"
| "spec_of TlsError = tls_error"
| "spec_of DateTimeError = datetime_error"
| "spec_of CliError = cli_error"
| "spec_of CryptoError = crypto_error"
| "spec_of RegexError = regex_error"
| "spec_of RandomError = random_error"
| "spec_of LogError = log_error"
| "spec_of SyncError = sync_error"

lemmas error_kind_defs = json_error_def csv_error_def byte_error_def bytes_error_def
    env_error_def fs_error_def io_error_def net_error_def url_error_def uuid_error_def
    math_error_def process_error_def tls_error_def datetime_error_def cli_error_def
    crypto_error_def regex_error_def random_error_def log_error_def sync_error_def

subsection \<open>Reading a category\<close>

text \<open>The discriminant of a variant is its position in the enum.\<close>

fun position :: "error_kind \<Rightarrow> (error_kind \<times> string) list \<Rightarrow> int" where
  "position k [] = 0"
| "position k ((k', _) # ks) = (if k = k' then 0 else 1 + position k ks)"

definition discriminant :: "error_family \<Rightarrow> error_kind \<Rightarrow> int" where
  "discriminant f k = position k (es_kinds (spec_of f))"

definition kind_str :: "error_family \<Rightarrow> error_kind \<Rightarrow> string" where
  "kind_str f k = (case map_of (es_kinds (spec_of f)) k of Some s \<Rightarrow> s | None \<Rightarrow> [])"

definition kind_value :: "error_family \<Rightarrow> error_kind \<Rightarrow> u8 list" where
  "kind_value f k = le_bytes 4 (discriminant f k)"

definition has_kind :: "error_family \<Rightarrow> error_kind \<Rightarrow> bool" where
  "has_kind f k \<longleftrightarrow> k \<in> fst ` set (es_kinds (spec_of f))"

lemma from_std_kind_valid: "has_kind f (es_from_std_kind (spec_of f) k)"
  by (cases f; cases k) (simp_all add: has_kind_def error_kind_defs)

lemma kind_texts_distinct: "distinct (map fst (es_kinds (spec_of f))) \<and> distinct (map snd (es_kinds (spec_of f)))"
  by (cases f) (simp_all add: error_kind_defs)

end
