(* ===== verification/Std_Errors.thy ===== *)
theory Std_Errors
  imports Error_Kinds Heap_Calls Value_Abi
begin

text \<open>
  Typed errors (\<open>src/src/std.rs\<close>). An error value is a shared object whose buffer holds an \<open>i64\<close>
  handle; the entry with its category and texts is in a table of its family under that handle, and
  the destructor of the object takes the entry out. The twenty families run the same code, once
  as the macro \<open>define_data_error\<close> and otherwise written out; here a family is an argument.

  The state extends the heap with, per family, the table of entries inserted, the handle
  counter, the type identifier once it is registered, and the address of the destructor. A
  destructor call is an entry of \<open>hp_log\<close>, so the table as the program sees it is \<open>errors\<close>: what
  was inserted, less what the logged calls took out.
\<close>

record error_entry =
  ee_kind :: error_kind
  ee_detail :: string
  ee_extra :: string  \<comment> \<open>key, path, operation, address or URL; empty in the other families\<close>

type_synonym error_table = "int \<rightharpoonup> error_entry"

record err_heap = heap +
  er_table :: "error_family \<Rightarrow> error_table"
  er_next :: "error_family \<Rightarrow> int"
  er_type :: "error_family \<Rightarrow> type_id option"
  er_drop :: "error_family \<Rightarrow> u64"

definition set_entry :: "error_family \<Rightarrow> int \<Rightarrow> error_entry option \<Rightarrow> 'z err_heap_scheme \<Rightarrow> 'z err_heap_scheme" where
  "set_entry f handle e h = h\<lparr>er_table := (er_table h)(f := (er_table h f)(handle := e))\<rparr>"

text \<open>The destructor; reading a handle that was never written is undefined.\<close>

definition drop_error :: "(u64 \<Rightarrow> u8 list) \<Rightarrow> u64 \<Rightarrow> error_table \<Rightarrow> error_table option" where
  "drop_error mem ptr table =
     (if ptr = 0 then Some table
      else do {
        handle \<leftarrow> load_i64 (mem ptr);
        Some (if handle \<noteq> 0 then table(handle := None) else table)
      })"

definition errors :: "'z err_heap_scheme \<Rightarrow> error_family \<Rightarrow> error_table option" where
  "errors h f = fold_opt (\<lambda>(func, ptr) table. if func = er_drop h f then drop_error (hp_mem h) ptr table else Some table)
     (rev (hp_log h)) (er_table h f)"

text \<open>The lazily registered type of a family.\<close>

definition error_type :: "error_family \<Rightarrow> 'z err_heap_scheme \<Rightarrow> type_id \<times> 'z err_heap_scheme" where
  "error_type f h = (case er_type h f of
       Some t \<Rightarrow> (t, h)
     | None \<Rightarrow>
         let (t, h1) = register_shared_object_type (es_type_name (spec_of f)) 8 (Some (er_drop h f)) h
         in (t, h1\<lparr>er_type := (er_type h1)(f \<mapsto> t)\<rparr>))"

subsection \<open>Construction\<close>

definition error_value ::
  "hooks \<Rightarrow> error_family \<Rightarrow> error_kind \<Rightarrow> string \<Rightarrow> string \<Rightarrow> 'z err_heap_scheme \<Rightarrow>
     (mux_value \<times> 'z err_heap_scheme) option" where
  "error_value H f kind detail extra h = (
     let handle = er_next h f;
         h1 = h\<lparr>er_next := (er_next h)(f := wrap_i64 (handle + 1))\<rparr>;
         h2 = set_entry f handle (Some \<lparr> ee_kind = kind, ee_detail = detail, ee_extra = extra \<rparr>) h1;
         (t, h3) = error_type f h2;
         (val, h4) = alloc_object t h3
     in if val = 0 then Some (VString (es_alloc_failed (spec_of f)), set_entry f handle None h4)
        else do {
          v \<leftarrow> deref val h4;
          let ptr = get_object_ptr (Some v);
          if ptr = 0 then do {
            (_, h5) \<leftarrow> mux_rc_dec val h4;
            Some (VString (es_alloc_failed (spec_of f)), set_entry f handle None h5)
          } else do {
            let h5 = h4\<lparr>hp_mem := (hp_mem h4)(ptr := le_bytes 8 handle)\<rparr>;
            let (cloned, h6) = clone_value H v h5;
            (_, h7) \<leftarrow> mux_rc_dec val h6;
            Some (cloned, h7)
          }
        })"

definition error_result_ok :: "mux_value \<Rightarrow> 'z err_heap_scheme \<Rightarrow> nat \<times> 'z err_heap_scheme" where
  "error_result_ok v h = mux_rc_alloc (VResult (Inr v)) h"

definition error_result_err ::
  "hooks \<Rightarrow> error_family \<Rightarrow> std_error_kind \<Rightarrow> string \<Rightarrow> string \<Rightarrow> 'z err_heap_scheme \<Rightarrow>
     (nat \<times> 'z err_heap_scheme) option" where
  "error_result_err H f kind detail extra h = do {
     (e, h1) \<leftarrow> error_value H f (es_from_std_kind (spec_of f) kind) detail extra h;
     Some (mux_rc_alloc (VResult (Inl e)) h1)
   }"

definition error_from_message ::
  "hooks \<Rightarrow> error_family \<Rightarrow> nat \<Rightarrow> 'z err_heap_scheme \<Rightarrow> (nat \<times> 'z err_heap_scheme) option" where
  "error_from_message H f message h = do {
     detail \<leftarrow> (if message = 0 then Some (es_invalid_detail (spec_of f))
                else map_option (value_display H) (deref message h));
     (e, h1) \<leftarrow> error_value H f (es_from_std_kind (spec_of f) (es_default (spec_of f))) detail [] h;
     Some (mux_rc_alloc e h1)
   }"

subsection \<open>Readers\<close>

definition error_handle :: "nat \<Rightarrow> type_id \<Rightarrow> 'z err_heap_scheme \<Rightarrow> int option option" where
  "error_handle error expected h =
     (if error = 0 then Some None
      else do {
        v \<leftarrow> deref error h;
        if get_object_type_id (Some v) \<noteq> expected then Some None
        else let ptr = get_object_ptr (Some v) in
          if ptr = 0 then Some None else map_option Some (load_i64 (hp_mem h ptr))
      })"

text \<open>The handle in an error object of a family, with the type of the family resolved.\<close>

definition family_handle ::
  "error_family \<Rightarrow> nat \<Rightarrow> 'z err_heap_scheme \<Rightarrow> (int option \<times> 'z err_heap_scheme) option" where
  "family_handle f error h =
     (if error = 0 \<and> \<not> es_eager (spec_of f) then Some (None, h)
      else let (t, h1) = error_type f h in map_option (\<lambda>handle. (handle, h1)) (error_handle error t h1))"

definition error_lookup ::
  "error_family \<Rightarrow> nat \<Rightarrow> 'z err_heap_scheme \<Rightarrow> (error_entry option \<times> 'z err_heap_scheme) option" where
  "error_lookup f error h = do {
     (handle, h1) \<leftarrow> family_handle f error h;
     case handle of
       None \<Rightarrow> Some (None, h1)
     | Some i \<Rightarrow> do { table \<leftarrow> errors h1 f; Some (table i, h1) }
   }"

definition error_field_value ::
  "error_family \<Rightarrow> nat \<Rightarrow> (error_entry \<Rightarrow> mux_value) \<Rightarrow> 'z err_heap_scheme \<Rightarrow>
     (mux_value \<times> 'z err_heap_scheme) option" where
  "error_field_value f error get h = do {
     (entry, h1) \<leftarrow> error_lookup f error h;
     Some (case entry of None \<Rightarrow> VString (es_invalid_handle (spec_of f)) | Some e \<Rightarrow> get e, h1)
   }"

definition error_text ::
  "error_family \<Rightarrow> nat \<Rightarrow> bool \<Rightarrow> 'z err_heap_scheme \<Rightarrow> (string \<times> 'z err_heap_scheme) option" where
  "error_text f error decorated h = do {
     (entry, h1) \<leftarrow> error_lookup f error h;
     Some (case entry of
         None \<Rightarrow> es_invalid_handle (spec_of f)
       | Some e \<Rightarrow> if decorated then kind_str f (ee_kind e) @ '': '' @ ee_detail e else ee_detail e, h1)
   }"

definition error_getter ::
  "(error_entry \<Rightarrow> mux_value) \<Rightarrow> error_family \<Rightarrow> nat \<Rightarrow> 'z err_heap_scheme \<Rightarrow> (nat \<times> 'z err_heap_scheme) option" where
  "error_getter get f error h = do {
     (v, h1) \<leftarrow> error_field_value f error get h;
     Some (mux_rc_alloc v h1)
   }"

definition error_kind_getter :: "error_family \<Rightarrow> nat \<Rightarrow> 'z err_heap_scheme \<Rightarrow> (nat \<times> 'z err_heap_scheme) option" where
  "error_kind_getter f = error_getter (\<lambda>e. VOpaque (kind_value f (ee_kind e))) f"

definition error_detail_getter :: "error_family \<Rightarrow> nat \<Rightarrow> 'z err_heap_scheme \<Rightarrow> (nat \<times> 'z err_heap_scheme) option" where
  "error_detail_getter f = error_getter (\<lambda>e. VString (ee_detail e)) f"

definition error_extra_getter :: "error_family \<Rightarrow> nat \<Rightarrow> 'z err_heap_scheme \<Rightarrow> (nat \<times> 'z err_heap_scheme) option" where
  "error_extra_getter f = error_getter (\<lambda>e. VString (ee_extra e)) f"

definition error_message :: "error_family \<Rightarrow> nat \<Rightarrow> 'z err_heap_scheme \<Rightarrow> (nat \<times> 'z err_heap_scheme) option" where
  "error_message f error h = map_option (\<lambda>(s, h1). mux_rc_alloc (VString s) h1) (error_text f error False h)"

definition error_to_string :: "error_family \<Rightarrow> nat \<Rightarrow> 'z err_heap_scheme \<Rightarrow> (nat \<times> 'z err_heap_scheme) option" where
  "error_to_string f error h = map_option (\<lambda>(s, h1). mux_rc_alloc (VString s) h1) (error_text f error True h)"

end
