(* ===== verification/Error_Families.thy ===== *)
theory Error_Families
  imports Std_Errors
begin

text \<open>
  The functions of each error family of \<open>src/src/std.rs\<close>, as the shared code of the theory of
  typed errors at that family: the functions other modules of the runtime call (\<open>error_code\<close>) and
  those the compiled program calls (\<open>error_exports\<close>). A function a family does not have is
  \<^term>\<open>None\<close>. The families differ in the category type their constructor takes and in whether an
  error carries a further field (a key, a path, an operation, an address, a URL).
\<close>

record ('k, 'x, 'z) error_code =
  ec_drop :: "(u64 \<Rightarrow> u8 list) \<Rightarrow> u64 \<Rightarrow> error_table \<Rightarrow> error_table option"
  ec_value :: "hooks \<Rightarrow> 'k \<Rightarrow> string \<Rightarrow> 'x \<Rightarrow> 'z err_heap_scheme \<Rightarrow> (mux_value \<times> 'z err_heap_scheme) option"
  ec_handle :: "nat \<Rightarrow> 'z err_heap_scheme \<Rightarrow> (int option \<times> 'z err_heap_scheme) option"
  ec_field_value :: "nat \<Rightarrow> (error_entry \<Rightarrow> mux_value) \<Rightarrow> 'z err_heap_scheme \<Rightarrow> (mux_value \<times> 'z err_heap_scheme) option"
  ec_text :: "nat \<Rightarrow> bool \<Rightarrow> 'z err_heap_scheme \<Rightarrow> (string \<times> 'z err_heap_scheme) option"
  ec_result_ok :: "(mux_value \<Rightarrow> 'z err_heap_scheme \<Rightarrow> nat \<times> 'z err_heap_scheme) option"
  ec_result_err :: "(hooks \<Rightarrow> string \<Rightarrow> 'z err_heap_scheme \<Rightarrow> (nat \<times> 'z err_heap_scheme) option) option"
  ec_result_err_kind :: "(hooks \<Rightarrow> std_error_kind \<Rightarrow> string \<Rightarrow> 'z err_heap_scheme \<Rightarrow> (nat \<times> 'z err_heap_scheme) option) option"
  ec_result_err_extra :: "(hooks \<Rightarrow> std_error_kind \<Rightarrow> string \<Rightarrow> string \<Rightarrow> 'z err_heap_scheme \<Rightarrow> (nat \<times> 'z err_heap_scheme) option) option"

record 'z error_exports =
  ex_from_message :: "hooks \<Rightarrow> nat \<Rightarrow> 'z err_heap_scheme \<Rightarrow> (nat \<times> 'z err_heap_scheme) option"
  ex_kind :: "nat \<Rightarrow> 'z err_heap_scheme \<Rightarrow> (nat \<times> 'z err_heap_scheme) option"
  ex_detail :: "nat \<Rightarrow> 'z err_heap_scheme \<Rightarrow> (nat \<times> 'z err_heap_scheme) option"
  ex_extra :: "(nat \<Rightarrow> 'z err_heap_scheme \<Rightarrow> (nat \<times> 'z err_heap_scheme) option) option"
  ex_message :: "nat \<Rightarrow> 'z err_heap_scheme \<Rightarrow> (nat \<times> 'z err_heap_scheme) option"
  ex_to_string :: "nat \<Rightarrow> 'z err_heap_scheme \<Rightarrow> (nat \<times> 'z err_heap_scheme) option"

subsection \<open>\<open>JsonError\<close>\<close>

definition json_result_err ::
  "hooks \<Rightarrow> string \<Rightarrow> 'z err_heap_scheme \<Rightarrow> (nat \<times> 'z err_heap_scheme) option" where
  "json_result_err H detail h = error_result_err H JsonError StdParse detail [] h"

subsection \<open>\<open>CsvError\<close>\<close>

definition csv_result_err ::
  "hooks \<Rightarrow> string \<Rightarrow> 'z err_heap_scheme \<Rightarrow> (nat \<times> 'z err_heap_scheme) option" where
  "csv_result_err H detail h = error_result_err H CsvError StdParse detail [] h"

subsection \<open>\<open>ByteError\<close>\<close>

definition byte_result_err ::
  "hooks \<Rightarrow> string \<Rightarrow> 'z err_heap_scheme \<Rightarrow> (nat \<times> 'z err_heap_scheme) option" where
  "byte_result_err H detail h = error_result_err H ByteError StdParse detail [] h"

subsection \<open>\<open>BytesError\<close>\<close>

definition bytes_result_err ::
  "hooks \<Rightarrow> string \<Rightarrow> 'z err_heap_scheme \<Rightarrow> (nat \<times> 'z err_heap_scheme) option" where
  "bytes_result_err H detail h = error_result_err H BytesError StdParse detail [] h"

subsection \<open>\<open>EnvError\<close>\<close>

definition env_result_ok ::
  "mux_value \<Rightarrow> 'z err_heap_scheme \<Rightarrow> nat \<times> 'z err_heap_scheme" where
  "env_result_ok v h = error_result_ok v h"

definition env_result_err_kind ::
  "hooks \<Rightarrow> std_error_kind \<Rightarrow> string \<Rightarrow> 'z err_heap_scheme \<Rightarrow> (nat \<times> 'z err_heap_scheme) option" where
  "env_result_err_kind H kind message h = error_result_err H EnvError kind message [] h"

definition env_result_err_kind_for_key ::
  "hooks \<Rightarrow> std_error_kind \<Rightarrow> string \<Rightarrow> string \<Rightarrow> 'z err_heap_scheme \<Rightarrow> (nat \<times> 'z err_heap_scheme) option" where
  "env_result_err_kind_for_key H kind message key h = error_result_err H EnvError kind message key h"

definition env_error_code :: "(error_kind, string, 'z) error_code" where
  "env_error_code = \<lparr> ec_drop = drop_error,
     ec_value = (\<lambda>H kind message key. error_value H EnvError kind message key),
     ec_handle = family_handle EnvError, ec_field_value = error_field_value EnvError, ec_text = error_text EnvError,
     ec_result_ok = Some env_result_ok, ec_result_err = None,
     ec_result_err_kind = Some env_result_err_kind,
     ec_result_err_extra = Some env_result_err_kind_for_key \<rparr>"

definition env_error_exports :: "'z error_exports" where
  "env_error_exports = \<lparr> ex_from_message = (\<lambda>H. error_from_message H EnvError), ex_kind = error_kind_getter EnvError,
     ex_detail = error_detail_getter EnvError, ex_extra = Some (error_extra_getter EnvError), ex_message = error_message EnvError,
     ex_to_string = error_to_string EnvError \<rparr>"

subsection \<open>\<open>FsError\<close>\<close>

definition fs_error_code :: "(std_error_kind, string, 'z) error_code" where
  "fs_error_code = \<lparr> ec_drop = drop_error,
     ec_value = (\<lambda>H kind detail path. error_value H FsError (es_from_std_kind fs_error kind) detail path),
     ec_handle = family_handle FsError, ec_field_value = error_field_value FsError, ec_text = error_text FsError,
     ec_result_ok = Some error_result_ok, ec_result_err = Some (\<lambda>H detail. error_result_err H FsError StdIo detail []),
     ec_result_err_kind = Some (\<lambda>H kind detail. error_result_err H FsError kind detail []),
     ec_result_err_extra = Some (\<lambda>H kind detail path. error_result_err H FsError kind detail path) \<rparr>"

definition fs_error_exports :: "'z error_exports" where
  "fs_error_exports = \<lparr> ex_from_message = (\<lambda>H. error_from_message H FsError), ex_kind = error_kind_getter FsError,
     ex_detail = error_detail_getter FsError, ex_extra = Some (error_extra_getter FsError), ex_message = error_message FsError,
     ex_to_string = error_to_string FsError \<rparr>"

subsection \<open>\<open>IoError\<close>\<close>

definition io_error_code :: "(std_error_kind, string, 'z) error_code" where
  "io_error_code = \<lparr> ec_drop = drop_error,
     ec_value = (\<lambda>H kind detail operation. error_value H IoError (es_from_std_kind io_error kind) detail operation),
     ec_handle = family_handle IoError, ec_field_value = error_field_value IoError, ec_text = error_text IoError,
     ec_result_ok = Some error_result_ok, ec_result_err = Some (\<lambda>H detail. error_result_err H IoError StdIo detail []),
     ec_result_err_kind = None,
     ec_result_err_extra = Some (\<lambda>H kind detail operation. error_result_err H IoError kind detail operation) \<rparr>"

definition io_error_exports :: "'z error_exports" where
  "io_error_exports = \<lparr> ex_from_message = (\<lambda>H. error_from_message H IoError), ex_kind = error_kind_getter IoError,
     ex_detail = error_detail_getter IoError, ex_extra = Some (error_extra_getter IoError), ex_message = error_message IoError,
     ex_to_string = error_to_string IoError \<rparr>"

subsection \<open>\<open>NetError\<close>\<close>

definition net_error_code :: "(std_error_kind, string, 'z) error_code" where
  "net_error_code = \<lparr> ec_drop = drop_error,
     ec_value = (\<lambda>H kind detail address. error_value H NetError (es_from_std_kind net_error kind) detail address),
     ec_handle = family_handle NetError, ec_field_value = error_field_value NetError, ec_text = error_text NetError,
     ec_result_ok = Some error_result_ok, ec_result_err = Some (\<lambda>H detail. error_result_err H NetError StdIo detail []),
     ec_result_err_kind = Some (\<lambda>H kind detail. error_result_err H NetError kind detail []),
     ec_result_err_extra = Some (\<lambda>H kind detail address. error_result_err H NetError kind detail address) \<rparr>"

definition net_error_exports :: "'z error_exports" where
  "net_error_exports = \<lparr> ex_from_message = (\<lambda>H. error_from_message H NetError), ex_kind = error_kind_getter NetError,
     ex_detail = error_detail_getter NetError, ex_extra = Some (error_extra_getter NetError), ex_message = error_message NetError,
     ex_to_string = error_to_string NetError \<rparr>"

subsection \<open>\<open>UrlError\<close>\<close>

definition url_error_code :: "(std_error_kind, string, 'z) error_code" where
  "url_error_code = \<lparr> ec_drop = drop_error,
     ec_value = (\<lambda>H kind detail url. error_value H UrlError (es_from_std_kind url_error kind) detail url),
     ec_handle = family_handle UrlError, ec_field_value = error_field_value UrlError, ec_text = error_text UrlError,
     ec_result_ok = Some error_result_ok, ec_result_err = Some (\<lambda>H detail. error_result_err H UrlError StdParse detail []),
     ec_result_err_kind = Some (\<lambda>H kind detail. error_result_err H UrlError kind detail []),
     ec_result_err_extra = Some (\<lambda>H kind detail url. error_result_err H UrlError kind detail url) \<rparr>"

definition url_error_exports :: "'z error_exports" where
  "url_error_exports = \<lparr> ex_from_message = (\<lambda>H. error_from_message H UrlError), ex_kind = error_kind_getter UrlError,
     ex_detail = error_detail_getter UrlError, ex_extra = Some (error_extra_getter UrlError), ex_message = error_message UrlError,
     ex_to_string = error_to_string UrlError \<rparr>"

subsection \<open>\<open>UuidError\<close>\<close>

definition uuid_error_code :: "(std_error_kind, unit, 'z) error_code" where
  "uuid_error_code = \<lparr> ec_drop = drop_error,
     ec_value = (\<lambda>H kind detail _. error_value H UuidError (es_from_std_kind uuid_error kind) detail []),
     ec_handle = family_handle UuidError, ec_field_value = error_field_value UuidError, ec_text = error_text UuidError,
     ec_result_ok = Some error_result_ok, ec_result_err = Some (\<lambda>H detail. error_result_err H UuidError StdParse detail []),
     ec_result_err_kind = Some (\<lambda>H kind detail. error_result_err H UuidError kind detail []),
     ec_result_err_extra = None \<rparr>"

definition uuid_error_exports :: "'z error_exports" where
  "uuid_error_exports = \<lparr> ex_from_message = (\<lambda>H. error_from_message H UuidError), ex_kind = error_kind_getter UuidError,
     ex_detail = error_detail_getter UuidError, ex_extra = None, ex_message = error_message UuidError,
     ex_to_string = error_to_string UuidError \<rparr>"

subsection \<open>\<open>MathError\<close>\<close>

definition math_error_code :: "(std_error_kind, unit, 'z) error_code" where
  "math_error_code = \<lparr> ec_drop = drop_error,
     ec_value = (\<lambda>H kind detail _. error_value H MathError (es_from_std_kind math_error kind) detail []),
     ec_handle = family_handle MathError, ec_field_value = error_field_value MathError, ec_text = error_text MathError,
     ec_result_ok = None, ec_result_err = Some (\<lambda>H detail. error_result_err H MathError StdInvalid detail []),
     ec_result_err_kind = Some (\<lambda>H kind detail. error_result_err H MathError kind detail []),
     ec_result_err_extra = None \<rparr>"

definition math_error_exports :: "'z error_exports" where
  "math_error_exports = \<lparr> ex_from_message = (\<lambda>H. error_from_message H MathError), ex_kind = error_kind_getter MathError,
     ex_detail = error_detail_getter MathError, ex_extra = None, ex_message = error_message MathError,
     ex_to_string = error_to_string MathError \<rparr>"

subsection \<open>\<open>ProcessError\<close>\<close>

definition process_error_code :: "(std_error_kind, unit, 'z) error_code" where
  "process_error_code = \<lparr> ec_drop = drop_error,
     ec_value = (\<lambda>H kind detail _. error_value H ProcessError (es_from_std_kind process_error kind) detail []),
     ec_handle = family_handle ProcessError, ec_field_value = error_field_value ProcessError, ec_text = error_text ProcessError,
     ec_result_ok = None, ec_result_err = Some (\<lambda>H detail. error_result_err H ProcessError StdIo detail []),
     ec_result_err_kind = Some (\<lambda>H kind detail. error_result_err H ProcessError kind detail []),
     ec_result_err_extra = None \<rparr>"

definition process_error_exports :: "'z error_exports" where
  "process_error_exports = \<lparr> ex_from_message = (\<lambda>H. error_from_message H ProcessError), ex_kind = error_kind_getter ProcessError,
     ex_detail = error_detail_getter ProcessError, ex_extra = None, ex_message = error_message ProcessError,
     ex_to_string = error_to_string ProcessError \<rparr>"

subsection \<open>\<open>TlsError\<close>\<close>

definition tls_error_code :: "(std_error_kind, unit, 'z) error_code" where
  "tls_error_code = \<lparr> ec_drop = drop_error,
     ec_value = (\<lambda>H kind detail _. error_value H TlsError (es_from_std_kind tls_error kind) detail []),
     ec_handle = family_handle TlsError, ec_field_value = error_field_value TlsError, ec_text = error_text TlsError,
     ec_result_ok = None, ec_result_err = Some (\<lambda>H detail. error_result_err H TlsError StdIo detail []),
     ec_result_err_kind = Some (\<lambda>H kind detail. error_result_err H TlsError kind detail []),
     ec_result_err_extra = None \<rparr>"

definition tls_error_exports :: "'z error_exports" where
  "tls_error_exports = \<lparr> ex_from_message = (\<lambda>H. error_from_message H TlsError), ex_kind = error_kind_getter TlsError,
     ex_detail = error_detail_getter TlsError, ex_extra = None, ex_message = error_message TlsError,
     ex_to_string = error_to_string TlsError \<rparr>"

subsection \<open>\<open>DateTimeError\<close>\<close>

definition datetime_error_code :: "(std_error_kind, unit, 'z) error_code" where
  "datetime_error_code = \<lparr> ec_drop = drop_error,
     ec_value = (\<lambda>H kind detail _. error_value H DateTimeError (es_from_std_kind datetime_error kind) detail []),
     ec_handle = family_handle DateTimeError, ec_field_value = error_field_value DateTimeError, ec_text = error_text DateTimeError,
     ec_result_ok = None, ec_result_err = Some (\<lambda>H detail. error_result_err H DateTimeError StdParse detail []),
     ec_result_err_kind = Some (\<lambda>H kind detail. error_result_err H DateTimeError kind detail []),
     ec_result_err_extra = None \<rparr>"

definition datetime_error_exports :: "'z error_exports" where
  "datetime_error_exports = \<lparr> ex_from_message = (\<lambda>H. error_from_message H DateTimeError), ex_kind = error_kind_getter DateTimeError,
     ex_detail = error_detail_getter DateTimeError, ex_extra = None, ex_message = error_message DateTimeError,
     ex_to_string = error_to_string DateTimeError \<rparr>"

subsection \<open>\<open>CliError\<close>\<close>

definition cli_error_code :: "(std_error_kind, unit, 'z) error_code" where
  "cli_error_code = \<lparr> ec_drop = drop_error,
     ec_value = (\<lambda>H kind detail _. error_value H CliError (es_from_std_kind cli_error kind) detail []),
     ec_handle = family_handle CliError, ec_field_value = error_field_value CliError, ec_text = error_text CliError,
     ec_result_ok = None, ec_result_err = Some (\<lambda>H detail. error_result_err H CliError StdParse detail []),
     ec_result_err_kind = Some (\<lambda>H kind detail. error_result_err H CliError kind detail []),
     ec_result_err_extra = None \<rparr>"

definition cli_error_exports :: "'z error_exports" where
  "cli_error_exports = \<lparr> ex_from_message = (\<lambda>H. error_from_message H CliError), ex_kind = error_kind_getter CliError,
     ex_detail = error_detail_getter CliError, ex_extra = None, ex_message = error_message CliError,
     ex_to_string = error_to_string CliError \<rparr>"

subsection \<open>\<open>CryptoError\<close>\<close>

definition crypto_error_code :: "(std_error_kind, unit, 'z) error_code" where
  "crypto_error_code = \<lparr> ec_drop = drop_error,
     ec_value = (\<lambda>H kind detail _. error_value H CryptoError (es_from_std_kind crypto_error kind) detail []),
     ec_handle = family_handle CryptoError, ec_field_value = error_field_value CryptoError, ec_text = error_text CryptoError,
     ec_result_ok = None, ec_result_err = Some (\<lambda>H detail. error_result_err H CryptoError StdInvalid detail []),
     ec_result_err_kind = Some (\<lambda>H kind detail. error_result_err H CryptoError kind detail []),
     ec_result_err_extra = None \<rparr>"

definition crypto_error_exports :: "'z error_exports" where
  "crypto_error_exports = \<lparr> ex_from_message = (\<lambda>H. error_from_message H CryptoError), ex_kind = error_kind_getter CryptoError,
     ex_detail = error_detail_getter CryptoError, ex_extra = None, ex_message = error_message CryptoError,
     ex_to_string = error_to_string CryptoError \<rparr>"

subsection \<open>\<open>RegexError\<close>\<close>

definition regex_error_code :: "(std_error_kind, unit, 'z) error_code" where
  "regex_error_code = \<lparr> ec_drop = drop_error,
     ec_value = (\<lambda>H kind detail _. error_value H RegexError (es_from_std_kind regex_error kind) detail []),
     ec_handle = family_handle RegexError, ec_field_value = error_field_value RegexError, ec_text = error_text RegexError,
     ec_result_ok = None, ec_result_err = Some (\<lambda>H detail. error_result_err H RegexError StdInvalid detail []),
     ec_result_err_kind = Some (\<lambda>H kind detail. error_result_err H RegexError kind detail []),
     ec_result_err_extra = None \<rparr>"

definition regex_error_exports :: "'z error_exports" where
  "regex_error_exports = \<lparr> ex_from_message = (\<lambda>H. error_from_message H RegexError), ex_kind = error_kind_getter RegexError,
     ex_detail = error_detail_getter RegexError, ex_extra = None, ex_message = error_message RegexError,
     ex_to_string = error_to_string RegexError \<rparr>"

subsection \<open>\<open>RandomError\<close>\<close>

definition random_error_code :: "(std_error_kind, unit, 'z) error_code" where
  "random_error_code = \<lparr> ec_drop = drop_error,
     ec_value = (\<lambda>H kind detail _. error_value H RandomError (es_from_std_kind random_error kind) detail []),
     ec_handle = family_handle RandomError, ec_field_value = error_field_value RandomError, ec_text = error_text RandomError,
     ec_result_ok = None, ec_result_err = Some (\<lambda>H detail. error_result_err H RandomError StdInvalid detail []),
     ec_result_err_kind = Some (\<lambda>H kind detail. error_result_err H RandomError kind detail []),
     ec_result_err_extra = None \<rparr>"

definition random_error_exports :: "'z error_exports" where
  "random_error_exports = \<lparr> ex_from_message = (\<lambda>H. error_from_message H RandomError), ex_kind = error_kind_getter RandomError,
     ex_detail = error_detail_getter RandomError, ex_extra = None, ex_message = error_message RandomError,
     ex_to_string = error_to_string RandomError \<rparr>"

subsection \<open>\<open>LogError\<close>\<close>

definition log_error_code :: "(std_error_kind, unit, 'z) error_code" where
  "log_error_code = \<lparr> ec_drop = drop_error,
     ec_value = (\<lambda>H kind detail _. error_value H LogError (es_from_std_kind log_error kind) detail []),
     ec_handle = family_handle LogError, ec_field_value = error_field_value LogError, ec_text = error_text LogError,
     ec_result_ok = None, ec_result_err = Some (\<lambda>H detail. error_result_err H LogError StdLogger detail []),
     ec_result_err_kind = Some (\<lambda>H kind detail. error_result_err H LogError kind detail []),
     ec_result_err_extra = None \<rparr>"

definition log_error_exports :: "'z error_exports" where
  "log_error_exports = \<lparr> ex_from_message = (\<lambda>H. error_from_message H LogError), ex_kind = error_kind_getter LogError,
     ex_detail = error_detail_getter LogError, ex_extra = None, ex_message = error_message LogError,
     ex_to_string = error_to_string LogError \<rparr>"

subsection \<open>\<open>SyncError\<close>\<close>

definition sync_error_code :: "(std_error_kind, unit, 'z) error_code" where
  "sync_error_code = \<lparr> ec_drop = drop_error,
     ec_value = (\<lambda>H kind detail _. error_value H SyncError (es_from_std_kind sync_error kind) detail []),
     ec_handle = family_handle SyncError, ec_field_value = error_field_value SyncError, ec_text = error_text SyncError,
     ec_result_ok = Some error_result_ok, ec_result_err = Some (\<lambda>H detail. error_result_err H SyncError StdState detail []),
     ec_result_err_kind = None,
     ec_result_err_extra = None \<rparr>"

definition sync_error_exports :: "'z error_exports" where
  "sync_error_exports = \<lparr> ex_from_message = (\<lambda>H. error_from_message H SyncError), ex_kind = error_kind_getter SyncError,
     ex_detail = error_detail_getter SyncError, ex_extra = None, ex_message = error_message SyncError,
     ex_to_string = error_to_string SyncError \<rparr>"

end
