(* ===== verification/Error_Laws.thy ===== *)
theory Error_Laws
  imports Std_Errors Heap_Clone
begin

text \<open>
  The tables of typed errors and the objects that name their entries. In every state the entries
  a program can see are exactly those of the live error objects, each under the handle in the
  object's buffer.
\<close>

definition live_errors :: "'z err_heap_scheme \<Rightarrow> error_family \<Rightarrow> object_ref set" where
  "live_errors h f = {obj. 0 < hp_strong h obj \<and> er_type h f = Some (obj_type_id obj)}"

definition dropped :: "'z err_heap_scheme \<Rightarrow> error_family \<Rightarrow> u64 set" where
  "dropped h f = {ptr. (er_drop h f, ptr) \<in> set (hp_log h)}"

definition issued :: "'z err_heap_scheme \<Rightarrow> error_family \<Rightarrow> u64 set" where
  "issued h f = obj_ptr ` live_errors h f \<union> dropped h f"

definition handle_in :: "'z err_heap_scheme \<Rightarrow> u64 \<Rightarrow> int option" where
  "handle_in h p = load_i64 (hp_mem h p)"

definition table_ok :: "'z err_heap_scheme \<Rightarrow> error_family \<Rightarrow> bool" where
  "table_ok h f \<longleftrightarrow>
     (\<forall>p \<in> issued h f. p \<in> handed_out h \<and> (\<exists>i. handle_in h p = Some i \<and> 0 < i \<and> i < er_next h f)) \<and>
     inj_on (handle_in h) (issued h f) \<and> obj_ptr ` live_errors h f \<inter> dropped h f = {} \<and>
     Some ` dom (er_table h f) = handle_in h ` issued h f \<and> 0 < er_next h f"

definition type_ok :: "'z err_heap_scheme \<Rightarrow> error_family \<Rightarrow> bool" where
  "type_ok h f \<longleftrightarrow>
     (\<forall>t. er_type h f = Some t \<longrightarrow> (\<exists>ty. hp_types h t = Some ty \<and> ot_size ty = 8 \<and>
        ot_destructor ty = Some (er_drop h f) \<and> ot_shared ty)) \<and>
     (\<forall>t ty. hp_types h t = Some ty \<longrightarrow> ot_destructor ty = Some (er_drop h f) \<longrightarrow> er_type h f = Some t) \<and>
     (\<forall>obj \<in> live_errors h f. obj_size obj = 8) \<and> (er_type h f = None \<longrightarrow> dropped h f = {})"

definition ids_ok :: "'z err_heap_scheme \<Rightarrow> bool" where
  "ids_ok h \<longleftrightarrow> inj (er_drop h) \<and> (\<forall>t. hp_types h t \<noteq> None \<longrightarrow> t < hp_next_type h) \<and>
     (\<forall>obj. 0 < hp_strong h obj \<longrightarrow> obj_type_id obj < hp_next_type h) \<and>
     inj_on obj_ptr {obj. 0 < hp_strong h obj} \<and>
     unat (hp_next_type h) + card {f. er_type h f = None} < 2 ^ 32"

definition err_ok :: "'z err_heap_scheme \<Rightarrow> bool" where
  "err_ok h \<longleftrightarrow> ids_ok h \<and> (\<forall>f. table_ok h f \<and> type_ok h f)"

text \<open>The entry a live error object names.\<close>

definition entry_of :: "'z err_heap_scheme \<Rightarrow> error_family \<Rightarrow> object_ref \<Rightarrow> error_entry option" where
  "entry_of h f obj = Option.bind (handle_in h (obj_ptr obj)) (er_table h f)"

subsection \<open>What the program sees\<close>

lemma drops_applied:
  assumes "\<forall>p. (d, p) \<in> set ds \<longrightarrow> p \<noteq> 0 \<and> (\<exists>i. load_i64 (mem p) = Some i \<and> i \<noteq> 0)"
  shows "fold_opt (\<lambda>(func, ptr) table. if func = d then drop_error mem ptr table else Some table) ds t =
    Some (\<lambda>i. if \<exists>p. (d, p) \<in> set ds \<and> load_i64 (mem p) = Some i then None else t i)"
  using assms
proof (induction ds arbitrary: t)
  case (Cons x ds)
  obtain func ptr where x: "x = (func, ptr)" by fastforce
  show ?case
  proof (cases "func = d")
    case True
    then obtain j where j: "ptr \<noteq> 0" "load_i64 (mem ptr) = Some j" "j \<noteq> 0" using Cons.prems x by auto
    let ?F = "\<lambda>(func, ptr) table. if func = d then drop_error mem ptr table else Some table"
    have "fold_opt ?F (x # ds) t = fold_opt ?F ds (t(j := None))" using j True x by (simp add: drop_error_def)
    also have "\<dots> = Some (\<lambda>i. if \<exists>p. (d, p) \<in> set ds \<and> load_i64 (mem p) = Some i then None else (t(j := None)) i)"
      by (rule Cons.IH) (use Cons.prems in simp)
    also have "\<dots> = Some (\<lambda>i. if \<exists>p. (d, p) \<in> set (x # ds) \<and> load_i64 (mem p) = Some i then None else t i)"
      using j True x by (auto intro!: ext)
    finally show ?thesis .
  next
    case False
    then show ?thesis using Cons x by auto
  qed
qed simp

lemma errors_seen:
  assumes "table_ok h f"
  shows "errors h f = Some (\<lambda>i. if Some i \<in> handle_in h ` dropped h f then None else er_table h f i)"
proof -
  have "\<forall>p. (er_drop h f, p) \<in> set (rev (hp_log h)) \<longrightarrow> p \<noteq> 0 \<and> (\<exists>i. load_i64 (hp_mem h p) = Some i \<and> i \<noteq> 0)"
  proof (intro allI impI)
    fix p assume "(er_drop h f, p) \<in> set (rev (hp_log h))"
    then have "p \<in> issued h f" by (simp add: issued_def dropped_def)
    then obtain i where "p \<in> handed_out h" "load_i64 (hp_mem h p) = Some i" "0 < i"
      using assms by (auto simp: table_ok_def handle_in_def)
    then show "p \<noteq> 0 \<and> (\<exists>i. load_i64 (hp_mem h p) = Some i \<and> i \<noteq> 0)" by (auto simp: handed_out_def)
  qed
  then have "errors h f = Some (\<lambda>i. if \<exists>p. (er_drop h f, p) \<in> set (rev (hp_log h)) \<and> load_i64 (hp_mem h p) = Some i
      then None else er_table h f i)"
    unfolding errors_def by (rule drops_applied)
  moreover have "(\<exists>p. (er_drop h f, p) \<in> set (rev (hp_log h)) \<and> load_i64 (hp_mem h p) = Some i) \<longleftrightarrow>
      Some i \<in> handle_in h ` dropped h f" for i
    by (force simp: dropped_def handle_in_def)
  ultimately show ?thesis by simp
qed

lemma errors_live:
  assumes "table_ok h f" "errors h f = Some table"
  shows "Some ` dom table = handle_in h ` obj_ptr ` live_errors h f"
    "obj \<in> live_errors h f \<Longrightarrow> handle_in h (obj_ptr obj) = Some i \<Longrightarrow> table i = er_table h f i \<and> er_table h f i \<noteq> None"
proof -
  have t: "table i = (if Some i \<in> handle_in h ` dropped h f then None else er_table h f i)" for i
    using errors_seen [OF assms(1)] assms(2) by simp
  have inj: "inj_on (handle_in h) (obj_ptr ` live_errors h f \<union> dropped h f)"
    and dis: "obj_ptr ` live_errors h f \<inter> dropped h f = {}"
    and dom: "Some ` dom (er_table h f) = handle_in h ` (obj_ptr ` live_errors h f \<union> dropped h f)"
    using assms(1) by (simp_all add: table_ok_def issued_def)
  have "Some ` dom table = Some ` dom (er_table h f) - handle_in h ` dropped h f"
    using t by (auto simp: dom_def split: if_splits)
  also have "\<dots> = handle_in h ` (obj_ptr ` live_errors h f)"
    using inj_on_image_set_diff [OF inj, of "obj_ptr ` live_errors h f \<union> dropped h f" "dropped h f"] dis dom
    by (simp add: Un_Diff Diff_triv)
  finally show seen: "Some ` dom table = handle_in h ` obj_ptr ` live_errors h f" .
  show "table i = er_table h f i \<and> er_table h f i \<noteq> None"
    if "obj \<in> live_errors h f" "handle_in h (obj_ptr obj) = Some i"
  proof -
    have "Some i \<in> Some ` dom table" using seen that by (metis image_eqI)
    then show ?thesis using t [of i] by (auto simp: dom_def split: if_splits)
  qed
qed

subsection \<open>Blocks and handles\<close>

lemmas err_defs = err_ok_def ids_ok_def table_ok_def type_ok_def issued_def live_errors_def dropped_def
  handle_in_def handed_out_def

lemma err_same:
  assumes "err_ok h" "\<And>obj. 0 < hp_strong h' obj \<longleftrightarrow> 0 < hp_strong h obj" "hp_log h' = hp_log h"
    "hp_types h' = hp_types h" "hp_next_type h' = hp_next_type h" "hp_mem h' = hp_mem h"
    "hp_buf h' = hp_buf h" "hp_nbuf h' = hp_nbuf h" "er_table h' = er_table h" "er_next h' = er_next h"
    "er_type h' = er_type h" "er_drop h' = er_drop h"
  shows "err_ok h'"
  using assms(1) unfolding err_defs assms(2-12) .

lemma err_okD: "err_ok h \<Longrightarrow> table_ok h f" "err_ok h \<Longrightarrow> type_ok h f" "err_ok h \<Longrightarrow> ids_ok h"
  by (simp_all add: err_ok_def)

lemma live_error_type:
  assumes "err_ok h" "obj \<in> live_errors h f"
  obtains ty where "hp_types h (obj_type_id obj) = Some ty" "ot_destructor ty = Some (er_drop h f)" "ot_shared ty" "obj_size obj = 8"
proof -
  have t: "er_type h f = Some (obj_type_id obj)" using assms(2) by (simp add: live_errors_def)
  have "obj_size obj = 8" using assms err_okD(2) [OF assms(1), of f] by (simp add: type_ok_def)
  then show thesis using that t err_okD(2) [OF assms(1), of f] unfolding type_ok_def by blast
qed

text \<open>What no operation on blocks and handles touches.\<close>

definition err_frame :: "'z err_heap_scheme \<Rightarrow> 'z err_heap_scheme \<Rightarrow> bool" where
  "err_frame h h' \<longleftrightarrow> hp_types h' = hp_types h \<and> hp_next_type h' = hp_next_type h \<and> hp_mem h' = hp_mem h \<and>
     er_table h' = er_table h \<and> er_next h' = er_next h \<and> er_type h' = er_type h \<and> er_drop h' = er_drop h \<and> hp_oom h' = hp_oom h \<and>
     (\<forall>obj. 0 < hp_strong h' obj \<longrightarrow> 0 < hp_strong h obj)"

lemma err_frame_refl [simp]: "err_frame h h" by (simp add: err_frame_def)

lemma err_frame_trans: "err_frame h h1 \<Longrightarrow> err_frame h1 h2 \<Longrightarrow> err_frame h h2" by (simp add: err_frame_def)

lemma err_frame_entry: "err_frame h h' \<Longrightarrow> entry_of h' f obj = entry_of h f obj"
  by (simp add: err_frame_def entry_of_def handle_in_def)

lemma release_fields [simp]:
  "er_table (release_obj obj h) = er_table h" "er_next (release_obj obj h) = er_next h"
  "er_type (release_obj obj h) = er_type h" "er_drop (release_obj obj h) = er_drop h"
  "hp_next_type (release_obj obj h) = hp_next_type h" "hp_oom (release_obj obj h) = hp_oom h"
  for h :: "'z err_heap_scheme"
  by (simp_all add: release_obj_def drop_object_data_def call_object_destructor_def Let_def split: option.split)

lemma frame_release: "err_frame h (release_obj obj h)"
  by (simp add: err_frame_def)

lemma frame_retain: "0 < hp_strong h obj \<Longrightarrow> err_frame h (retain_obj obj h)"
  by (simp add: err_frame_def retain_obj_def)

lemma err_frame_live: "err_frame h h' \<Longrightarrow> live_errors h' f \<subseteq> live_errors h f"
  by (auto simp: err_frame_def live_errors_def)

lemma log_release:
  "hp_log (release_obj obj h) = (if hp_strong h obj = 1 \<and> obj_ptr obj \<noteq> 0 \<and> obj_size obj > 0
     then case Option.bind (hp_types h (obj_type_id obj)) ot_destructor of
       None \<Rightarrow> hp_log h | Some d \<Rightarrow> (d, obj_ptr obj) # hp_log h
     else hp_log h)"
  by (auto simp: release_obj_def drop_object_data_def call_object_destructor_def Let_def split: option.split)

lemma dropped_release:
  assumes "err_ok h"
  shows "dropped (release_obj obj h) f =
    dropped h f \<union> (if hp_strong h obj = 1 \<and> obj \<in> live_errors h f then {obj_ptr obj} else {})"
proof (cases "hp_strong h obj = 1")
  case True
  show ?thesis
  proof (cases "obj \<in> live_errors h f")
    case l: True
    obtain ty where "hp_types h (obj_type_id obj) = Some ty" "ot_destructor ty = Some (er_drop h f)" "obj_size obj = 8"
      by (rule live_error_type [OF assms l])
    moreover have "obj_ptr obj \<in> handed_out h"
      using err_okD(1) [OF assms, of f] l by (simp add: table_ok_def issued_def)
    ultimately show ?thesis using True l by (auto simp: dropped_def log_release handed_out_def)
  next
    case False
    have "ot_destructor ty \<noteq> Some (er_drop h f)" if "hp_types h (obj_type_id obj) = Some ty" for ty
    proof
      assume "ot_destructor ty = Some (er_drop h f)"
      then have "er_type h f = Some (obj_type_id obj)" using assms that by (simp add: err_ok_def type_ok_def)
      then show False using False True by (simp add: live_errors_def)
    qed
    then show ?thesis using False
      by (auto simp: dropped_def log_release split: option.splits bind_splits)
  qed
qed (simp add: dropped_def log_release)

lemma err_release: "err_ok h \<Longrightarrow> err_ok (release_obj obj h)"
proof (cases "hp_strong h obj = 1")
  case True
  assume ok: "err_ok h"
  let ?h = "release_obj obj h"
  have live: "live_errors ?h f = live_errors h f - {obj}" for f
    using True by (auto simp: live_errors_def)
  have ptr: "obj_ptr ` (live_errors h f - {obj}) = obj_ptr ` live_errors h f - (if obj \<in> live_errors h f then {obj_ptr obj} else {})" for f
    using ok by (auto simp: err_ok_def ids_ok_def live_errors_def inj_on_def)
  have iss: "issued ?h f = issued h f" for f
    using dropped_release [OF ok] True unfolding issued_def live ptr by auto
  have fields: "handle_in ?h = handle_in h" "handed_out ?h = handed_out h"
    by (auto simp: handle_in_def handed_out_def)
  have "table_ok ?h f" for f
    using err_okD(1) [OF ok, of f] dropped_release [OF ok, of obj f] True
    unfolding table_ok_def iss live ptr fields by (auto split: if_splits)
  moreover have "type_ok ?h f" for f
    using ok dropped_release [OF ok, of obj f] live [of f] by (auto simp: err_ok_def type_ok_def live_errors_def)
  moreover have "ids_ok ?h" using ok True by (auto simp: err_ok_def ids_ok_def inj_on_def)
  ultimately show ?thesis by (simp add: err_ok_def)
next
  case False
  assume ok: "err_ok h"
  show ?thesis by (rule err_same [OF ok]) (use False in \<open>auto simp: log_release\<close>)
qed

lemma err_releases: "err_ok h \<Longrightarrow> err_ok (fold release_obj os h) \<and> err_frame h (fold release_obj os h)"
proof (induction os arbitrary: h)
  case (Cons a os)
  from Cons.IH [OF err_release [OF Cons.prems, of a]] show ?case
    using err_frame_trans [OF frame_release] by auto
qed simp

lemma err_retains:
  "err_ok h \<Longrightarrow> (\<And>obj. obj \<in> set os \<Longrightarrow> 0 < hp_strong h obj) \<Longrightarrow>
     err_ok (fold retain_obj os h) \<and> err_frame h (fold retain_obj os h)"
proof (induction os arbitrary: h)
  case (Cons a os)
  have "err_ok (retain_obj a h)"
    by (rule err_same [OF Cons.prems(1)]) (use Cons.prems(2) in \<open>auto simp: retain_obj_def\<close>)
  moreover have "0 < hp_strong (retain_obj a h) obj" if "obj \<in> set os" for obj
    using Cons.prems(2) [of obj] that by simp
  ultimately show ?case using Cons.IH [of "retain_obj a h"] err_frame_trans [OF frame_retain [OF Cons.prems(2) [of a]]] by auto
qed simp

lemma err_clone:
  assumes "err_ok h" "heap_inv h R T" "set (objs v) \<subseteq> set_mset (held h + T)"
  shows "err_ok (snd (clone_value H v h)) \<and> err_frame h (snd (clone_value H v h))"
proof -
  have "0 < hp_strong h obj" if "obj \<in> set (objs v)" for obj
    using heap_strong [of h R T obj] assms(2,3) that by (auto simp: heap_inv_def simp flip: count_greater_zero_iff)
  then show ?thesis using err_retains [OF assms(1)] by (simp add: clone_value_def)
qed

lemma err_alloc:
  assumes "err_ok h" "mux_rc_alloc v h = (p, h')"
  shows "err_ok h' \<and> err_frame h h'"
proof -
  let ?h1 = "h\<lparr>hp_next := hp_next h + 1\<rparr>"
  have "err_ok ?h1" "err_frame h ?h1" using assms(1) err_same [OF assms(1), of ?h1] by (simp_all add: err_frame_def)
  then have "err_ok (drop_value v ?h1) \<and> err_frame h (drop_value v ?h1)"
    using err_releases [of ?h1 "objs v"] by (simp add: drop_value_def err_frame_def)
  moreover have "err_ok (?h1\<lparr>hp_blocks := B, hp_live := n\<rparr>) \<and> err_frame h (?h1\<lparr>hp_blocks := B, hp_live := n\<rparr>)" for B n
    by (intro conjI err_same [OF assms(1)]) (simp_all add: err_frame_def)
  ultimately show ?thesis using assms(2) by (auto simp: mux_rc_alloc_def Let_def split: if_splits)
qed

lemma err_dec:
  assumes "err_ok h" "mux_rc_dec p h = Some (b, h')"
  shows "err_ok h' \<and> err_frame h h'"
proof (cases "p = 0 \<or> \<not> b")
  case True
  have "err_ok (h\<lparr>hp_blocks := B\<rparr>) \<and> err_frame h (h\<lparr>hp_blocks := B\<rparr>)" for B
    by (intro conjI err_same [OF assms(1)]) (simp_all add: err_frame_def)
  then show ?thesis using assms True by (auto simp: mux_rc_dec_def Let_def split: if_splits option.splits)
next
  case False
  then obtain n v where b: "hp_blocks h p = Some (n, v)" using assms(2) by (auto simp: mux_rc_dec_def split: option.splits)
  let ?h1 = "h\<lparr>hp_blocks := (hp_blocks h)(p \<mapsto> (n - 1, v))\<rparr>"
  have "err_ok ?h1" by (rule err_same [OF assms(1)]) simp_all
  then have d: "err_ok (drop_value v ?h1) \<and> err_frame ?h1 (drop_value v ?h1)"
    using err_releases [of ?h1 "objs v"] by (simp add: drop_value_def)
  have eq: "h' = (drop_value v ?h1)\<lparr>hp_blocks := (hp_blocks (drop_value v ?h1))(p := None), hp_live := hp_live (drop_value v ?h1) - 1\<rparr>"
    using assms(2) False b by (simp add: mux_rc_dec_def Let_def split: if_splits)
  have "err_ok ((drop_value v ?h1)\<lparr>hp_blocks := B, hp_live := k\<rparr>)" for B k
    by (rule err_same [OF conjunct1 [OF d]]) simp_all
  then show ?thesis using d unfolding eq by (simp add: err_frame_def)
qed

lemma err_inc:
  assumes "err_ok h" "mux_rc_inc p h = Some h'"
  shows "err_ok h' \<and> err_frame h h'"
proof -
  have "err_ok (h\<lparr>hp_blocks := B\<rparr>) \<and> err_frame h (h\<lparr>hp_blocks := B\<rparr>)" for B
    by (intro conjI err_same [OF assms(1)]) (simp_all add: err_frame_def)
  then show ?thesis using assms by (auto simp: mux_rc_inc_def split: if_splits option.splits)
qed

end
