(* ===== verification/Error_Steps.thy ===== *)
theory Error_Steps
  imports Error_Laws
begin

text \<open>
  Construction and reading of typed errors keep the invariant of their tables; a reader returns
  the entry of the object it is given.
\<close>

subsection \<open>The type of a family\<close>

lemma unregistered_card:
  assumes "er_type h f = None"
  shows "card {g. ((er_type h)(f \<mapsto> t)) g = None} + 1 = card {g. er_type h g = None}"
proof -
  have fin: "finite (UNIV :: error_family set)"
    by (rule finite_subset [of _ "{JsonError, CsvError, ByteError, BytesError, EnvError, FsError, IoError, NetError, UrlError,
        UuidError, MathError, ProcessError, TlsError, DateTimeError, CliError, CryptoError, RegexError, RandomError, LogError, SyncError}"])
      (use error_family.exhaust in auto)
  have "{g. ((er_type h)(f \<mapsto> t)) g = None} = {g. er_type h g = None} - {f}" by auto
  then show ?thesis using assms card_Suc_Diff1 [of "{g. er_type h g = None}" f] finite_subset [OF subset_UNIV fin] by simp
qed

lemma next_type_word: "unat (n :: type_id) + 1 < 2 ^ 32 \<Longrightarrow> n < n + 1 \<and> unat (n + 1) = unat n + 1"
  by (simp add: word_less_nat_alt unat_word_ariths)

lemma error_type_new:
  assumes "er_type h f = None"
  obtains ty where "ot_size ty = 8" "ot_shared ty" "ot_destructor ty = Some (er_drop h f)"
    "error_type f h = (hp_next_type h, h\<lparr>hp_next_type := hp_next_type h + 1,
       hp_types := (hp_types h)(hp_next_type h \<mapsto> ty), er_type := (er_type h)(f \<mapsto> hp_next_type h)\<rparr>)"
  by (rule that [of "\<lparr> ot_name = es_type_name (spec_of f), ot_size = 8, ot_destructor = Some (er_drop h f),
      ot_copy = None, ot_shared = True, ot_equals = None, ot_compare = None, ot_hash = None \<rparr>"])
    (use assms in \<open>simp_all add: error_type_def register_shared_object_type_def object_type_new_def Let_def\<close>)

lemma ids_register:
  assumes "ids_ok h" "er_type h f = None" "t = hp_next_type h"
  shows "ids_ok (h\<lparr>hp_next_type := t + 1, hp_types := (hp_types h)(t \<mapsto> ty), er_type := (er_type h)(f \<mapsto> t)\<rparr>)"
proof -
  have "unat t + 1 + card {g. ((er_type h)(f \<mapsto> t)) g = None} < 2 ^ 32"
    using assms unregistered_card [OF assms(2), of t] by (simp add: ids_ok_def)
  then have "t < t + 1" "unat (t + 1) + card {g. ((er_type h)(f \<mapsto> t)) g = None} < 2 ^ 32"
    using next_type_word [of t] by auto
  moreover have "x < t + 1" if "x < t" for x using that \<open>t < t + 1\<close> by (rule order.strict_trans)
  ultimately show ?thesis using assms by (simp add: ids_ok_def)
qed

lemma err_register:
  fixes h :: "'z err_heap_scheme"
  assumes ok: "err_ok h" and new: "er_type h f = None"
    and ty: "ot_size ty = 8" "ot_shared ty" "ot_destructor ty = Some (er_drop h f)" and t: "t = hp_next_type h"
  defines "k \<equiv> h\<lparr>hp_next_type := t + 1, hp_types := (hp_types h)(t \<mapsto> ty), er_type := (er_type h)(f \<mapsto> t)\<rparr>"
  shows "err_ok k" "live_errors k g = live_errors h g"
proof -
  have "\<forall>t. hp_types h t \<noteq> None \<longrightarrow> t < hp_next_type h" using ok by (simp add: err_ok_def ids_ok_def)
  then have fresh: "hp_types h t = None" using t by blast
  have "obj_type_id obj < t" if "0 < hp_strong h obj" for obj
    using ok t that by (simp add: err_ok_def ids_ok_def)
  then have "obj_type_id obj \<noteq> t" if "0 < hp_strong h obj" for obj using that by auto
  then show live: "live_errors k g = live_errors h g" for g
    using new by (auto simp: live_errors_def k_def)
  have drop: "dropped k g = dropped h g" for g by (simp add: dropped_def k_def)
  have "table_ok k g" for g
    using err_okD(1) [OF ok, of g] unfolding table_ok_def issued_def live drop
    by (simp add: handle_in_def [abs_def] handed_out_def k_def)
  moreover have "type_ok k g" for g
  proof (cases "g = f")
    case True
    have "live_errors h f = {}" using new by (simp add: live_errors_def)
    then show ?thesis using True err_okD(2) [OF ok, of f] ty new unfolding type_ok_def live drop
      by (auto simp: k_def)
  next
    case False
    then have "er_drop h f \<noteq> er_drop h g" using ok by (auto simp: err_ok_def ids_ok_def dest: injD)
    then show ?thesis using False err_okD(2) [OF ok, of g] ty(3) fresh unfolding type_ok_def live drop
      by (auto simp: k_def)
  qed
  moreover have "ids_ok k" using ids_register [OF err_okD(3) [OF ok] new t] by (simp add: k_def)
  ultimately show "err_ok k" by (simp add: err_ok_def)
qed

lemma error_type_ok:
  fixes h :: "'z err_heap_scheme"
  assumes ok: "err_ok h" and t: "error_type f h = (t, h')"
  shows "err_ok h'" "live_errors h' g = live_errors h g" "er_type h' f = Some t"
    "\<exists>ty. hp_types h' t = Some ty \<and> ot_size ty = 8"
proof -
  have "err_ok h' \<and> live_errors h' g = live_errors h g \<and> er_type h' f = Some t"
  proof (cases "er_type h f")
    case None
    obtain ty where ty: "ot_size ty = 8" "ot_shared ty" "ot_destructor ty = Some (er_drop h f)"
      and k: "error_type f h = (hp_next_type h, h\<lparr>hp_next_type := hp_next_type h + 1,
        hp_types := (hp_types h)(hp_next_type h \<mapsto> ty), er_type := (er_type h)(f \<mapsto> hp_next_type h)\<rparr>)"
      by (rule error_type_new [OF None])
    show ?thesis using t k err_register [OF ok None ty refl] by auto
  next
    case (Some a)
    then show ?thesis using t ok by (simp add: error_type_def)
  qed
  then show e: "err_ok h'" "live_errors h' g = live_errors h g" "er_type h' f = Some t" by simp_all
  show "\<exists>ty. hp_types h' t = Some ty \<and> ot_size ty = 8"
    using err_okD(2) [OF e(1), of f] e(3) by (auto simp: type_ok_def)
qed

lemma error_type_frame:
  assumes "error_type f h = (t, h')"
  shows "er_table h' = er_table h \<and> er_next h' = er_next h \<and> hp_mem h' = hp_mem h \<and> hp_blocks h' = hp_blocks h \<and>
    hp_strong h' = hp_strong h \<and> hp_oom h' = hp_oom h \<and> er_drop h' = er_drop h \<and> entry_of h' g obj = entry_of h g obj \<and> heap_inv h' R T = heap_inv h R T"
proof (cases "er_type h f")
  case None
  obtain ty where "error_type f h = (hp_next_type h, h\<lparr>hp_next_type := hp_next_type h + 1,
      hp_types := (hp_types h)(hp_next_type h \<mapsto> ty), er_type := (er_type h)(f \<mapsto> hp_next_type h)\<rparr>)"
    by (rule error_type_new [OF None])
  then have h': "h' = h\<lparr>hp_next_type := hp_next_type h + 1, hp_types := (hp_types h)(hp_next_type h \<mapsto> ty),
      er_type := (er_type h)(f \<mapsto> hp_next_type h)\<rparr>" using assms by simp
  show ?thesis
    unfolding h' by (simp add: entry_of_def handle_in_def heap_inv_def heap_ok_def held_def rc_of_def [abs_def] buffers_ok_def handed_out_def)
next
  case (Some a)
  then show ?thesis using assms by (simp add: error_type_def)
qed

subsection \<open>A new entry\<close>

lemma handle_unused: "table_ok h f \<Longrightarrow> er_table h f (er_next h f) = None"
proof (rule ccontr)
  assume ok: "table_ok h f" and "er_table h f (er_next h f) \<noteq> None"
  then have "Some (er_next h f) \<in> handle_in h ` issued h f" unfolding table_ok_def by (metis domI imageI not_None_eq)
  then show False using ok by (auto simp: table_ok_def)
qed

lemma err_bump:
  assumes "err_ok h" "hp_buf h (hp_nbuf h) = 0" "er_next h f < i"
  shows "err_ok (h\<lparr>hp_nbuf := hp_nbuf h + 1, er_next := (er_next h)(f := i)\<rparr>)"
    (is "err_ok ?h")
proof -
  have fields: "handed_out ?h = handed_out h" "handle_in ?h = handle_in h" "live_errors ?h = live_errors h"
    "dropped ?h = dropped h" "issued ?h = issued h"
    using assms(2) by (auto simp: handed_out_def handle_in_def live_errors_def dropped_def issued_def lessThan_Suc fun_eq_iff)
  have le: "er_next h g \<le> er_next ?h g" for g using assms(3) by simp
  have "table_ok ?h g" for g
    using err_okD(1) [OF assms(1), of g] order.strict_trans2 [OF _ le [of g]] unfolding table_ok_def fields
    by (simp del: fun_upd_apply) blast
  moreover have "type_ok ?h g" for g
    using err_okD(2) [OF assms(1), of g] unfolding type_ok_def fields by simp
  ultimately show ?thesis using err_okD(3) [OF assms(1)] by (simp add: err_ok_def ids_ok_def)
qed

lemma fresh_buffer:
  assumes "buffers_ok h" "hp_buf h (hp_nbuf h) \<noteq> 0"
  shows "hp_buf h (hp_nbuf h) \<notin> handed_out h"
proof
  assume "hp_buf h (hp_nbuf h) \<in> handed_out h"
  then obtain j where j: "j < hp_nbuf h" "hp_buf h j = hp_buf h (hp_nbuf h)" by (auto simp: handed_out_def)
  moreover have "inj_on (hp_buf h) {i. hp_buf h i \<noteq> 0}" using assms(1) by (simp add: buffers_ok_def)
  ultimately have "j = hp_nbuf h" using assms(2) by (intro inj_onD [of "hp_buf h"]) auto
  then show False using j by simp
qed

lemma registered_type:
  "err_ok h \<Longrightarrow> er_type h f = Some t \<Longrightarrow>
     \<exists>ty. hp_types h t = Some ty \<and> ot_size ty = 8 \<and> ot_destructor ty = Some (er_drop h f) \<and> ot_shared ty"
  using err_okD(2) [of h f] unfolding type_ok_def by blast

lemma types_apart: "err_ok h \<Longrightarrow> er_type h f = Some t \<Longrightarrow> er_type h g = Some t \<Longrightarrow> f = g"
proof -
  assume ok: "err_ok h" and t: "er_type h f = Some t" "er_type h g = Some t"
  have "er_drop h f = er_drop h g"
    using registered_type [OF ok t(1)] registered_type [OF ok t(2)] by force
  then show "f = g" using ok by (auto simp: err_ok_def ids_ok_def dest: injD)
qed

lemma issued_handed_out: "err_ok h \<Longrightarrow> issued h f \<subseteq> handed_out h"
  using err_okD(1) [of h f] by (auto simp: table_ok_def)

text \<open>The state after an error object is made and its temporary block is gone.\<close>

definition new_error :: "error_family \<Rightarrow> object_ref \<Rightarrow> error_entry \<Rightarrow> 'z err_heap_scheme \<Rightarrow> 'z err_heap_scheme" where
  "new_error f obj e h = h\<lparr>hp_next := hp_next h + 1, hp_strong := (hp_strong h)(obj := 1), hp_nbuf := hp_nbuf h + 1,
     hp_mem := (hp_mem h)(obj_ptr obj := le_bytes 8 (er_next h f)), er_next := (er_next h)(f := er_next h f + 1),
     er_table := (er_table h)(f := (er_table h f)(er_next h f \<mapsto> e))\<rparr>"

definition can_make :: "error_family \<Rightarrow> object_ref \<Rightarrow> 'z err_heap_scheme \<Rightarrow> bool" where
  "can_make f obj h \<longleftrightarrow> err_ok h \<and> buffers_ok h \<and> obj_ptr obj = hp_buf h (hp_nbuf h) \<and> hp_buf h (hp_nbuf h) \<noteq> 0 \<and>
     er_type h f = Some (obj_type_id obj) \<and> obj_size obj = 8 \<and> er_next h f < i64_max"

lemma can_make_fresh:
  assumes "can_make f obj h"
  shows "obj_ptr obj \<notin> handed_out h" "obj_ptr obj \<notin> issued h g" "hp_strong h obj = 0"
proof -
  show p: "obj_ptr obj \<notin> handed_out h" using assms fresh_buffer [of h] by (simp add: can_make_def)
  then show "obj_ptr obj \<notin> issued h g" using assms issued_handed_out [of h g] by (auto simp: can_make_def)
  show "hp_strong h obj = 0" using p assms by (auto simp: can_make_def buffers_ok_def)
qed

lemma new_error_fields:
  assumes "can_make f obj h"
  shows "handed_out (new_error f obj e h) = insert (obj_ptr obj) (handed_out h)"
    "handle_in (new_error f obj e h) = (handle_in h)(obj_ptr obj := Some (er_next h f))"
    "dropped (new_error f obj e h) = dropped h"
    "live_errors (new_error f obj e h) g = (if g = f then insert obj (live_errors h g) else live_errors h g)"
    "issued (new_error f obj e h) g = (if g = f then insert (obj_ptr obj) (issued h g) else issued h g)"
proof -
  have c: "err_ok h" "obj_ptr obj = hp_buf h (hp_nbuf h)" "obj_ptr obj \<noteq> 0" "er_type h f = Some (obj_type_id obj)"
    using assms by (simp_all add: can_make_def)
  have "0 < er_next h f" using err_okD(1) [OF c(1), of f] by (simp add: table_ok_def)
  then have "in_i64 (er_next h f)" using assms by (simp add: can_make_def in_i64_def i64_min_def)
  then show "handle_in (new_error f obj e h) = (handle_in h)(obj_ptr obj := Some (er_next h f))"
    by (auto simp: handle_in_def new_error_def fun_eq_iff load_stored)
  show "handed_out (new_error f obj e h) = insert (obj_ptr obj) (handed_out h)"
    using c(2,3) by (auto simp: handed_out_def new_error_def lessThan_Suc)
  show d: "dropped (new_error f obj e h) = dropped h" by (simp add: dropped_def new_error_def fun_eq_iff)
  have "er_type h g \<noteq> Some (obj_type_id obj)" if "g \<noteq> f" using types_apart [OF c(1,4)] that by blast
  then show l: "live_errors (new_error f obj e h) g = (if g = f then insert obj (live_errors h g) else live_errors h g)"
    using c(4) can_make_fresh(3) [OF assms] by (auto simp: live_errors_def new_error_def)
  show "issued (new_error f obj e h) g = (if g = f then insert (obj_ptr obj) (issued h g) else issued h g)"
    unfolding issued_def l d by auto
qed

lemma new_error_table:
  assumes "can_make f obj h" shows "table_ok (new_error f obj e h) g"
proof -
  note fld = new_error_fields [OF assms] and new = can_make_fresh [OF assms]
  have ok: "table_ok h g" using assms by (simp add: can_make_def err_okD)
  have img: "(handle_in h)(obj_ptr obj := x) ` issued h g = handle_in h ` issued h g" for x
    using new(2) [of g] by (intro image_cong) auto
  have inj: "inj_on ((handle_in h)(obj_ptr obj := x)) (issued h g)" for x
  proof -
    have "inj_on ((handle_in h)(obj_ptr obj := x)) (issued h g) = inj_on (handle_in h) (issued h g)"
      by (rule inj_on_cong) (use new(2) [of g] in auto)
    then show ?thesis using ok by (simp add: table_ok_def)
  qed
  show ?thesis
  proof (cases "g = f")
    case False
    then show ?thesis using ok img inj new(2) [of g] unfolding table_ok_def fld
      by (auto simp: new_error_def)
  next
    case True
    have "Some (er_next h f) \<notin> handle_in h ` issued h f" using ok True by (auto simp: table_ok_def)
    moreover have "obj_ptr obj \<notin> dropped h f" using new(2) [of f] by (simp add: issued_def)
    ultimately show ?thesis using ok True img inj new(2) [of f] unfolding table_ok_def fld
      by (auto simp: new_error_def)
  qed
qed

lemma new_error_ok:
  assumes "can_make f obj h" shows "err_ok (new_error f obj e h)"
proof -
  note fld = new_error_fields [OF assms]
  have c: "err_ok h" "er_type h f = Some (obj_type_id obj)" "obj_size obj = 8" using assms by (simp_all add: can_make_def)
  have "type_ok (new_error f obj e h) g" for g
    using err_okD(2) [OF c(1), of g] c(3) unfolding type_ok_def fld by (auto simp: new_error_def split: if_splits)
  moreover have "obj_type_id obj < hp_next_type h"
    using registered_type [OF c(1,2)] err_okD(3) [OF c(1)] by (auto simp: ids_ok_def)
  moreover have "inj_on obj_ptr {o'. 0 < hp_strong (new_error f obj e h) o'}"
  proof -
    have "{o'. 0 < hp_strong (new_error f obj e h) o'} = insert obj {o'. 0 < hp_strong h o'}"
      by (auto simp: new_error_def)
    moreover have "obj_ptr obj \<notin> obj_ptr ` {o'. 0 < hp_strong h o'}"
      using assms can_make_fresh(1) [OF assms] by (auto simp: can_make_def buffers_ok_def)
    ultimately show ?thesis using err_okD(3) [OF c(1)] can_make_fresh(3) [OF assms] by (simp add: ids_ok_def)
  qed
  ultimately have "ids_ok (new_error f obj e h)"
    using err_okD(3) [OF c(1)] by (auto simp: ids_ok_def new_error_def)
  then show ?thesis using new_error_table [OF assms] \<open>\<And>g. type_ok (new_error f obj e h) g\<close> by (simp add: err_ok_def)
qed

lemma new_error_entries:
  assumes "can_make f obj h"
  shows "entry_of (new_error f obj e h) f obj = Some e"
    "o' \<in> live_errors h g \<Longrightarrow> entry_of (new_error f obj e h) g o' = entry_of h g o'"
proof -
  note fld = new_error_fields [OF assms]
  show "entry_of (new_error f obj e h) f obj = Some e" unfolding entry_of_def fld by (simp add: new_error_def)
  show "entry_of (new_error f obj e h) g o' = entry_of h g o'" if o': "o' \<in> live_errors h g"
  proof -
    have i: "obj_ptr o' \<in> issued h g" using o' by (simp add: issued_def)
    then have "obj_ptr o' \<noteq> obj_ptr obj" using can_make_fresh(2) [OF assms, of g] by auto
    moreover obtain j where "handle_in h (obj_ptr o') = Some j" "j < er_next h g"
      using assms i err_okD(1) [of h g] by (auto simp: can_make_def table_ok_def)
    ultimately show ?thesis unfolding entry_of_def fld by (auto simp: new_error_def)
  qed
qed

lemma heap_inv_grow:
  assumes "heap_inv h R T" "hp_blocks h' = hp_blocks h" "hp_live h' = hp_live h" "hp_strong h' = hp_strong h"
    "hp_buf h' = hp_buf h" "hp_nbuf h' = hp_nbuf h" "hp_freed h' = hp_freed h" "hp_next h \<le> hp_next h'"
  shows "heap_inv h' R T"
proof -
  have "heap_ok h R T" "buffers_ok h" using assms(1) by (simp_all add: heap_inv_def)
  moreover have "buffers_ok h'" by (rule buffers_same [OF \<open>buffers_ok h\<close>]) (simp_all add: assms)
  moreover have "\<forall>p\<in>#R. 0 < p \<and> p < hp_next h'" "0 < hp_next h'"
    using \<open>heap_ok h R T\<close> assms(8) by (fastforce simp: heap_ok_def)+
  ultimately show ?thesis using assms(2-4) by (simp add: heap_inv_def heap_ok_def held_def rc_of_def [abs_def])
qed

lemma new_error_inv:
  assumes "can_make f obj h" "heap_inv h R T"
  shows "heap_inv (new_error f obj e h) R (add_mset obj T)"
proof -
  have "heap_inv (h\<lparr>hp_nbuf := hp_nbuf h + 1, hp_strong := (hp_strong h)(obj := 1)\<rparr>) R (T + mset [obj])"
    using fresh_object_inv [OF assms(2), of "obj_ptr obj" obj] assms(1) by (simp add: can_make_def)
  then have "heap_inv (new_error f obj e h) R (T + mset [obj])"
    by (rule heap_inv_grow) (simp_all add: new_error_def)
  then show ?thesis by simp
qed

subsection \<open>Construction\<close>

lemma error_type_tables:
  "error_type f (h\<lparr>er_next := n, er_table := T\<rparr>) = (fst (error_type f h), snd (error_type f h)\<lparr>er_next := n, er_table := T\<rparr>)"
  by (simp add: error_type_def register_shared_object_type_def object_type_new_def Let_def split: option.split)

lemma wrap_next: "i < i64_max \<Longrightarrow> 0 < i \<Longrightarrow> wrap_i64 (i + 1) = i + 1"
  by (rule wrap_i64_id) (simp add: in_i64_def i64_min_def)

lemma error_value_failed:
  assumes "error_type f h = (t, k)" "hp_types k t = Some ty" "ot_size ty = 8" "er_next h f < i64_max" "0 < er_next h f"
    "er_table h f (er_next h f) = None" "er_table k = er_table h" "er_next k = er_next h" "hp_buf k (hp_nbuf k) = 0"
  shows "error_value H f kind detail extra h = Some (VString (es_alloc_failed (spec_of f)),
    k\<lparr>hp_nbuf := hp_nbuf k + 1, er_next := (er_next k)(f := er_next k f + 1)\<rparr>)"
proof -
  have "(er_table k)(f := (er_table k f)(er_next k f := None)) = er_table k" using assms by (auto simp: fun_eq_iff)
  then show ?thesis using assms(7-)
    by (simp add: error_value_def set_entry_def Let_def error_type_tables assms(1-6) alloc_object_def wrap_next)
qed

lemma error_value_made:
  assumes "error_type f h = (t, k)" "hp_types k t = Some ty" "ot_size ty = 8" "er_next h f < i64_max" "0 < er_next h f"
    "er_table k = er_table h" "er_next k = er_next h" "hp_buf k (hp_nbuf k) \<noteq> 0" "\<not> hp_oom k (hp_next k)"
    "hp_blocks k (hp_next k) = None" "0 < hp_next k"
  shows "error_value H f kind detail extra h = 
    (let obj = \<lparr> obj_ptr = hp_buf k (hp_nbuf k), obj_type_id = t, obj_size = 8 \<rparr>
     in Some (VObject obj, new_error f obj \<lparr> ee_kind = kind, ee_detail = detail, ee_extra = extra \<rparr> k))"
  using assms(6-)
  by (simp add: error_value_def set_entry_def Let_def error_type_tables assms(1-5) alloc_object_def wrap_next
      mux_rc_alloc_def deref_def get_object_ptr_def clone_value_def mux_rc_dec_def drop_value_def retain_obj_def release_obj_def
      new_error_def) (rule err_heap.equality; simp add: fun_upd_idem)

text \<open>What construction does, whatever the allocator answers.\<close>

lemma error_value_cases:
  fixes h :: "'z err_heap_scheme"
  assumes inv: "heap_inv h R T" and ok: "err_ok h" and room: "er_next h f < i64_max" and mem: "\<And>p. \<not> hp_oom h p"
  obtains (failed) h' where "error_value H f kind detail extra h = Some (VString (es_alloc_failed (spec_of f)), h')"
      "heap_inv h' R T" "err_ok h'" "\<And>g. live_errors h' g = live_errors h g" "\<And>g o'. entry_of h' g o' = entry_of h g o'"
      "hp_strong h' = hp_strong h" "hp_oom h' = hp_oom h"
  | (made) obj h' where "error_value H f kind detail extra h = Some (VObject obj, h')"
      "heap_inv h' R (add_mset obj T)" "err_ok h'"
      "\<And>g. live_errors h' g = (if g = f then insert obj (live_errors h g) else live_errors h g)"
      "entry_of h' f obj = Some \<lparr> ee_kind = kind, ee_detail = detail, ee_extra = extra \<rparr>"
      "\<And>g o'. o' \<in> live_errors h g \<Longrightarrow> entry_of h' g o' = entry_of h g o'" "hp_strong h' = (hp_strong h)(obj := 1)"
      "hp_oom h' = hp_oom h"
proof -
  obtain t k where tk: "error_type f h = (t, k)" by fastforce
  note k = error_type_ok [OF ok tk]
  have fr: "er_table k = er_table h" "er_next k = er_next h" "hp_oom k = hp_oom h" "heap_inv k R T"
    using error_type_frame [OF tk] inv by auto
  obtain ty where ty: "hp_types k t = Some ty" "ot_size ty = 8" using k(4) by blast
  have pos: "0 < er_next h f" using err_okD(1) [OF ok, of f] by (simp add: table_ok_def)
  have strong: "hp_strong k = hp_strong h" using error_type_frame [OF tk] by blast
  show thesis
  proof (cases "hp_buf k (hp_nbuf k) = 0")
    case True
    let ?h = "k\<lparr>hp_nbuf := hp_nbuf k + 1, er_next := (er_next k)(f := er_next k f + 1)\<rparr>"
    have "heap_inv ?h R T" using fr(4) True
      by (auto simp: heap_inv_def heap_ok_def held_def rc_of_def [abs_def] buffers_ok_def handed_out_def lessThan_Suc)
    moreover have "err_ok ?h" by (rule err_bump [OF k(1) True]) simp
    moreover have "live_errors ?h g = live_errors h g" for g using k(2) by (auto simp: live_errors_def)
    moreover have "entry_of ?h g o' = entry_of h g o'" for g o'
      using error_type_frame [OF tk, of g o'] by (simp add: entry_of_def handle_in_def)
    ultimately show thesis
      using failed error_value_failed [OF tk ty room pos handle_unused [OF err_okD(1) [OF ok]] fr(1,2) True] strong fr(3) by simp
  next
    case False
    let ?obj = "\<lparr> obj_ptr = hp_buf k (hp_nbuf k), obj_type_id = t, obj_size = 8 \<rparr>"
    have c: "can_make f ?obj k" using k fr room False by (simp add: can_make_def heap_inv_def)
    have "hp_blocks k (hp_next k) = None" "0 < hp_next k" using fr(4) heap_okD(5) [of k R T] by (simp_all add: heap_inv_def heap_ok_def)
    note v = error_value_made [OF tk ty room pos fr(1,2) False _ this, of H kind detail extra]
    show thesis
      by (rule made [OF _ new_error_inv [OF c fr(4)] new_error_ok [OF c] _ new_error_entries(1) [OF c]])
        (use v mem fr(3) new_error_fields(4) [OF c] k(2) new_error_entries(2) [OF c] error_type_frame [OF tk] strong
         in \<open>auto simp: Let_def new_error_def\<close>)
  qed
qed

subsection \<open>Reading\<close>

lemma lookup_live:
  assumes ok: "err_ok h" and d: "deref p h = Some (VObject obj)" and l: "obj \<in> live_errors h f" and p: "p \<noteq> 0"
  shows "error_lookup f p h = Some (entry_of h f obj, h)" "entry_of h f obj \<noteq> None"
proof -
  have t: "er_type h f = Some (obj_type_id obj)" using l by (simp add: live_errors_def)
  have "obj_ptr obj \<in> issued h f" using l by (simp add: issued_def)
  then obtain i where i: "handle_in h (obj_ptr obj) = Some i" "obj_ptr obj \<in> handed_out h"
    using err_okD(1) [OF ok, of f] by (auto simp: table_ok_def)
  obtain table where s: "errors h f = Some table" using errors_seen [OF err_okD(1) [OF ok]] by blast
  have "table i = er_table h f i" "er_table h f i \<noteq> None"
    using errors_live(2) [OF err_okD(1) [OF ok] s l i(1)] by simp_all
  then show "error_lookup f p h = Some (entry_of h f obj, h)" "entry_of h f obj \<noteq> None"
    using t d p i s by (simp_all add: error_lookup_def family_handle_def error_type_def error_handle_def get_object_type_id_def
        get_object_ptr_def entry_of_def handle_in_def handed_out_def)
qed

text \<open>A null pointer, another kind of value or an object of another type has no entry.\<close>

lemma lookup_other:
  fixes h :: "'z err_heap_scheme"
  assumes ok: "err_ok h" and d: "p = 0 \<or> (\<exists>v. deref p h = Some v \<and> (\<forall>obj. v = VObject obj \<longrightarrow> 0 < hp_strong h obj \<and> obj \<notin> live_errors h f))"
  obtains h' where "error_lookup f p h = Some (None, h')" "h' = h \<or> h' = snd (error_type f h)"
proof (cases "p = 0 \<and> \<not> es_eager (spec_of f)")
  case True
  then show thesis using that by (simp add: error_lookup_def family_handle_def)
next
  case False
  obtain t k where tk: "error_type f h = (t, k)" by fastforce
  note k = error_type_ok [OF ok tk]
  have b: "hp_blocks k = hp_blocks h" "hp_strong k = hp_strong h" using error_type_frame [OF tk] by auto
  have "error_handle p t k = Some None"
  proof (cases "p = 0")
    case False
    then obtain v where v: "deref p h = Some v" "\<And>obj. v = VObject obj \<Longrightarrow> 0 < hp_strong h obj \<and> obj \<notin> live_errors h f" using d by auto
    then have "obj_type_id obj \<noteq> t" if "v = VObject obj" for obj
      using that k(2,3) b(2) by (force simp: live_errors_def)
    then show ?thesis using v(1) b(1) False
      by (cases v) (auto simp: error_handle_def deref_def get_object_type_id_def get_object_ptr_def)
  qed (simp add: error_handle_def)
  then show thesis using False tk by (intro that [of k]) (auto simp: error_lookup_def family_handle_def)
qed

definition same_errors :: "'z err_heap_scheme \<Rightarrow> 'z err_heap_scheme \<Rightarrow> bool" where
  "same_errors h h' \<longleftrightarrow> hp_blocks h' = hp_blocks h \<and> hp_strong h' = hp_strong h \<and> hp_oom h' = hp_oom h \<and>
     (\<forall>g. live_errors h' g = live_errors h g) \<and> (\<forall>g obj. entry_of h' g obj = entry_of h g obj)"

lemma lookup_ok:
  fixes h :: "'z err_heap_scheme"
  assumes ok: "err_ok h" and inv: "heap_inv h R T" and p: "p = 0 \<or> p \<in># R"
  obtains entry h' where "error_lookup f p h = Some (entry, h')" "err_ok h'" "heap_inv h' R T" "same_errors h h'"
proof (cases "\<exists>obj. p \<noteq> 0 \<and> deref p h = Some (VObject obj) \<and> obj \<in> live_errors h f")
  case True
  then obtain obj where "p \<noteq> 0" "deref p h = Some (VObject obj)" "obj \<in> live_errors h f" by blast
  from lookup_live(1) [OF ok this(2,3,1)] show thesis
    by (rule that) (simp_all add: ok inv same_errors_def)
next
  case False
  have live: "0 < hp_strong h obj" if "deref p h = Some (VObject obj)" for obj
    using deref_objs [OF inv, of p "VObject obj"] that inv heap_strong [of h R T obj]
    by (auto simp: heap_inv_def simp flip: count_greater_zero_iff)
  have "p = 0 \<or> (\<exists>v. deref p h = Some v \<and> (\<forall>obj. v = VObject obj \<longrightarrow> 0 < hp_strong h obj \<and> obj \<notin> live_errors h f))"
    using False p live deref_owned [OF inv, of p] by auto
  then obtain h' where h': "error_lookup f p h = Some (None, h')" "h' = h \<or> h' = snd (error_type f h)"
    using lookup_other [OF ok] by blast
  obtain t k where tk: "error_type f h = (t, k)" by fastforce
  have "err_ok k" "heap_inv k R T" "same_errors h k"
    using error_type_ok(1,2) [OF ok tk] error_type_frame [OF tk] inv by (auto simp: same_errors_def)
  moreover have "same_errors h h" by (simp add: same_errors_def)
  ultimately show thesis using that h' tk ok inv by auto
qed

subsection \<open>Taking an error out of a result\<close>

lemma shared_clone:
  fixes h :: "'z err_heap_scheme"
  assumes ok: "err_ok h" and l: "obj \<in> live_errors h f" and mem: "\<And>p. \<not> hp_oom h p" and n: "0 < hp_next h"
  obtains h' where "deep_clone_object H obj h = Some (VObject obj, h')" "err_ok h'" "err_frame h h'"
proof -
  obtain ty where ty: "hp_types h (obj_type_id obj) = Some ty" "ot_shared ty" by (rule live_error_type [OF ok l])
  have s: "0 < hp_strong h obj" using l by (simp add: live_errors_def)
  define h1 where "h1 = retain_obj obj h"
  define h2 where "h2 = retain_obj obj h1"
  define h3 where "h3 = snd (mux_rc_alloc (VObject obj) h2)"
  define h4 where "h4 = retain_obj obj h3"
  let ?p = "hp_next h"
  have a: "mux_rc_alloc (VObject obj) h2 = (?p, h3)" "hp_blocks h3 ?p = Some (1, VObject obj)" "hp_strong h3 = hp_strong h2"
    using mem [of ?p] by (simp_all add: h3_def mux_rc_alloc_def Let_def h2_def h1_def retain_obj_def)
  have "mux_rc_dec ?p h4 \<noteq> None" using a(2) by (auto simp: mux_rc_dec_def h4_def Let_def)
  then obtain b h5 where d: "mux_rc_dec ?p h4 = Some (b, h5)" by auto
  have "err_ok h1" "err_frame h h1" using err_retains [OF ok, of "[obj]"] s by (simp_all add: h1_def)
  moreover from this have "err_ok h2" "err_frame h1 h2" using err_retains [of h1 "[obj]"] by (simp_all add: h1_def h2_def)
  moreover from this have "err_ok h3" "err_frame h2 h3" using err_alloc [OF _ a(1)] by simp_all
  moreover from this have "err_ok h4" "err_frame h3 h4"
    using err_retains [of h3 "[obj]"] a(3) by (simp_all add: h4_def h2_def)
  moreover from this have "err_ok h5" "err_frame h4 h5" using err_dec [OF _ d] by simp_all
  ultimately have e: "err_ok h5" "err_frame h h5" by (blast intro: err_frame_trans)+
  have "deep_clone_object H obj h = Some (VObject obj, release_obj obj h5)"
  proof -
    have "hp_types h1 = hp_types h" by (simp add: h1_def)
    then have "copy_object H (Some (VObject obj)) h1 = (?p, h3)"
      using ty a(1) by (simp add: copy_object_def get_object_type_id_def clone_value_def h2_def)
    then show ?thesis using a(2) d n
      by (simp add: deep_clone_object_def clone_value_def deref_def free_object_def h4_def flip: h1_def)
  qed
  then show thesis using that err_release [OF e(1)] err_frame_trans [OF e(2) frame_release] by blast
qed

end
