(* ===== verification/Error_Machine.thy ===== *)
theory Error_Machine
  imports Error_Steps
begin

text \<open>
  Programs that make, share, read and release typed errors. A state carries the references the
  program owns and, as a record of the past, what each error object was made with.
\<close>

definition err_init :: "(nat \<Rightarrow> u64) \<Rightarrow> (error_family \<Rightarrow> u64) \<Rightarrow> err_heap" where
  "err_init buf drops = heap.extend (heap_init (\<lambda>_. False) buf)
     \<lparr> er_table = (\<lambda>_. Map.empty), er_next = (\<lambda>_. 1), er_type = (\<lambda>_. None), er_drop = drops \<rparr>"

text \<open>What an error constructor hands back: the object, or the text it falls back to.\<close>

definition is_error :: "error_family \<Rightarrow> mux_value \<Rightarrow> bool" where
  "is_error f v \<longleftrightarrow> v = VString (es_alloc_failed (spec_of f)) \<or> (\<exists>obj. v = VObject obj)"

type_synonym made = "object_ref \<rightharpoonup> error_family \<times> error_entry"

definition note_made :: "error_family \<Rightarrow> error_entry \<Rightarrow> mux_value option \<Rightarrow> made \<Rightarrow> made" where
  "note_made f e v G = (case v of
       Some (VObject obj) \<Rightarrow> G(obj \<mapsto> (f, e))
     | Some (VResult (Inl (VObject obj))) \<Rightarrow> G(obj \<mapsto> (f, e))
     | _ \<Rightarrow> G)"

inductive err_reach :: "hooks \<Rightarrow> err_heap \<Rightarrow> err_heap \<Rightarrow> nat multiset \<Rightarrow> made \<Rightarrow> bool"
  for H :: hooks and h0 :: err_heap where
  start: "err_reach H h0 h0 {#} Map.empty"
| plain: "err_reach H h0 h R G \<Longrightarrow> objs v = [] \<Longrightarrow> mux_rc_alloc v h = (p, h') \<Longrightarrow> err_reach H h0 h' (own p R) G"
| result_err: "err_reach H h0 h R G \<Longrightarrow> er_next h f < i64_max \<Longrightarrow>
    error_result_err H f kind detail extra h = Some (p, h') \<Longrightarrow>
    err_reach H h0 h' (own p R)
      (note_made f \<lparr> ee_kind = es_from_std_kind (spec_of f) kind, ee_detail = detail, ee_extra = extra \<rparr> (deref p h') G)"
| from_message: "err_reach H h0 h R G \<Longrightarrow> er_next h f < i64_max \<Longrightarrow> message \<in># R \<Longrightarrow> deref message h = Some v \<Longrightarrow>
    error_from_message H f message h = Some (p, h') \<Longrightarrow>
    err_reach H h0 h' (own p R)
      (note_made f \<lparr> ee_kind = es_from_std_kind (spec_of f) (es_default (spec_of f)), ee_detail = value_display H v, ee_extra = [] \<rparr>
        (deref p h') G)"
| getter: "err_reach H h0 h R G \<Longrightarrow> error = 0 \<or> error \<in># R \<Longrightarrow> (\<And>e. objs (get e) = []) \<Longrightarrow>
    error_getter get f error h = Some (p, h') \<Longrightarrow> err_reach H h0 h' (own p R) G"
| message: "err_reach H h0 h R G \<Longrightarrow> error = 0 \<or> error \<in># R \<Longrightarrow>
    error_message f error h = Some (p, h') \<Longrightarrow> err_reach H h0 h' (own p R) G"
| to_string: "err_reach H h0 h R G \<Longrightarrow> error = 0 \<or> error \<in># R \<Longrightarrow>
    error_to_string f error h = Some (p, h') \<Longrightarrow> err_reach H h0 h' (own p R) G"
| result_data: "err_reach H h0 h R G \<Longrightarrow> r \<in># R \<Longrightarrow> deref r h = Some (VResult (Inl (VObject obj))) \<Longrightarrow>
    mux_result_data H r h = Some (p, h') \<Longrightarrow> err_reach H h0 h' (own p R) G"
| rewrite: "err_reach H h0 h R G \<Longrightarrow> p \<in># R \<Longrightarrow> deref p h = Some (VBytes bytes) \<Longrightarrow>
    err_reach H h0 (set_block p (VBytes bytes') h) R G"
| inc: "err_reach H h0 h R G \<Longrightarrow> p \<in># R \<Longrightarrow> mux_rc_inc p h = Some h' \<Longrightarrow> err_reach H h0 h' (add_mset p R) G"
| dec: "err_reach H h0 h R G \<Longrightarrow> p \<in># R \<Longrightarrow> mux_rc_dec p h = Some (b, h') \<Longrightarrow> err_reach H h0 h' (R - {#p#}) G"

definition made_ok :: "err_heap \<Rightarrow> made \<Rightarrow> bool" where
  "made_ok h G \<longleftrightarrow> (\<forall>obj. 0 < hp_strong h obj \<longrightarrow>
     (\<exists>f e. G obj = Some (f, e) \<and> obj \<in> live_errors h f \<and> entry_of h f obj = Some e))"

definition err_inv :: "err_heap \<Rightarrow> nat multiset \<Rightarrow> object_ref multiset \<Rightarrow> made \<Rightarrow> bool" where
  "err_inv h R T G \<longleftrightarrow> heap_inv h R T \<and> err_ok h \<and> (\<forall>p. \<not> hp_oom h p) \<and> made_ok h G"

subsection \<open>The invariant\<close>

lemma made_frame:
  assumes "made_ok h G" "err_frame h h'" shows "made_ok h' G"
proof -
  have "\<exists>f e. G obj = Some (f, e) \<and> obj \<in> live_errors h' f \<and> entry_of h' f obj = Some e" if "0 < hp_strong h' obj" for obj
  proof -
    have "0 < hp_strong h obj" using that assms(2) by (simp add: err_frame_def)
    then obtain f e where "G obj = Some (f, e)" "obj \<in> live_errors h f" "entry_of h f obj = Some e"
      using assms(1) unfolding made_ok_def by blast
    then show ?thesis using that assms(2) err_frame_entry [OF assms(2)] by (auto simp: live_errors_def err_frame_def)
  qed
  then show ?thesis by (simp add: made_ok_def)
qed

lemma made_same: "made_ok h G \<Longrightarrow> same_errors h h' \<Longrightarrow> made_ok h' G"
  by (simp add: made_ok_def same_errors_def)

lemma inv_frame: "err_inv h R T G \<Longrightarrow> err_frame h h' \<Longrightarrow> err_ok h' \<Longrightarrow> heap_inv h' R' T' \<Longrightarrow> err_inv h' R' T' G"
  using made_frame [of h G h'] by (simp add: err_inv_def err_frame_def)

lemma inv_alloc:
  assumes "err_inv h R (T + mset (objs v)) G"
  obtains p h' where "mux_rc_alloc v h = (p, h')" "err_inv h' (own p R) T G" "deref p h' = Some v"
proof -
  obtain p h' where a: "mux_rc_alloc v h = (p, h')" by fastforce
  have i: "heap_inv h R (T + mset (objs v))" "err_ok h" "\<not> hp_oom h (hp_next h)" using assms by (simp_all add: err_inv_def)
  have "heap_inv h' (own p R) T" using alloc_inv [OF i(1) a] by (simp add: own_def)
  then have "err_inv h' (own p R) T G" using inv_frame [OF assms] err_alloc [OF i(2) a] by blast
  moreover have "deref p h' = Some v" using a i(3) by (auto simp: mux_rc_alloc_def Let_def deref_def)
  ultimately show thesis using that a by blast
qed

lemma plain_result:
  assumes "err_inv h R {#} G" "objs v = []"
  shows "\<exists>p h'. mux_rc_alloc v h = (p, h') \<and> deref p h' = Some v"
  using inv_alloc [of h R "{#}" v G] assms by fastforce

lemma inv_value:
  assumes "err_inv h R {#} G" "er_next h f < i64_max"
  obtains v h' where "error_value H f kind detail extra h = Some (v, h')"
    "err_inv h' R (mset (objs v)) (note_made f \<lparr> ee_kind = kind, ee_detail = detail, ee_extra = extra \<rparr> (Some v) G)"
    "is_error f v"
proof -
  let ?e = "\<lparr> ee_kind = kind, ee_detail = detail, ee_extra = extra \<rparr>"
  have i: "heap_inv h R {#}" "err_ok h" "\<And>p. \<not> hp_oom h p" "made_ok h G" using assms(1) by (simp_all add: err_inv_def)
  show thesis
  proof (cases rule: error_value_cases [OF i(1,2) assms(2) i(3), of H kind detail extra, case_names failed made])
    case (failed h')
    moreover have "made_ok h' G" using i(4) failed by (simp add: made_ok_def)
    ultimately show thesis using that [of "VString (es_alloc_failed (spec_of f))" h'] i(3)
      by (simp add: err_inv_def note_made_def is_error_def)
  next
    case (made obj h')
    have "made_ok h' (G(obj \<mapsto> (f, ?e)))"
      unfolding made_ok_def
    proof (intro allI impI)
      fix o' assume "0 < hp_strong h' o'"
      show "\<exists>fa e. (G(obj \<mapsto> (f, ?e))) o' = Some (fa, e) \<and> o' \<in> live_errors h' fa \<and> entry_of h' fa o' = Some e"
      proof (cases "o' = obj")
        case False
        then have "0 < hp_strong h o'" using \<open>0 < hp_strong h' o'\<close> made(7) by simp
        then obtain g e where "G o' = Some (g, e)" "o' \<in> live_errors h g" "entry_of h g o' = Some e"
          using i(4) unfolding made_ok_def by blast
        then show ?thesis using made(4,6) False by auto
      qed (use made(4,5) in simp)
    qed
    then show thesis using made(1-3) that [of "VObject obj" h'] i(3) made(8)
      by (simp add: err_inv_def note_made_def is_error_def)
  qed
qed

lemma inv_lookup:
  assumes "err_inv h R T G" "error = 0 \<or> error \<in># R"
  obtains entry h' where "error_lookup f error h = Some (entry, h')" "err_inv h' R T G" "hp_blocks h' = hp_blocks h"
proof -
  have i: "heap_inv h R T" "err_ok h" "\<And>p. \<not> hp_oom h p" "made_ok h G" using assms(1) by (simp_all add: err_inv_def)
  obtain entry h' where "error_lookup f error h = Some (entry, h')" "err_ok h'" "heap_inv h' R T" "same_errors h h'"
    by (rule lookup_ok [OF i(2,1) assms(2)])
  then show thesis using that i(3) made_same [OF i(4)] by (auto simp: err_inv_def same_errors_def)
qed

lemma owned_nonnull: "err_inv h R T G \<Longrightarrow> p \<in># R \<Longrightarrow> p \<noteq> 0"
  using heap_okD(3) [of h R T] by (cases "p = 0") (auto simp: err_inv_def heap_inv_def)

lemma result_err_inv:
  assumes "err_inv h R {#} G" "er_next h f < i64_max"
  obtains p h' where "error_result_err H f kind detail extra h = Some (p, h')"
    "err_inv h' (own p R) {#} (note_made f \<lparr> ee_kind = es_from_std_kind (spec_of f) kind, ee_detail = detail, ee_extra = extra \<rparr> (deref p h') G)"
    "\<exists>v. deref p h' = Some (VResult (Inl v)) \<and> is_error f v"
proof -
  obtain v h1 where v: "error_value H f (es_from_std_kind (spec_of f) kind) detail extra h = Some (v, h1)"
    "err_inv h1 R (mset (objs v)) (note_made f \<lparr> ee_kind = es_from_std_kind (spec_of f) kind, ee_detail = detail, ee_extra = extra \<rparr> (Some v) G)"
    "is_error f v"
    by (rule inv_value [OF assms])
  have "err_inv h1 R ({#} + mset (objs (VResult (Inl v)))) (note_made f \<lparr> ee_kind = es_from_std_kind (spec_of f) kind, ee_detail = detail, ee_extra = extra \<rparr> (Some v) G)"
    using v(2) by simp
  moreover have "note_made f e (Some v) G = note_made f e (Some (VResult (Inl v))) G" for e
    using v(3) by (auto simp: note_made_def is_error_def)
  ultimately obtain p h' where "mux_rc_alloc (VResult (Inl v)) h1 = (p, h')" "deref p h' = Some (VResult (Inl v))"
    "err_inv h' (own p R) {#} (note_made f \<lparr> ee_kind = es_from_std_kind (spec_of f) kind, ee_detail = detail, ee_extra = extra \<rparr> (Some (VResult (Inl v))) G)"
    using inv_alloc by metis
  then show thesis using that [of p h'] v(1,3) by (simp add: error_result_err_def)
qed

lemma from_message_inv:
  assumes "err_inv h R {#} G" "er_next h f < i64_max" "message \<in># R" "deref message h = Some v"
  obtains p h' where "error_from_message H f message h = Some (p, h')"
    "err_inv h' (own p R) {#} (note_made f \<lparr> ee_kind = es_from_std_kind (spec_of f) (es_default (spec_of f)),
       ee_detail = value_display H v, ee_extra = [] \<rparr> (deref p h') G)"
proof -
  obtain e h1 where e: "error_value H f (es_from_std_kind (spec_of f) (es_default (spec_of f))) (value_display H v) [] h = Some (e, h1)"
    "err_inv h1 R (mset (objs e)) (note_made f \<lparr> ee_kind = es_from_std_kind (spec_of f) (es_default (spec_of f)),
       ee_detail = value_display H v, ee_extra = [] \<rparr> (Some e) G)"
    by (rule inv_value [OF assms(1,2)])
  then obtain p h' where a: "mux_rc_alloc e h1 = (p, h')" "deref p h' = Some e"
    "err_inv h' (own p R) {#} (note_made f \<lparr> ee_kind = es_from_std_kind (spec_of f) (es_default (spec_of f)),
       ee_detail = value_display H v, ee_extra = [] \<rparr> (Some e) G)"
    using inv_alloc [of h1 R "{#}" e] by (metis empty_neutral(1))
  then show thesis using that [of p h'] e(1) assms(4) owned_nonnull [OF assms(1,3)] by (simp add: error_from_message_def)
qed

text \<open>Every reader looks the entry up and stores a value without handles.\<close>

lemma reader_inv:
  assumes "err_inv h R {#} G" "error = 0 \<or> error \<in># R" "\<And>entry. objs (out entry) = []"
  obtains p h' where "map_option (\<lambda>(entry, h1). mux_rc_alloc (out entry) h1) (error_lookup f error h) = Some (p, h')"
    "err_inv h' (own p R) {#} G"
proof -
  obtain entry h1 where l: "error_lookup f error h = Some (entry, h1)" "err_inv h1 R {#} G"
    by (rule inv_lookup [OF assms(1,2)])
  then have "err_inv h1 R ({#} + mset (objs (out entry))) G" using assms(3) by simp
  then obtain p h' where "mux_rc_alloc (out entry) h1 = (p, h')" "err_inv h' (own p R) {#} G" by (rule inv_alloc)
  then show thesis using that [of p h'] l by simp
qed

lemma reader_step:
  assumes "err_inv h R {#} G" "error = 0 \<or> error \<in># R"
    "map_option (\<lambda>(entry, h1). mux_rc_alloc (out entry) h1) (error_lookup f error h) = Some (p, h')" "\<And>entry. objs (out entry) = []"
  shows "err_inv h' (own p R) {#} G"
  by (rule reader_inv [OF assms(1,2), of out f]) (use assms(3,4) in auto)

lemma reader_forms:
  "error_getter get f error h = map_option (\<lambda>(entry, h1).
     mux_rc_alloc (case entry of None \<Rightarrow> VString (es_invalid_handle (spec_of f)) | Some e \<Rightarrow> get e) h1) (error_lookup f error h)"
  "error_message f error h = map_option (\<lambda>(entry, h1).
     mux_rc_alloc (VString (case entry of None \<Rightarrow> es_invalid_handle (spec_of f) | Some e \<Rightarrow> ee_detail e)) h1) (error_lookup f error h)"
  "error_to_string f error h = map_option (\<lambda>(entry, h1).
     mux_rc_alloc (VString (case entry of None \<Rightarrow> es_invalid_handle (spec_of f)
       | Some e \<Rightarrow> kind_str f (ee_kind e) @ '': '' @ ee_detail e)) h1) (error_lookup f error h)"
  unfolding error_getter_def error_field_value_def error_message_def error_to_string_def error_text_def
  by (cases "error_lookup f error h"; simp only: option.simps bind.simps split_beta fst_conv snd_conv simp_thms if_True if_False)+

lemma result_data_inv:
  assumes "err_inv h R {#} G" "r \<in># R" "deref r h = Some (VResult (Inl (VObject obj)))"
  obtains p h' where "mux_result_data H r h = Some (p, h')" "err_inv h' (own p R) {#} G" "deref p h' = Some (VObject obj)"
proof -
  have i: "heap_inv h R {#}" "err_ok h" "\<And>p. \<not> hp_oom h p" "made_ok h G" using assms(1) by (simp_all add: err_inv_def)
  have held: "obj \<in># held h + {#}" using deref_objs [OF i(1) assms(3)] by simp
  then have "0 < hp_strong h obj" using heap_strong [of h R "{#}" obj] i(1) by (simp add: heap_inv_def)
  then obtain f where l: "obj \<in> live_errors h f" using i(4) unfolding made_ok_def by blast
  have n: "0 < hp_next h" "r \<noteq> 0" using i(1) owned_nonnull [OF assms(1,2)] by (simp_all add: heap_inv_def heap_ok_def)
  obtain h1 where c: "deep_clone_object H obj h = Some (VObject obj, h1)" "err_ok h1" "err_frame h h1"
    by (rule shared_clone [OF i(2) l i(3) n(1)])
  have "heap_inv h1 R (mset (objs (VObject obj)))"
    using deep_clone_object_inv [OF i(1) held, of H] c(1) by force
  then have "err_inv h1 R ({#} + mset (objs (VObject obj))) G" using inv_frame [OF assms(1) c(3,2)] by simp
  then obtain p h' where "mux_rc_alloc (VObject obj) h1 = (p, h')" "err_inv h' (own p R) {#} G" "deref p h' = Some (VObject obj)"
    by (rule inv_alloc)
  then show thesis using that [of p h'] c(1) n(2) assms(3)
    by (simp add: mux_result_data_def deep_clone_into_def deep_clone_eqs)
qed

subsection \<open>Reachable states\<close>

lemma init_inv:
  assumes "inj_on buf {i. buf i \<noteq> 0}" "inj drops"
  shows "err_inv (err_init buf drops) {#} {#} Map.empty"
proof -
  have fin: "card (UNIV :: error_family set) \<le> 20"
  proof -
    have "(UNIV :: error_family set) = set [JsonError, CsvError, ByteError, BytesError, EnvError, FsError, IoError, NetError,
        UrlError, UuidError, MathError, ProcessError, TlsError, DateTimeError, CliError, CryptoError, RegexError, RandomError,
        LogError, SyncError]" (is "_ = set ?fs") using error_family.exhaust by auto
    then have "card (UNIV :: error_family set) \<le> length ?fs" by (metis card_length)
    then show ?thesis by simp
  qed
  have "heap_inv (err_init buf drops) {#} {#}"
    using assms(1) by (auto simp: err_init_def heap.defs heap_init_def heap_inv_def heap_ok_def buffers_ok_def held_def rc_of_def)
  moreover have "err_ok (err_init buf drops)"
    using assms(2) fin by (auto simp: err_init_def heap.defs heap_init_def err_defs)
  ultimately show ?thesis by (simp add: err_inv_def made_ok_def err_init_def heap.defs heap_init_def)
qed

lemma reach_inv: "err_reach H h0 h R G \<Longrightarrow> err_inv h0 {#} {#} Map.empty \<Longrightarrow> err_inv h R {#} G"
proof (induction rule: err_reach.induct)
  case (plain h R G v p h')
  then have "err_inv h R ({#} + mset (objs v)) G" by simp
  then show ?case by (rule inv_alloc) (use plain in auto)
next
  case (result_err h R G f kind detail extra p h')
  show ?case
    by (rule result_err_inv [OF result_err.IH [OF result_err.prems] result_err.hyps(2), of H kind detail extra])
      (use result_err.hyps(3) in simp)
next
  case (from_message h R G f message v p h')
  show ?case by (rule from_message_inv [OF from_message.IH [OF from_message.prems] from_message.hyps(2-4), of H])
      (use from_message.hyps(5) in simp)
next
  case (getter h R G error get f p h')
  show ?case by (rule reader_step [OF getter.IH [OF getter.prems] getter.hyps(2) getter.hyps(4) [unfolded reader_forms]])
      (simp add: getter.hyps(3) split: option.split)
next
  case (message h R G error f p h')
  show ?case by (rule reader_step [OF message.IH [OF message.prems] message.hyps(2,3) [unfolded reader_forms]]) simp
next
  case (to_string h R G error f p h')
  show ?case by (rule reader_step [OF to_string.IH [OF to_string.prems] to_string.hyps(2,3) [unfolded reader_forms]]) simp
next
  case (result_data h R G r obj p h')
  show ?case by (rule result_data_inv [OF result_data.IH [OF result_data.prems] result_data.hyps(2,3), of H])
      (use result_data.hyps(4) in simp)
next
  case (rewrite h R G p bytes bytes')
  have i: "err_inv h R {#} G" by (rule rewrite.IH [OF rewrite.prems])
  then have "heap_inv (set_block p (VBytes bytes') h) R {#}" "err_ok h"
    using set_block_inv [of h R "{#}" p _ "{#}" "VBytes bytes'"] rewrite.hyps(3) by (simp_all add: err_inv_def)
  moreover have "err_frame h (set_block p (VBytes bytes') h)" by (simp add: err_frame_def set_block_def)
  moreover have "err_ok (set_block p (VBytes bytes') h)" unfolding set_block_def by (rule err_same [OF \<open>err_ok h\<close>]) simp_all
  ultimately show ?case using inv_frame [OF i] by blast
next
  case (inc h R G p h')
  have i: "err_inv h R {#} G" by (rule inc.IH [OF inc.prems])
  have "p = 0 \<or> p \<in># R" "heap_inv h R {#}" "err_ok h" using inc.hyps(2) i by (simp_all add: err_inv_def)
  then have "heap_inv h' (add_mset p R) {#}" using inc_inv [of h R "{#}" p] inc.hyps(3) owned_nonnull [OF i inc.hyps(2)] by force
  then show ?case using inv_frame [OF i] err_inc [OF \<open>err_ok h\<close> inc.hyps(3)] by blast
next
  case (dec h R G p b h')
  have i: "err_inv h R {#} G" by (rule dec.IH [OF dec.prems])
  have "p = 0 \<or> p \<in># R" "heap_inv h R {#}" "err_ok h" using dec.hyps(2) i by (simp_all add: err_inv_def)
  then have "heap_inv h' (R - {#p#}) {#}" using dec_inv [of h R "{#}" p] dec.hyps(3) by force
  then show ?case using inv_frame [OF i] err_dec [OF \<open>err_ok h\<close> dec.hyps(3)] by blast
qed simp

end
