(* ===== verification/Error_Properties.thy ===== *)
theory Error_Properties
  imports Error_Machine Machine_Properties
begin





subsection \<open>A concrete program\<close>
















end
