(* ===== verification/Byte_Scalar.thy ===== *)
theory Byte_Scalar
  imports Error_Families
begin

unbundle bit_operations_syntax

text \<open>
  The byte scalar (\<open>src/src/byte.rs\<close>, \<open>mux_int_to_byte\<close> in \<open>src/src/int.rs\<close>). A byte travels in an
  \<open>i64\<close>. The checked operations give a result block; their outcome before boxing is a function of
  its own.
\<close>

definition result_ok :: "int \<Rightarrow> 'z err_heap_scheme \<Rightarrow> nat \<times> 'z err_heap_scheme" where
  "result_ok i h = mux_rc_alloc (VResult (Inr (VInt i))) h"

definition byte_return ::
  "hooks \<Rightarrow> int rresult \<Rightarrow> 'z err_heap_scheme \<Rightarrow> (nat \<times> 'z err_heap_scheme) option" where
  "byte_return H r h = (case r of Inr i \<Rightarrow> Some (result_ok i h) | Inl e \<Rightarrow> byte_result_err H e h)"

definition checked :: "int \<Rightarrow> u8 rresult" where
  "checked i = (if 0 \<le> i \<and> i \<le> 255 then Ok (word_of_int i)
     else Err (''Byte value '' @ show_int i @ '' is outside the range 0..255''))"

definition checked_pair :: "int \<Rightarrow> int \<Rightarrow> (u8 \<times> u8) rresult" where
  "checked_pair left right = (case checked left of
       Inl e \<Rightarrow> Err e
     | Inr a \<Rightarrow> (case checked right of Inl e \<Rightarrow> Err e | Inr b \<Rightarrow> Ok (a, b)))"

definition on_pair :: "(u8 \<Rightarrow> u8 \<Rightarrow> int rresult) \<Rightarrow> int \<Rightarrow> int \<Rightarrow> int rresult" where
  "on_pair f left right = (case checked_pair left right of Inl e \<Rightarrow> Err e | Inr (a, b) \<Rightarrow> f a b)"

definition byte_checked_add :: "int \<Rightarrow> int \<Rightarrow> int rresult" where
  "byte_checked_add = on_pair (\<lambda>a b. let sum = uint a + uint b in
     if sum \<le> 255 then Ok sum else Err ''Byte addition overflowed'')"

definition byte_checked_sub :: "int \<Rightarrow> int \<Rightarrow> int rresult" where
  "byte_checked_sub = on_pair (\<lambda>a b. let d = uint a - uint b in
     if d \<ge> 0 then Ok d else Err ''Byte subtraction underflowed'')"

definition byte_checked_mul :: "int \<Rightarrow> int \<Rightarrow> int rresult" where
  "byte_checked_mul = on_pair (\<lambda>a b. let m = uint a * uint b in
     if m \<le> 255 then Ok m else Err ''Byte multiplication overflowed'')"

definition byte_checked_div :: "int \<Rightarrow> int \<Rightarrow> int rresult" where
  "byte_checked_div = on_pair (\<lambda>a b. if b = 0 then Err ''Byte division by zero'' else Ok (uint (a div b)))"

definition byte_checked_rem :: "int \<Rightarrow> int \<Rightarrow> int rresult" where
  "byte_checked_rem = on_pair (\<lambda>a b. if b = 0 then Err ''Byte modulo by zero'' else Ok (uint (a mod b)))"

definition byte_shift_left :: "int \<Rightarrow> int \<Rightarrow> int rresult" where
  "byte_shift_left i shift =
     (if \<not> (0 \<le> shift \<and> shift \<le> 7) then Err ''Byte shift amount must be in the range 0..7''
      else Ok (uint (push_bit (nat shift) (word_of_int i :: u8))))"

definition byte_shift_right :: "int \<Rightarrow> int \<Rightarrow> int rresult" where
  "byte_shift_right i shift =
     (if \<not> (0 \<le> shift \<and> shift \<le> 7) then Err ''Byte shift amount must be in the range 0..7''
      else Ok (uint (drop_bit (nat shift) (word_of_int i :: u8))))"

definition int_to_byte :: "int \<Rightarrow> int rresult" where
  "int_to_byte i = (if 0 \<le> i \<and> i \<le> 255 then Ok i
     else Err (''Byte value '' @ show_int i @ '' is outside the range 0..255''))"

subsection \<open>Entry points\<close>

definition mux_byte_checked_add :: "hooks \<Rightarrow> int \<Rightarrow> int \<Rightarrow> 'z err_heap_scheme \<Rightarrow> (nat \<times> 'z err_heap_scheme) option" where
  "mux_byte_checked_add H left right h = byte_return H (byte_checked_add left right) h"

definition mux_byte_checked_sub :: "hooks \<Rightarrow> int \<Rightarrow> int \<Rightarrow> 'z err_heap_scheme \<Rightarrow> (nat \<times> 'z err_heap_scheme) option" where
  "mux_byte_checked_sub H left right h = byte_return H (byte_checked_sub left right) h"

definition mux_byte_checked_mul :: "hooks \<Rightarrow> int \<Rightarrow> int \<Rightarrow> 'z err_heap_scheme \<Rightarrow> (nat \<times> 'z err_heap_scheme) option" where
  "mux_byte_checked_mul H left right h = byte_return H (byte_checked_mul left right) h"

definition mux_byte_checked_div :: "hooks \<Rightarrow> int \<Rightarrow> int \<Rightarrow> 'z err_heap_scheme \<Rightarrow> (nat \<times> 'z err_heap_scheme) option" where
  "mux_byte_checked_div H left right h = byte_return H (byte_checked_div left right) h"

definition mux_byte_checked_rem :: "hooks \<Rightarrow> int \<Rightarrow> int \<Rightarrow> 'z err_heap_scheme \<Rightarrow> (nat \<times> 'z err_heap_scheme) option" where
  "mux_byte_checked_rem H left right h = byte_return H (byte_checked_rem left right) h"

definition mux_byte_shift_left :: "hooks \<Rightarrow> int \<Rightarrow> int \<Rightarrow> 'z err_heap_scheme \<Rightarrow> (nat \<times> 'z err_heap_scheme) option" where
  "mux_byte_shift_left H i shift h = byte_return H (byte_shift_left i shift) h"

definition mux_byte_shift_right :: "hooks \<Rightarrow> int \<Rightarrow> int \<Rightarrow> 'z err_heap_scheme \<Rightarrow> (nat \<times> 'z err_heap_scheme) option" where
  "mux_byte_shift_right H i shift h = byte_return H (byte_shift_right i shift) h"

definition mux_int_to_byte :: "hooks \<Rightarrow> int \<Rightarrow> 'z err_heap_scheme \<Rightarrow> (nat \<times> 'z err_heap_scheme) option" where
  "mux_int_to_byte H i h = byte_return H (int_to_byte i) h"

definition mux_byte_wrapping_add :: "int \<Rightarrow> int \<Rightarrow> int" where
  "mux_byte_wrapping_add left right = (left mod 256 + right mod 256) mod 256"

definition mux_byte_wrapping_sub :: "int \<Rightarrow> int \<Rightarrow> int" where
  "mux_byte_wrapping_sub left right = (left mod 256 - right mod 256) mod 256"

definition mux_byte_wrapping_mul :: "int \<Rightarrow> int \<Rightarrow> int" where
  "mux_byte_wrapping_mul left right = (left mod 256 * (right mod 256)) mod 256"

definition clamp :: "int \<Rightarrow> int \<Rightarrow> int \<Rightarrow> int" where
  "clamp lo hi i = (if i < lo then lo else if i > hi then hi else i)"

definition saturate_i64 :: "int \<Rightarrow> int" where
  "saturate_i64 i = clamp i64_min i64_max i"

definition mux_byte_saturating_add :: "int \<Rightarrow> int \<Rightarrow> int" where
  "mux_byte_saturating_add left right = min (saturate_i64 (clamp 0 255 left + clamp 0 255 right)) 255"

definition mux_byte_saturating_sub :: "int \<Rightarrow> int \<Rightarrow> int" where
  "mux_byte_saturating_sub left right = max (saturate_i64 (clamp 0 255 left - clamp 0 255 right)) 0"

definition mux_byte_saturating_mul :: "int \<Rightarrow> int \<Rightarrow> int" where
  "mux_byte_saturating_mul left right = min (saturate_i64 (clamp 0 255 left * clamp 0 255 right)) 255"

definition mux_byte_bit_and :: "int \<Rightarrow> int \<Rightarrow> int" where
  "mux_byte_bit_and left right = uint ((word_of_int left :: u8) AND word_of_int right)"

definition mux_byte_bit_or :: "int \<Rightarrow> int \<Rightarrow> int" where
  "mux_byte_bit_or left right = uint ((word_of_int left :: u8) OR word_of_int right)"

definition mux_byte_bit_xor :: "int \<Rightarrow> int \<Rightarrow> int" where
  "mux_byte_bit_xor left right = uint ((word_of_int left :: u8) XOR word_of_int right)"

definition mux_byte_bit_not :: "int \<Rightarrow> int" where
  "mux_byte_bit_not i = uint (word_of_int (NOT i) :: u8)"

definition mux_byte_rotate_left :: "int \<Rightarrow> int \<Rightarrow> int" where
  "mux_byte_rotate_left i shift = uint (word_rotl (nat (shift mod 8)) (word_of_int i :: u8))"

definition mux_byte_rotate_right :: "int \<Rightarrow> int \<Rightarrow> int" where
  "mux_byte_rotate_right i shift = uint (word_rotr (nat (shift mod 8)) (word_of_int i :: u8))"

subsection \<open>Laws\<close>

definition is_byte :: "int \<Rightarrow> bool" where
  "is_byte i \<longleftrightarrow> 0 \<le> i \<and> i \<le> 255"

lemma checked_ok: "is_byte i \<Longrightarrow> checked i = Ok (word_of_int i) \<and> uint (word_of_int i :: u8) = i"
  by (simp add: checked_def is_byte_def uint_word_of_int)

lemma on_pair_ok: "is_byte a \<Longrightarrow> is_byte b \<Longrightarrow> on_pair f a b = f (word_of_int a) (word_of_int b)"
  by (simp add: on_pair_def checked_pair_def checked_ok)

lemma on_pair_err: "\<not> (is_byte a \<and> is_byte b) \<Longrightarrow> \<exists>e. on_pair f a b = Err e"
  by (auto simp: on_pair_def checked_pair_def checked_def is_byte_def)

lemma byte_div_mod:
  assumes "is_byte a" "is_byte b" "b \<noteq> 0"
  shows "uint ((word_of_int a :: u8) div word_of_int b) = a div b" "uint ((word_of_int a :: u8) mod word_of_int b) = a mod b"
    "(word_of_int b :: u8) \<noteq> 0"
proof -
  have u: "uint (word_of_int a :: u8) = a" "uint (word_of_int b :: u8) = b" using assms(1,2) checked_ok by simp_all
  show "(word_of_int b :: u8) \<noteq> 0" using u(2) assms(3) by auto
  show "uint ((word_of_int a :: u8) div word_of_int b) = a div b" "uint ((word_of_int a :: u8) mod word_of_int b) = a mod b"
    using u by (simp_all add: uint_div uint_mod)
qed

lemma on_pair_result:
  assumes "\<And>a b. is_byte a \<Longrightarrow> is_byte b \<Longrightarrow> f (word_of_int a) (word_of_int b) = (if P a b then Ok (g a b) else Err e)"
  shows "on_pair f a b = Ok v \<longleftrightarrow> is_byte a \<and> is_byte b \<and> P a b \<and> v = g a b"
  using assms [of a b] on_pair_ok [of a b f] on_pair_err [of a b f] by (cases "is_byte a \<and> is_byte b") auto

end
