(* ===== verification/Byte_Properties.thy ===== *)
theory Byte_Properties
  imports Byte_Scalar Error_Properties
begin

text \<open>Properties of the byte scalar (\<open>src/src/byte.rs\<close>).\<close>

text \<open>C40. Byte arithmetic is exact. A checked operation answers with a number precisely when both
  operands are bytes, the divisor is not zero and the mathematical result is a byte, and then it
  is that result; the wrapping operations are arithmetic modulo 256 on any operands, and the
  saturating ones clamp operands and result to the range of a byte.\<close>

theorem byte_arithmetic_exact:
  "(byte_checked_add a b = Ok v \<longleftrightarrow> is_byte a \<and> is_byte b \<and> is_byte (a + b) \<and> v = a + b) \<and>
   (byte_checked_sub a b = Ok v \<longleftrightarrow> is_byte a \<and> is_byte b \<and> is_byte (a - b) \<and> v = a - b) \<and>
   (byte_checked_mul a b = Ok v \<longleftrightarrow> is_byte a \<and> is_byte b \<and> is_byte (a * b) \<and> v = a * b) \<and>
   (byte_checked_div a b = Ok v \<longleftrightarrow> is_byte a \<and> is_byte b \<and> b \<noteq> 0 \<and> v = a div b) \<and>
   (byte_checked_rem a b = Ok v \<longleftrightarrow> is_byte a \<and> is_byte b \<and> b \<noteq> 0 \<and> v = a mod b) \<and>
   (mux_byte_wrapping_add a b = (a + b) mod 256) \<and>
   (mux_byte_wrapping_sub a b = (a - b) mod 256) \<and>
   (mux_byte_wrapping_mul a b = (a * b) mod 256) \<and>
   (mux_byte_saturating_add a b = clamp 0 255 (clamp 0 255 a + clamp 0 255 b)) \<and>
   (mux_byte_saturating_sub a b = clamp 0 255 (clamp 0 255 a - clamp 0 255 b)) \<and>
   (mux_byte_saturating_mul a b = clamp 0 255 (clamp 0 255 a * clamp 0 255 b))"
proof (intro conjI)
  have u: "uint (word_of_int i :: u8) = i" if "is_byte i" for i using checked_ok [OF that] by simp
  show "byte_checked_add a b = Ok v \<longleftrightarrow> is_byte a \<and> is_byte b \<and> is_byte (a + b) \<and> v = a + b"
    unfolding byte_checked_add_def
    by (subst on_pair_result [where P = "\<lambda>a b. is_byte (a + b)" and g = "(+)"]) (auto simp: u, auto simp: is_byte_def)
  show "byte_checked_sub a b = Ok v \<longleftrightarrow> is_byte a \<and> is_byte b \<and> is_byte (a - b) \<and> v = a - b"
    unfolding byte_checked_sub_def
    by (subst on_pair_result [where P = "\<lambda>a b. is_byte (a - b)" and g = "(-)"]) (auto simp: u, auto simp: is_byte_def)
  show "byte_checked_mul a b = Ok v \<longleftrightarrow> is_byte a \<and> is_byte b \<and> is_byte (a * b) \<and> v = a * b"
    unfolding byte_checked_mul_def
    by (subst on_pair_result [where P = "\<lambda>a b. is_byte (a * b)" and g = "(*)"]) (auto simp: u, auto simp: is_byte_def)
  show "byte_checked_div a b = Ok v \<longleftrightarrow> is_byte a \<and> is_byte b \<and> b \<noteq> 0 \<and> v = a div b"
    unfolding byte_checked_div_def
    by (subst on_pair_result [where P = "\<lambda>a b. b \<noteq> 0" and g = "(div)"]) (auto simp: byte_div_mod)
  show "byte_checked_rem a b = Ok v \<longleftrightarrow> is_byte a \<and> is_byte b \<and> b \<noteq> 0 \<and> v = a mod b"
    unfolding byte_checked_rem_def
    by (subst on_pair_result [where P = "\<lambda>a b. b \<noteq> 0" and g = "(mod)"]) (auto simp: byte_div_mod)
  show "mux_byte_wrapping_add a b = (a + b) mod 256" "mux_byte_wrapping_sub a b = (a - b) mod 256"
    "mux_byte_wrapping_mul a b = (a * b) mod 256"
    by (simp_all add: mux_byte_wrapping_add_def mux_byte_wrapping_sub_def mux_byte_wrapping_mul_def mod_simps)
  have c: "0 \<le> clamp 0 255 i" "clamp 0 255 i \<le> 255" for i by (simp_all add: clamp_def)
  have m: "clamp 0 255 a * clamp 0 255 b \<le> 255 * 255" "0 \<le> clamp 0 255 a * clamp 0 255 b"
    by (rule mult_mono; simp add: c) (simp add: c)
  show "mux_byte_saturating_add a b = clamp 0 255 (clamp 0 255 a + clamp 0 255 b)"
    "mux_byte_saturating_sub a b = clamp 0 255 (clamp 0 255 a - clamp 0 255 b)"
    using c [of a] c [of b]
    by (auto simp: mux_byte_saturating_add_def mux_byte_saturating_sub_def saturate_i64_def clamp_def [of i64_min]
        clamp_def [of _ _ "_ + _"] clamp_def [of _ _ "_ - _"] i64_min_def i64_max_def)
  show "mux_byte_saturating_mul a b = clamp 0 255 (clamp 0 255 a * clamp 0 255 b)"
    using m by (auto simp: mux_byte_saturating_mul_def saturate_i64_def clamp_def [of i64_min]
        clamp_def [of _ _ "_ * _"] i64_min_def i64_max_def)
qed

subsection \<open>Entry points in a running program\<close>





text \<open>No category that the byte operations could name selects overflow, division by zero or
  shift, so these variants of the byte error are never produced.\<close>

lemma byte_categories_unreachable:
  "es_from_std_kind (spec_of ByteError) k \<notin> {KOverflow, KDivideByZero, KShift}"
  by (cases k) (simp_all add: error_kind_defs)

text \<open>The bit operations of the byte scalar act on the low eight bits: complement is an
  involution, exclusive or with the same operand cancels, rotations left and right by any
  amount undo each other, and a shift is a multiplication or division by a power of two.\<close>

lemma byte_bits:
  assumes "is_byte a"
  shows "mux_byte_bit_not (mux_byte_bit_not a) = a \<and>
    mux_byte_bit_xor (mux_byte_bit_xor a b) b = a \<and>
    mux_byte_rotate_right (mux_byte_rotate_left a n) n = a \<and>
    mux_byte_rotate_left (mux_byte_rotate_right a n) n = a \<and>
    byte_shift_left a n = (if 0 \<le> n \<and> n \<le> 7 then Ok (a * 2 ^ nat n mod 256) else Err ''Byte shift amount must be in the range 0..7'') \<and>
    byte_shift_right a n = (if 0 \<le> n \<and> n \<le> 7 then Ok (a div 2 ^ nat n) else Err ''Byte shift amount must be in the range 0..7'')"
proof (intro conjI)
  have u: "uint (word_of_int a :: u8) = a" using checked_ok [OF assms] by simp
  have n: "(word_of_int (NOT i) :: u8) = NOT (word_of_int i)" for i by (simp add: not_eq_complement)
  show "mux_byte_bit_not (mux_byte_bit_not a) = a" by (simp add: mux_byte_bit_not_def n u)
  show "mux_byte_bit_xor (mux_byte_bit_xor a b) b = a" by (simp add: mux_byte_bit_xor_def u xor.assoc)
  show "mux_byte_rotate_right (mux_byte_rotate_left a n) n = a" "mux_byte_rotate_left (mux_byte_rotate_right a n) n = a"
    by (simp_all add: mux_byte_rotate_left_def mux_byte_rotate_right_def word_rot_lr word_rot_rl u)
  have "(word_of_int a :: u8) * 2 ^ k = word_of_int (a * 2 ^ k)" for k by simp
  then show "byte_shift_left a n = (if 0 \<le> n \<and> n \<le> 7 then Ok (a * 2 ^ nat n mod 256) else Err ''Byte shift amount must be in the range 0..7'')"
    by (simp add: byte_shift_left_def push_bit_eq_mult uint_byte del: of_int_mult of_int_power)
  have "uint (drop_bit k (word_of_int a :: u8)) = a div 2 ^ k" for k by (simp only: unsigned_drop_bit_eq) (use u assms in \<open>simp add: drop_bit_eq_div unsigned_of_int is_byte_def\<close>)
  then show "byte_shift_right a n = (if 0 \<le> n \<and> n \<le> 7 then Ok (a div 2 ^ nat n) else Err ''Byte shift amount must be in the range 0..7'')"
    by (simp add: byte_shift_right_def)
qed

lemma byte_bits_example:
  "mux_byte_rotate_right (mux_byte_rotate_left 200 (- 3)) (- 3) = 200 \<and> byte_shift_left 200 1 = Ok 144"
  using byte_bits [of 200 0 "- 3"] byte_bits [of 200 0 1] by (simp add: is_byte_def)

end
