(* ===== verification/Utf8.thy ===== *)
theory Utf8
  imports Byte_Order
begin

text \<open>
  UTF-8 as the standard library checks and repairs it (\<open>String::from_utf8\<close>,
  \<open>String::from_utf8_lossy\<close>). \<open>utf8_seq\<close> looks at the start of the input: how many bytes form the next
  sequence, and whether it is complete; an incomplete one is the part that is replaced.
\<close>

definition between :: "u8 \<Rightarrow> u8 \<Rightarrow> u8 \<Rightarrow> bool" where
  "between lo hi b \<longleftrightarrow> lo \<le> b \<and> b \<le> hi"

definition utf8_width :: "u8 \<Rightarrow> nat" where
  "utf8_width b = (if b < 0x80 then 1 else if between 0xC2 0xDF b then 2 else if between 0xE0 0xEF b then 3
     else if between 0xF0 0xF4 b then 4 else 0)"

definition second_ok :: "u8 \<Rightarrow> u8 \<Rightarrow> bool" where
  "second_ok b c \<longleftrightarrow>
     (if b = 0xE0 then between 0xA0 0xBF c else if b = 0xED then between 0x80 0x9F c
      else if b = 0xF0 then between 0x90 0xBF c else if b = 0xF4 then between 0x80 0x8F c
      else between 0x80 0xBF c)"

text \<open>The number of further bytes of a sequence that are in place, up to the number wanted.\<close>

fun continued :: "nat \<Rightarrow> u8 list \<Rightarrow> nat" where
  "continued (Suc n) (c # cs) = (if between 0x80 0xBF c then Suc (continued n cs) else 0)"
| "continued _ _ = 0"

definition utf8_tail :: "u8 \<Rightarrow> u8 list \<Rightarrow> nat" where
  "utf8_tail b cs = (case cs of
       [] \<Rightarrow> 0
     | c # ds \<Rightarrow> if utf8_width b \<ge> 2 \<and> second_ok b c then Suc (continued (utf8_width b - 2) ds) else 0)"

definition utf8_complete :: "u8 \<Rightarrow> u8 list \<Rightarrow> bool" where
  "utf8_complete b cs \<longleftrightarrow> utf8_width b = Suc (utf8_tail b cs)"

function utf8_valid :: "u8 list \<Rightarrow> bool" where
  "utf8_valid [] = True"
| "utf8_valid (b # cs) = (utf8_complete b cs \<and> utf8_valid (drop (utf8_tail b cs) cs))"
  by pat_completeness auto
termination by (relation "measure length") auto

text \<open>U+FFFD, the replacement character.\<close>

definition replacement :: "u8 list" where
  "replacement = [0xEF, 0xBF, 0xBD]"

function utf8_lossy :: "u8 list \<Rightarrow> u8 list" where
  "utf8_lossy [] = []"
| "utf8_lossy (b # cs) =
     (let n = utf8_tail b cs in
      (if utf8_complete b cs then b # take n cs else replacement) @ utf8_lossy (drop n cs))"
  by pat_completeness auto
termination by (relation "measure length") auto

definition text_of_bytes :: "u8 list \<Rightarrow> string" where
  "text_of_bytes bs = map (\<lambda>b. char_of (unat b)) bs"

definition bytes_of_text :: "string \<Rightarrow> u8 list" where
  "bytes_of_text s = map (\<lambda>c. of_nat (of_char c)) s"

definition from_utf8 :: "u8 list \<Rightarrow> string option" where
  "from_utf8 bs = (if utf8_valid bs then Some (text_of_bytes bs) else None)"

subsection \<open>Laws\<close>

declare utf8_valid.simps(2) [simp del] utf8_lossy.simps(2) [simp del]

lemma continued_le: "continued n cs \<le> n \<and> continued n cs \<le> length cs"
  by (induction n cs rule: continued.induct) auto

lemma continued_full: "continued n cs = n \<Longrightarrow> continued n (take n cs @ ds) = n"
  by (induction n cs rule: continued.induct) (auto split: if_splits)

lemma utf8_tail_le: "utf8_tail b cs \<le> length cs"
  using continued_le by (auto simp: utf8_tail_def split: list.split)

lemma utf8_complete_local:
  assumes "utf8_complete b cs"
  shows "utf8_tail b (take (utf8_tail b cs) cs @ ds) = utf8_tail b cs"
proof (cases cs)
  case (Cons c cs')
  show ?thesis
  proof (cases "utf8_width b \<ge> 2 \<and> second_ok b c")
    case True
    then have "continued (utf8_width b - 2) cs' = utf8_width b - 2"
      using assms Cons by (simp add: utf8_complete_def utf8_tail_def)
    then show ?thesis using True Cons continued_full [of "utf8_width b - 2" cs' ds] by (simp add: utf8_tail_def)
  next
    case False
    then show ?thesis using assms Cons
      by (auto simp: utf8_tail_def utf8_complete_def split: list.split)
  qed
qed (use assms in \<open>auto simp: utf8_tail_def utf8_complete_def split: list.split\<close>)

lemma utf8_valid_sequence:
  assumes "utf8_complete b cs"
  shows "utf8_valid (b # take (utf8_tail b cs) cs @ ds) = utf8_valid ds"
  using utf8_complete_local [OF assms, of ds] assms utf8_tail_le [of b cs]
  by (simp add: utf8_valid.simps(2) utf8_complete_def)

lemma replacement_valid: "utf8_valid (replacement @ ds) = utf8_valid ds"
proof -
  have c: "utf8_complete 0xEF [0xBF, 0xBD]" "utf8_tail 0xEF [0xBF, 0xBD] = 2"
    by (simp_all add: utf8_complete_def utf8_tail_def utf8_width_def between_def second_ok_def)
  show ?thesis using utf8_valid_sequence [OF c(1), of ds] c(2) by (simp add: replacement_def)
qed

lemma lossy_valid: "utf8_valid (utf8_lossy bs)"
  by (induction bs rule: utf8_lossy.induct)
    (simp_all add: utf8_lossy.simps(2) Let_def utf8_valid_sequence replacement_valid)

lemma lossy_id: "utf8_valid bs \<Longrightarrow> utf8_lossy bs = bs"
  by (induction bs rule: utf8_valid.induct) (simp_all add: utf8_lossy.simps(2) utf8_valid.simps(2) Let_def)

lemma char_byte: "char_of (unat (of_nat (of_char c) :: u8)) = c"
proof -
  have "of_char c mod 256 < (256 :: nat)" by (rule mod_less_divisor) simp
  then have "of_char c < (2 ^ 8 :: nat)" by simp
  then have "unat (of_nat (of_char c) :: u8) = of_char c" by (simp add: unat_of_nat)
  then show ?thesis by simp
qed

lemma byte_char: "(of_nat (of_char (char_of (unat b) :: char)) :: u8) = b"
proof -
  have "unat b < 256" using unsigned_less [of b] by simp
  then have "unat b mod 256 = unat b" by simp
  then show ?thesis by simp
qed

lemma text_bytes [simp]: "text_of_bytes (bytes_of_text s) = s"
  by (induction s) (simp_all add: text_of_bytes_def bytes_of_text_def char_byte)

lemma bytes_text [simp]: "bytes_of_text (text_of_bytes bs) = bs"
  by (induction bs) (simp_all add: text_of_bytes_def bytes_of_text_def comp_def byte_char [simplified])

lemma valid_append: "utf8_valid xs \<Longrightarrow> utf8_valid (xs @ ys) = utf8_valid ys"
proof (induction xs rule: utf8_valid.induct)
  case (2 b cs)
  then have c: "utf8_complete b cs" "utf8_valid (drop (utf8_tail b cs) cs)" by (simp_all add: utf8_valid.simps(2))
  have "utf8_valid ((b # cs) @ ys) = utf8_valid (b # take (utf8_tail b cs) cs @ (drop (utf8_tail b cs) cs @ ys))"
    by (simp flip: append_assoc)
  then show ?case using "2.IH" c utf8_valid_sequence [OF c(1)] by simp
qed simp

lemma ascii_valid: "(\<And>b. b \<in> set bs \<Longrightarrow> b < 0x80) \<Longrightarrow> utf8_valid bs"
proof (induction bs)
  case (Cons b bs)
  have "utf8_width b = 1" using Cons.prems [of b] by (simp add: utf8_width_def)
  then have "utf8_complete b bs" "utf8_tail b bs = 0" by (auto simp: utf8_complete_def utf8_tail_def split: list.split)
  then show ?case using Cons by (simp add: utf8_valid.simps(2))
qed simp

end
