(* ===== verification/Bytes_Core.thy ===== *)
theory Bytes_Core
  imports Utf8
begin

unbundle bit_operations_syntax

text \<open>
  What the operations of the \<open>bytes\<close> value compute (\<open>src/src/bytes.rs\<close>), on the contents. The entry
  points that find the contents in a block are in \<open>Bytes_Abi\<close>.
\<close>

lemma uint_shift_right: "uint (drop_bit n w) = uint w div 2 ^ n"
  by (simp only: unsigned_drop_bit_eq) (simp only: drop_bit_eq_div take_bit_int_eq_self [OF uint_ge_0 uint_bounded])

lemma unat_shift_right: "unat (drop_bit n w) = unat w div 2 ^ n"
  by (simp only: unsigned_drop_bit_eq) (simp only: drop_bit_eq_div take_bit_nat_eq_self [OF unsigned_less])

definition usize_max :: nat where
  "usize_max = 2 ^ 64 - 1"

definition clamp_to :: "int \<Rightarrow> int \<Rightarrow> int" where
  "clamp_to len i = (if i < 0 then 0 else if i > len then len else i)"

subsection \<open>Single bytes\<close>

definition from_end :: "u8 list \<Rightarrow> int \<Rightarrow> int" where
  "from_end bytes index = (if index < 0 then int (length bytes) + index else index)"

definition clamped :: "u8 list \<Rightarrow> int \<Rightarrow> int" where
  "clamped bytes index = clamp_to (int (length bytes)) (from_end bytes index)"

definition bytes_get :: "u8 list \<Rightarrow> int \<Rightarrow> u8 option" where
  "bytes_get bytes index =
     (let normalized = from_end bytes index in
      if normalized \<ge> 0 \<and> normalized < int (length bytes) then Some (bytes ! nat normalized) else None)"

definition bytes_pop_back :: "u8 list \<Rightarrow> u8 option \<times> u8 list" where
  "bytes_pop_back bytes = (if bytes = [] then (None, []) else (Some (last bytes), butlast bytes))"

definition bytes_pop_front :: "u8 list \<Rightarrow> u8 option \<times> u8 list" where
  "bytes_pop_front bytes = (case bytes of [] \<Rightarrow> (None, []) | b # rest \<Rightarrow> (Some b, rest))"

definition bytes_insert :: "u8 list \<Rightarrow> int \<Rightarrow> u8 \<Rightarrow> u8 list" where
  "bytes_insert bytes index byte =
     (let i = nat (clamped bytes index)
      in take i bytes @ byte # drop i bytes)"

definition bytes_remove :: "u8 list \<Rightarrow> int \<Rightarrow> u8 option \<times> u8 list" where
  "bytes_remove bytes index =
     (let i = from_end bytes index in
      if i \<ge> 0 \<and> i < int (length bytes)
      then (Some (bytes ! nat i), take (nat i) bytes @ drop (nat i + 1) bytes) else (None, bytes))"

definition bytes_find :: "u8 list \<Rightarrow> u8 \<Rightarrow> nat option" where
  "bytes_find bytes byte = find (\<lambda>i. bytes ! i = byte) [0..<length bytes]"

subsection \<open>Ranges\<close>

definition bytes_truncate :: "u8 list \<Rightarrow> int \<Rightarrow> u8 list" where
  "bytes_truncate bytes len = take (nat (max len 0)) bytes"

definition resize_to :: "nat \<Rightarrow> u8 \<Rightarrow> u8 list \<Rightarrow> u8 list" where
  "resize_to n fill bytes = take n bytes @ replicate (n - length bytes) fill"

text \<open>\<open>can_reserve\<close> answers for \<open>Vec::try_reserve\<close>: current length and additional capacity.\<close>

definition bytes_resize :: "(nat \<Rightarrow> nat \<Rightarrow> bool) \<Rightarrow> u8 list \<Rightarrow> nat \<Rightarrow> u8 \<Rightarrow> u8 list" where
  "bytes_resize can_reserve bytes len fill =
     (if len > length bytes \<and> \<not> can_reserve (length bytes) (len - length bytes) then bytes
      else resize_to len fill bytes)"

definition overwrite :: "u8 list \<Rightarrow> nat \<Rightarrow> u8 list \<Rightarrow> u8 list" where
  "overwrite bytes start new = take start bytes @ new @ drop (start + length new) bytes"

definition bytes_copy_within :: "u8 list \<Rightarrow> int \<Rightarrow> int \<Rightarrow> int \<Rightarrow> u8 list" where
  "bytes_copy_within bytes destination source len =
     (if len \<le> 0 then bytes
      else
        let n = int (length bytes);
            src = clamped bytes source;
            dst = clamped bytes destination;
            amount = nat (max (min (min len (n - src)) (n - dst)) 0)
        in if amount = 0 then bytes
           else overwrite bytes (nat dst) (take amount (drop (nat src) bytes)))"

definition slice_bound :: "u8 list \<Rightarrow> int \<Rightarrow> int \<Rightarrow> int" where
  "slice_bound bytes index dflt =
     clamped bytes (if index = i64_max then dflt else index)"

definition bytes_slice :: "u8 list \<Rightarrow> int \<Rightarrow> int \<Rightarrow> u8 list" where
  "bytes_slice bytes start stop =
     (let s = slice_bound bytes start 0; e = slice_bound bytes stop (int (length bytes))
      in if s \<le> e then take (nat (e - s)) (drop (nat s) bytes) else [])"

definition checked_range :: "u8 list \<Rightarrow> int \<Rightarrow> nat \<Rightarrow> (nat \<times> nat) rresult" where
  "checked_range bytes offset width =
     (if offset < 0 then Err ''offset must not be negative''
      else
        let start = nat offset; stop = start + width in
        if stop > usize_max then Err ''offset is too large''
        else if stop > length bytes then Err ''not enough bytes for requested value''
        else Ok (start, stop))"

subsection \<open>Integers of a given width\<close>

definition byte_shift :: "bool \<Rightarrow> nat \<Rightarrow> nat \<Rightarrow> nat" where
  "byte_shift little_endian width position = (if little_endian then position else width - position - 1) * 8"

definition gather :: "bool \<Rightarrow> nat \<Rightarrow> u8 list \<Rightarrow> u64" where
  "gather little_endian width chunk =
     fold (\<lambda>(position, byte) v. v OR push_bit (byte_shift little_endian width position) (ucast byte))
       (List.enumerate 0 chunk) 0"

definition scatter :: "bool \<Rightarrow> nat \<Rightarrow> u64 \<Rightarrow> u8 list" where
  "scatter little_endian width v =
     map (\<lambda>position. ucast (drop_bit (byte_shift little_endian width position) v)) [0..<width]"

definition int_width :: "int \<Rightarrow> nat rresult" where
  "int_width width =
     (if width < 0 then Err ''width must be positive''
      else if \<not> (1 \<le> width \<and> width \<le> 8) then Err ''integer width must be between 1 and 8 bytes''
      else Ok (nat width))"

definition read_uint :: "u8 list \<Rightarrow> int \<Rightarrow> int \<Rightarrow> bool \<Rightarrow> int rresult" where
  "read_uint bytes offset width little_endian = (case int_width width of
       Inl e \<Rightarrow> Err e
     | Inr w \<Rightarrow> (case checked_range bytes offset w of
         Inl e \<Rightarrow> Err e
       | Inr (start, stop) \<Rightarrow>
           let v = gather little_endian w (take (stop - start) (drop start bytes)) in
           if uint v \<le> i64_max then Ok (uint v) else Err ''decoded unsigned integer does not fit in int''))"

definition write_uint :: "u8 list \<Rightarrow> int \<Rightarrow> int \<Rightarrow> int \<Rightarrow> bool \<Rightarrow> u8 list rresult" where
  "write_uint bytes offset number width little_endian =
     (if number < 0 then Err ''unsigned integer value must not be negative''
      else case int_width width of
        Inl e \<Rightarrow> Err e
      | Inr w \<Rightarrow>
          if w < 8 \<and> number \<ge> 2 ^ (w * 8) then Err ''integer value does not fit requested width''
          else (case checked_range bytes offset w of
              Inl e \<Rightarrow> Err e
            | Inr (start, stop) \<Rightarrow> Ok (overwrite bytes start (scatter little_endian w (word_of_int number)))))"

text \<open>Floats, on a little-endian machine.\<close>

definition float_bytes :: "bool \<Rightarrow> u64 \<Rightarrow> u8 list" where
  "float_bytes little_endian bits = (let raw = le_bytes 8 (uint bits) in if little_endian then raw else rev raw)"

definition float_of_bytes :: "bool \<Rightarrow> u8 list \<Rightarrow> u64" where
  "float_of_bytes little_endian raw = word_of_int (le_unsigned (if little_endian then raw else rev raw))"

definition read_float :: "u8 list \<Rightarrow> int \<Rightarrow> bool \<Rightarrow> u64 rresult" where
  "read_float bytes offset little_endian = (case checked_range bytes offset 8 of
       Inl _ \<Rightarrow> Err ''not enough bytes for an 8-byte float''
     | Inr (start, stop) \<Rightarrow> Ok (float_of_bytes little_endian (take (stop - start) (drop start bytes))))"

definition write_float :: "u8 list \<Rightarrow> int \<Rightarrow> u64 \<Rightarrow> bool \<Rightarrow> u8 list rresult" where
  "write_float bytes offset bits little_endian = (case checked_range bytes offset 8 of
       Inl _ \<Rightarrow> Err ''not enough bytes for an 8-byte float''
     | Inr (start, stop) \<Rightarrow> Ok (overwrite bytes start (float_bytes little_endian bits)))"

subsection \<open>Variable-length integers\<close>

fun varint_loop :: "u8 list \<Rightarrow> nat \<Rightarrow> u64 \<Rightarrow> int rresult" where
  "varint_loop [] shift acc = Err ''truncated varint''"
| "varint_loop (byte # bytes) shift acc =
     (if shift \<ge> 64 then Err ''varint is too large''
      else
        let payload = ucast (byte AND 0x7f) in
        if shift = 63 \<and> (payload > 1 \<or> byte AND 0x80 \<noteq> 0) then Err ''varint is too large''
        else
          let acc' = acc OR push_bit shift payload in
          if byte AND 0x80 = 0
          then (if uint acc' \<le> i64_max then Ok (uint acc') else Err ''decoded varint does not fit in int'')
          else varint_loop bytes (shift + 7) acc')"

definition read_varint :: "u8 list \<Rightarrow> int \<Rightarrow> int rresult" where
  "read_varint bytes offset =
     (if offset < 0 then Err ''offset must not be negative''
      else if nat offset \<ge> length bytes then Err ''offset is outside the byte sequence''
      else varint_loop (drop (nat offset) bytes) 0 0)"

function varint_encode :: "u64 \<Rightarrow> u8 list" where
  "varint_encode number =
     (let byte = ucast (number AND 0x7f); rest = drop_bit 7 number in
      if rest \<noteq> 0 then (byte OR 0x80) # varint_encode rest else [byte])"
  by pat_completeness auto
termination
proof (relation "measure unat")
  fix number :: u64 and byte :: u8 and rest :: u64
  assume "rest = drop_bit 7 number" "rest \<noteq> 0"
  moreover from this have "unat number \<noteq> 0" by (cases "number = 0") (simp_all add: unat_eq_0)
  ultimately show "(rest, number) \<in> measure unat"
    by (simp only: in_measure unat_shift_right) simp
qed simp

definition write_varint :: "u8 list \<Rightarrow> int \<Rightarrow> int \<Rightarrow> (int \<times> u8 list) rresult" where
  "write_varint bytes offset number =
     (if offset < 0 then Err ''offset must not be negative''
      else
        let encoded = varint_encode (word_of_int number);
            start = nat offset; stop = start + length encoded in
        if stop > usize_max then Err ''offset is too large''
        else if stop > length bytes then Err ''not enough space for encoded varint''
        else Ok (int (length encoded), overwrite bytes start encoded))"

subsection \<open>Formatting\<close>

definition radix_digit :: "nat \<Rightarrow> char" where
  "radix_digit d = (if d < 10 then char_of (48 + d) else char_of (87 + d))"

fun show_radix :: "nat \<Rightarrow> nat \<Rightarrow> string" where
  "show_radix base n = (if base < 2 \<or> n < base then [radix_digit n] else show_radix base (n div base) @ [radix_digit (n mod base)])"

declare show_radix.simps [simp del]

definition zero_padded :: "nat \<Rightarrow> string \<Rightarrow> string" where
  "zero_padded width s = replicate (width - length s) (CHR ''0'') @ s"

definition minimum_width :: "int \<Rightarrow> int option" where
  "minimum_width radix = (if radix = 2 then Some 8 else if radix = 8 then Some 3 else if radix = 10 then Some 3
     else if radix = 16 then Some 2 else None)"

definition format_bytes :: "u8 list \<Rightarrow> int \<Rightarrow> int \<Rightarrow> string rresult" where
  "format_bytes bytes radix width = (case minimum_width radix of
       None \<Rightarrow> Err ''radix must be one of 2, 8, 10, or 16''
     | Some least \<Rightarrow>
         let w = (if width = 0 then least else width) in
         if w < least
         then Err (''width must be at least '' @ show_int least @ '' for radix '' @ show_int radix)
         else if w > 64 then Err (''width must not exceed '' @ show_int 64 @ '' characters'')
         else if length bytes * nat w > usize_max then Err ''formatted output is too large''
         else Ok (concat (map (\<lambda>b. zero_padded (nat w) (show_radix (nat radix) (unat b))) bytes)))"

end
