(* ===== verification/Bytes_Abi.thy ===== *)
theory Bytes_Abi
  imports Bytes_Core Error_Families
begin

text \<open>
  The entry points of the \<open>bytes\<close> value (\<open>src/src/bytes.rs\<close>). A mutator changes the contents inside
  the block of its first argument; a fallible one answers with a result block. A raw pointer to
  octets is the memory behind it, with \<^term>\<open>None\<close> for null.
\<close>

subsection \<open>Access\<close>

definition bytes_ok :: "mux_value \<Rightarrow> 'z err_heap_scheme \<Rightarrow> nat \<times> 'z err_heap_scheme" where
  "bytes_ok v h = mux_rc_alloc (VResult (Inr v)) h"

definition bytes_return ::
  "hooks \<Rightarrow> mux_value rresult \<Rightarrow> 'z err_heap_scheme \<Rightarrow> (nat \<times> 'z err_heap_scheme) option" where
  "bytes_return H r h = (case r of Inr v \<Rightarrow> Some (bytes_ok v h) | Inl message \<Rightarrow> bytes_result_err H message h)"

definition byte_value :: "nat \<Rightarrow> 'z heap_scheme \<Rightarrow> u8 rresult option" where
  "byte_value = read_or (Err ''null byte value'') (\<lambda>v. case v of
       VInt number \<Rightarrow> if 0 \<le> number \<and> number \<le> 255 then Ok (word_of_int number) else Err ''expected a byte value''
     | _ \<Rightarrow> Err ''expected a byte value'')"

definition as_bytes :: "mux_value \<Rightarrow> u8 list option" where
  "as_bytes v = (case v of VBytes bytes \<Rightarrow> Some bytes | _ \<Rightarrow> None)"

definition bytes_ref :: "nat \<Rightarrow> 'z heap_scheme \<Rightarrow> u8 list option option" where
  "bytes_ref = read_or None as_bytes"

definition bytes_mut ::
  "nat \<Rightarrow> (u8 list \<Rightarrow> 'z heap_scheme \<Rightarrow> 'r \<times> u8 list \<times> 'z heap_scheme) \<Rightarrow> 'z heap_scheme \<Rightarrow> ('r option \<times> 'z heap_scheme) option" where
  "bytes_mut = with_payload_mut as_bytes VBytes []"

text \<open>A mutator with an answer, and one without.\<close>

definition bytes_change ::
  "(u8 list \<Rightarrow> 'r \<times> u8 list) \<Rightarrow> nat \<Rightarrow> 'z heap_scheme \<Rightarrow> ('r option \<times> 'z heap_scheme) option" where
  "bytes_change f p h = bytes_mut p (\<lambda>bytes h. let (r, bytes') = f bytes in (r, bytes', h)) h"

definition bytes_update :: "(u8 list \<Rightarrow> u8 list) \<Rightarrow> nat \<Rightarrow> 'z heap_scheme \<Rightarrow> (unit \<times> 'z heap_scheme) option" where
  "bytes_update f p h = map_option (\<lambda>(_, h1). ((), h1)) (bytes_change (\<lambda>bytes. ((), f bytes)) p h)"

definition bytes_update_with ::
  "(u8 list \<Rightarrow> u8 \<Rightarrow> u8 list) \<Rightarrow> nat \<Rightarrow> nat \<Rightarrow> 'z heap_scheme \<Rightarrow> (unit \<times> 'z heap_scheme) option" where
  "bytes_update_with f p byte h = do {
     b \<leftarrow> byte_value byte h;
     case b of Inl _ \<Rightarrow> Some ((), h) | Inr b \<Rightarrow> bytes_update (\<lambda>bytes. f bytes b) p h
   }"

definition optional_byte :: "u8 option \<Rightarrow> mux_value" where
  "optional_byte b = VOptional (map_option (\<lambda>b. VInt (uint b)) b)"

subsection \<open>Construction and conversion\<close>

definition mux_bytes_new :: "'z heap_scheme \<Rightarrow> nat \<times> 'z heap_scheme" where
  "mux_bytes_new h = mux_rc_alloc (VBytes []) h"

definition mux_bytes_from_data :: "u8 list option \<Rightarrow> int \<Rightarrow> 'z heap_scheme \<Rightarrow> (nat \<times> 'z heap_scheme) option" where
  "mux_bytes_from_data data len h =
     (if data = None \<or> len \<le> 0 then Some (mux_rc_alloc (VBytes []) h)
      else if nat len > length (the data) then None
      else Some (mux_rc_alloc (VBytes (take (nat len) (the data))) h))"

definition octet :: "mux_value \<Rightarrow> u8 option" where
  "octet v = (case v of VInt number \<Rightarrow> if 0 \<le> number \<and> number \<le> 255 then Some (word_of_int number) else None | _ \<Rightarrow> None)"

fun octets :: "mux_value list \<Rightarrow> u8 list option" where
  "octets [] = Some []"
| "octets (v # vs) = do { b \<leftarrow> octet v; bs \<leftarrow> octets vs; Some (b # bs) }"

definition mux_bytes_from_list :: "hooks \<Rightarrow> nat \<Rightarrow> 'z err_heap_scheme \<Rightarrow> (nat \<times> 'z err_heap_scheme) option" where
  "mux_bytes_from_list H list h = do {
     r \<leftarrow> read_or (Err ''expected a list of integer octets'') (\<lambda>v. case v of
         VList values \<Rightarrow> (case octets values of
             Some bytes \<Rightarrow> Ok (VBytes bytes)
           | None \<Rightarrow> Err ''list contains a value outside byte range 0..255'')
       | _ \<Rightarrow> Err ''expected a list of integer octets'') list h;
     bytes_return H r h
   }"

definition mux_bytes_to_list :: "nat \<Rightarrow> 'z heap_scheme \<Rightarrow> (nat \<times> 'z heap_scheme) option" where
  "mux_bytes_to_list p h = do {
     bytes \<leftarrow> bytes_ref p h;
     Some (mux_rc_alloc (VList (case bytes of None \<Rightarrow> [] | Some bytes \<Rightarrow> map (\<lambda>b. VInt (uint b)) bytes)) h)
   }"

definition mux_bytes_to_utf8 :: "hooks \<Rightarrow> nat \<Rightarrow> 'z err_heap_scheme \<Rightarrow> (nat \<times> 'z err_heap_scheme) option" where
  "mux_bytes_to_utf8 H p h = do {
     bytes \<leftarrow> bytes_ref p h;
     bytes_return H (case bytes of
         None \<Rightarrow> Err ''expected bytes''
       | Some bytes \<Rightarrow> (case from_utf8 bytes of Some text \<Rightarrow> Ok (VString text) | None \<Rightarrow> Err ''bytes are not valid UTF-8'')) h
   }"

definition mux_bytes_to_utf8_lossy :: "nat \<Rightarrow> 'z heap_scheme \<Rightarrow> (nat \<times> 'z heap_scheme) option" where
  "mux_bytes_to_utf8_lossy p h = do {
     bytes \<leftarrow> bytes_ref p h;
     Some (mux_rc_alloc (VString (case bytes of None \<Rightarrow> [] | Some bytes \<Rightarrow> text_of_bytes (utf8_lossy bytes))) h)
   }"

definition mux_bytes_from_utf8 :: "hooks \<Rightarrow> nat \<Rightarrow> 'z err_heap_scheme \<Rightarrow> (nat \<times> 'z err_heap_scheme) option" where
  "mux_bytes_from_utf8 H p h = do {
     text \<leftarrow> read_or None (\<lambda>v. case v of VString text \<Rightarrow> Some text | _ \<Rightarrow> None) p h;
     case text of
       None \<Rightarrow> bytes_result_err H ''expected string'' h
     | Some text \<Rightarrow> Some (mux_rc_alloc (VBytes (bytes_of_text text)) h)
   }"

text \<open>A C string handed out is its octets before the terminator.\<close>

definition mux_bytes_to_cstr :: "nat \<Rightarrow> 'z heap_scheme \<Rightarrow> u8 list option" where
  "mux_bytes_to_cstr p h = map_option (\<lambda>bytes. case bytes of
       None \<Rightarrow> []
     | Some bytes \<Rightarrow> if 0 \<in> set bytes then [] else bytes) (bytes_ref p h)"

definition mux_bytes_from_cstr ::
  "hooks \<Rightarrow> u8 list option \<Rightarrow> 'z err_heap_scheme \<Rightarrow> (nat \<times> 'z err_heap_scheme) option" where
  "mux_bytes_from_cstr H cstr h = (case cstr of
       None \<Rightarrow> bytes_result_err H ''null input'' h
     | Some bytes \<Rightarrow> Some (mux_rc_alloc (VBytes (takeWhile (\<lambda>b. b \<noteq> 0) bytes)) h))"

subsection \<open>Readers\<close>

definition mux_bytes_length :: "nat \<Rightarrow> 'z heap_scheme \<Rightarrow> int option" where
  "mux_bytes_length p h = map_option (case_option 0 (\<lambda>bytes. int (length bytes))) (bytes_ref p h)"

definition mux_bytes_is_empty :: "nat \<Rightarrow> 'z heap_scheme \<Rightarrow> bool option" where
  "mux_bytes_is_empty p h = map_option (case_option True (\<lambda>bytes. bytes = [])) (bytes_ref p h)"

definition mux_bytes_get :: "nat \<Rightarrow> int \<Rightarrow> 'z heap_scheme \<Rightarrow> (nat \<times> 'z heap_scheme) option" where
  "mux_bytes_get p index h = do {
     bytes \<leftarrow> bytes_ref p h;
     Some (mux_rc_alloc (optional_byte (Option.bind bytes (\<lambda>bytes. bytes_get bytes index))) h)
   }"

definition mux_bytes_slice :: "nat \<Rightarrow> int \<Rightarrow> int \<Rightarrow> 'z heap_scheme \<Rightarrow> (nat \<times> 'z heap_scheme) option" where
  "mux_bytes_slice p start stop h = do {
     bytes \<leftarrow> bytes_ref p h;
     Some (mux_rc_alloc (VBytes (case bytes of None \<Rightarrow> [] | Some bytes \<Rightarrow> bytes_slice bytes start stop)) h)
   }"

definition mux_bytes_contains :: "nat \<Rightarrow> nat \<Rightarrow> 'z heap_scheme \<Rightarrow> bool option" where
  "mux_bytes_contains p byte h = do {
     b \<leftarrow> byte_value byte h;
     case b of
       Inl _ \<Rightarrow> Some False
     | Inr b \<Rightarrow> map_option (case_option False (\<lambda>bytes. b \<in> set bytes)) (bytes_ref p h)
   }"

definition mux_bytes_find :: "nat \<Rightarrow> nat \<Rightarrow> 'z heap_scheme \<Rightarrow> (nat \<times> 'z heap_scheme) option" where
  "mux_bytes_find p byte h = do {
     b \<leftarrow> byte_value byte h;
     case b of
       Inl _ \<Rightarrow> Some (mux_rc_alloc (VOptional None) h)
     | Inr b \<Rightarrow> do {
         bytes \<leftarrow> bytes_ref p h;
         Some (mux_rc_alloc (VOptional (map_option (\<lambda>i. VInt (int i)) (Option.bind bytes (\<lambda>bytes. bytes_find bytes b)))) h)
       }
   }"

definition bytes_query ::
  "hooks \<Rightarrow> (u8 list \<Rightarrow> mux_value rresult) \<Rightarrow> nat \<Rightarrow> 'z err_heap_scheme \<Rightarrow> (nat \<times> 'z err_heap_scheme) option" where
  "bytes_query H f p h = do {
     bytes \<leftarrow> bytes_ref p h;
     bytes_return H (case bytes of None \<Rightarrow> Err ''expected bytes'' | Some bytes \<Rightarrow> f bytes) h
   }"

definition mux_bytes_read_uint ::
  "hooks \<Rightarrow> nat \<Rightarrow> int \<Rightarrow> int \<Rightarrow> bool \<Rightarrow> 'z err_heap_scheme \<Rightarrow> (nat \<times> 'z err_heap_scheme) option" where
  "mux_bytes_read_uint H p offset width little_endian =
     bytes_query H (\<lambda>bytes. map_sum id VInt (read_uint bytes offset width little_endian)) p"

definition mux_bytes_read_float ::
  "hooks \<Rightarrow> nat \<Rightarrow> int \<Rightarrow> bool \<Rightarrow> 'z err_heap_scheme \<Rightarrow> (nat \<times> 'z err_heap_scheme) option" where
  "mux_bytes_read_float H p offset little_endian =
     bytes_query H (\<lambda>bytes. map_sum id VFloat (read_float bytes offset little_endian)) p"

definition mux_bytes_read_varint ::
  "hooks \<Rightarrow> nat \<Rightarrow> int \<Rightarrow> 'z err_heap_scheme \<Rightarrow> (nat \<times> 'z err_heap_scheme) option" where
  "mux_bytes_read_varint H p offset = bytes_query H (\<lambda>bytes. map_sum id VInt (read_varint bytes offset)) p"

definition mux_bytes_format ::
  "hooks \<Rightarrow> nat \<Rightarrow> int \<Rightarrow> int \<Rightarrow> 'z err_heap_scheme \<Rightarrow> (nat \<times> 'z err_heap_scheme) option" where
  "mux_bytes_format H p radix width = bytes_query H (\<lambda>bytes. map_sum id VString (format_bytes bytes radix width)) p"

subsection \<open>Mutators\<close>

definition mux_bytes_push_back :: "nat \<Rightarrow> nat \<Rightarrow> 'z heap_scheme \<Rightarrow> (unit \<times> 'z heap_scheme) option" where
  "mux_bytes_push_back = bytes_update_with (\<lambda>bytes b. bytes @ [b])"

definition mux_bytes_push_front :: "nat \<Rightarrow> nat \<Rightarrow> 'z heap_scheme \<Rightarrow> (unit \<times> 'z heap_scheme) option" where
  "mux_bytes_push_front = bytes_update_with (\<lambda>bytes b. b # bytes)"

definition mux_bytes_take ::
  "(u8 list \<Rightarrow> u8 option \<times> u8 list) \<Rightarrow> nat \<Rightarrow> 'z heap_scheme \<Rightarrow> (nat \<times> 'z heap_scheme) option" where
  "mux_bytes_take f p h = do {
     (popped, h1) \<leftarrow> bytes_change f p h;
     Some (mux_rc_alloc (optional_byte (Option.bind popped id)) h1)
   }"

definition mux_bytes_pop_back :: "nat \<Rightarrow> 'z heap_scheme \<Rightarrow> (nat \<times> 'z heap_scheme) option" where
  "mux_bytes_pop_back = mux_bytes_take bytes_pop_back"

definition mux_bytes_pop_front :: "nat \<Rightarrow> 'z heap_scheme \<Rightarrow> (nat \<times> 'z heap_scheme) option" where
  "mux_bytes_pop_front = mux_bytes_take bytes_pop_front"

definition mux_bytes_remove :: "nat \<Rightarrow> int \<Rightarrow> 'z heap_scheme \<Rightarrow> (nat \<times> 'z heap_scheme) option" where
  "mux_bytes_remove p index = mux_bytes_take (\<lambda>bytes. bytes_remove bytes index) p"

definition mux_bytes_clear :: "nat \<Rightarrow> 'z heap_scheme \<Rightarrow> (unit \<times> 'z heap_scheme) option" where
  "mux_bytes_clear = bytes_update (\<lambda>_. [])"

text \<open>Reserving changes the capacity only.\<close>

definition mux_bytes_reserve :: "nat \<Rightarrow> int \<Rightarrow> 'z heap_scheme \<Rightarrow> (unit \<times> 'z heap_scheme) option" where
  "mux_bytes_reserve p additional h = (if additional < 0 then Some ((), h) else bytes_update id p h)"

definition mux_bytes_truncate :: "nat \<Rightarrow> int \<Rightarrow> 'z heap_scheme \<Rightarrow> (unit \<times> 'z heap_scheme) option" where
  "mux_bytes_truncate p len = bytes_update (\<lambda>bytes. bytes_truncate bytes len) p"

definition mux_bytes_resize ::
  "(nat \<Rightarrow> nat \<Rightarrow> bool) \<Rightarrow> nat \<Rightarrow> int \<Rightarrow> nat \<Rightarrow> 'z heap_scheme \<Rightarrow> (unit \<times> 'z heap_scheme) option" where
  "mux_bytes_resize can_reserve p len fill h = do {
     b \<leftarrow> byte_value fill h;
     case b of
       Inl _ \<Rightarrow> Some ((), h)
     | Inr b \<Rightarrow> if len < 0 then Some ((), h) else bytes_update (\<lambda>bytes. bytes_resize can_reserve bytes (nat len) b) p h
   }"

definition mux_bytes_fill :: "nat \<Rightarrow> nat \<Rightarrow> 'z heap_scheme \<Rightarrow> (unit \<times> 'z heap_scheme) option" where
  "mux_bytes_fill = bytes_update_with (\<lambda>bytes b. replicate (length bytes) b)"

definition mux_bytes_extend :: "nat \<Rightarrow> nat \<Rightarrow> 'z heap_scheme \<Rightarrow> (unit \<times> 'z heap_scheme) option" where
  "mux_bytes_extend p other h = do {
     more_bytes \<leftarrow> bytes_ref other h;
     case more_bytes of None \<Rightarrow> Some ((), h) | Some tail \<Rightarrow> bytes_update (\<lambda>bytes. bytes @ tail) p h
   }"

definition mux_bytes_insert :: "nat \<Rightarrow> int \<Rightarrow> nat \<Rightarrow> 'z heap_scheme \<Rightarrow> (unit \<times> 'z heap_scheme) option" where
  "mux_bytes_insert p index = bytes_update_with (\<lambda>bytes b. bytes_insert bytes index b) p"

definition mux_bytes_copy_within :: "nat \<Rightarrow> int \<Rightarrow> int \<Rightarrow> int \<Rightarrow> 'z heap_scheme \<Rightarrow> (unit \<times> 'z heap_scheme) option" where
  "mux_bytes_copy_within p destination source len = bytes_update (\<lambda>bytes. bytes_copy_within bytes destination source len) p"

text \<open>A mutator that may fail: on failure the contents stay.\<close>

definition bytes_attempt ::
  "hooks \<Rightarrow> (u8 list \<Rightarrow> (mux_value \<times> u8 list) rresult) \<Rightarrow> nat \<Rightarrow> 'z err_heap_scheme \<Rightarrow> (nat \<times> 'z err_heap_scheme) option" where
  "bytes_attempt H f p h = do {
     (r, h1) \<leftarrow> bytes_change (\<lambda>bytes. case f bytes of Inl e \<Rightarrow> (Err e, bytes) | Inr (v, bytes') \<Rightarrow> (Ok v, bytes')) p h;
     bytes_return H (case r of None \<Rightarrow> Err ''expected bytes'' | Some r \<Rightarrow> r) h1
   }"

definition mux_bytes_write_uint ::
  "hooks \<Rightarrow> nat \<Rightarrow> int \<Rightarrow> int \<Rightarrow> int \<Rightarrow> bool \<Rightarrow> 'z err_heap_scheme \<Rightarrow> (nat \<times> 'z err_heap_scheme) option" where
  "mux_bytes_write_uint H p offset number width little_endian =
     bytes_attempt H (\<lambda>bytes. map_sum id (Pair VUnit) (write_uint bytes offset number width little_endian)) p"

definition mux_bytes_write_float ::
  "hooks \<Rightarrow> nat \<Rightarrow> int \<Rightarrow> nat \<Rightarrow> bool \<Rightarrow> 'z err_heap_scheme \<Rightarrow> (nat \<times> 'z err_heap_scheme) option" where
  "mux_bytes_write_float H p offset number little_endian h = do {
     f \<leftarrow> read_or None (\<lambda>v. case v of VFloat f \<Rightarrow> Some f | _ \<Rightarrow> None) number h;
     case f of
       None \<Rightarrow> bytes_result_err H ''expected float'' h
     | Some f \<Rightarrow> bytes_attempt H (\<lambda>bytes. map_sum id (Pair VUnit) (write_float bytes offset f little_endian)) p h
   }"

definition mux_bytes_write_varint ::
  "hooks \<Rightarrow> nat \<Rightarrow> int \<Rightarrow> int \<Rightarrow> 'z err_heap_scheme \<Rightarrow> (nat \<times> 'z err_heap_scheme) option" where
  "mux_bytes_write_varint H p offset number h =
     (if number < 0 then bytes_result_err H ''varint value must not be negative'' h
      else bytes_attempt H (\<lambda>bytes. map_sum id (\<lambda>(n, bytes'). (VInt n, bytes')) (write_varint bytes offset number)) p h)"

end
