(* ===== verification/Bytes_Laws.thy ===== *)
theory Bytes_Laws
  imports Bytes_Core
begin

unbundle bit_operations_syntax

text \<open>Laws of the operations of the \<open>bytes\<close> value.\<close>

subsection \<open>Integers of a given width\<close>

lemma bit_or_fold:
  "bit (fold (\<lambda>(position, byte) v. v OR push_bit (s position) (ucast byte)) pairs acc :: u64) n \<longleftrightarrow>
     bit acc n \<or> (n < 64 \<and> (\<exists>(position, byte) \<in> set pairs. s position \<le> n \<and> bit (byte :: u8) (n - s position)))"
proof (induction pairs arbitrary: acc)
  case (Cons pair pairs)
  show ?case unfolding fold_simps(2) comp_apply Cons.IH by (cases pair) (auto simp: bit_simps)
qed simp

lemma bit_gather:
  "bit (gather le w chunk) n \<longleftrightarrow> n < 64 \<and>
     (\<exists>i < length chunk. byte_shift le w i \<le> n \<and> bit (chunk ! i) (n - byte_shift le w i))"
  unfolding gather_def bit_or_fold by (auto simp: in_set_enumerate_eq)

lemma byte_shift_covers:
  assumes "n < w * 8"
  shows "\<exists>i < w. byte_shift le w i \<le> n \<and> n - byte_shift le w i < 8"
proof (cases le)
  case True
  then show ?thesis using assms by (intro exI [of _ "n div 8"]) (auto simp: byte_shift_def)
next
  case False
  then show ?thesis using assms by (intro exI [of _ "w - n div 8 - 1"]) (auto simp: byte_shift_def)
qed

lemma scatter_length [simp]: "length (scatter le w v) = w"
  by (simp add: scatter_def)

lemma scatter_nth: "i < w \<Longrightarrow> scatter le w v ! i = ucast (drop_bit (byte_shift le w i) v)"
  by (simp add: scatter_def)

lemma gather_scatter:
  assumes "uint v < 2 ^ (w * 8)"
  shows "gather le w (scatter le w v) = v"
proof (rule bit_word_eqI)
  fix n assume n: "n < LENGTH(64)"
  have "take_bit (w * 8) (uint v) = uint v" using assms by (simp add: take_bit_int_eq_self_iff)
  then have small: "n < w * 8" if "bit v n"
    using that n bit_take_bit_iff [of "w * 8" "uint v" n] by (simp add: bit_uint_iff)
  have "bit (gather le w (scatter le w v)) n \<longleftrightarrow>
      (\<exists>i < w. byte_shift le w i \<le> n \<and> n - byte_shift le w i < 8 \<and> bit v n)"
    using n by (auto simp: bit_gather scatter_nth bit_simps cong: conj_cong)
  then show "bit (gather le w (scatter le w v)) n = bit v n" using small byte_shift_covers [of n w le] by auto
qed

lemma le_bytes_scatter: "le_bytes w x = map (\<lambda>i. word_of_int (x div 256 ^ i)) [0..<w]"
proof (induction w arbitrary: x)
  case (Suc w)
  have "map (\<lambda>i. word_of_int (x div 256 ^ i) :: u8) [0..<Suc w] =
      word_of_int x # map (\<lambda>i. word_of_int (x div 256 ^ Suc i)) [0..<w]"
    by (simp add: map_upt_Suc del: upt_Suc)
  then show ?case using Suc by (simp add: zdiv_zmult2_eq del: upt_Suc)
qed simp

lemma scatter_le: "w \<le> 8 \<Longrightarrow> 0 \<le> x \<Longrightarrow> x < 2 ^ 64 \<Longrightarrow> scatter True w (word_of_int x) = le_bytes w x"
  unfolding le_bytes_scatter scatter_def
proof (rule map_cong [OF refl])
  fix i assume "0 \<le> x" "x < 2 ^ 64"
  then have "uint (word_of_int x :: u64) = x" by (simp add: uint_word_of_int)
  moreover have "(2 :: int) ^ (i * 8) = 256 ^ i" using power_mult [of "2 :: int" 8 i] by (simp add: mult.commute)
  ultimately have "uint (drop_bit (byte_shift True w i) (word_of_int x :: u64)) = x div 256 ^ i"
    by (simp only: byte_shift_def uint_shift_right if_True)
  then show "ucast (drop_bit (byte_shift True w i) (word_of_int x :: u64)) = word_of_int (x div 256 ^ i)"
    by (metis word_of_int_uint ucast_eq)
qed

lemma scatter_be: "scatter False w v = rev (scatter True w v)"
  by (rule nth_equalityI) (auto simp: scatter_nth rev_nth byte_shift_def Suc_diff_Suc)

lemma le_unsigned_bound: "0 \<le> le_unsigned bs \<and> le_unsigned bs < 256 ^ length bs"
proof (induction bs)
  case (Cons b bs)
  have "uint b < 256" "0 \<le> uint b" using uint_bounded [of b] by simp_all
  then show ?case using Cons by simp
qed simp

text \<open>The loop over the bytes computes the number they spell in base 256.\<close>

lemma gather_number:
  assumes "length bs \<le> 8"
  shows "uint (gather le (length bs) bs) = le_unsigned (if le then bs else rev bs)"
proof -
  have main: "uint (gather True (length bs) bs) = le_unsigned bs \<and> uint (gather False (length bs) (rev bs)) = le_unsigned bs"
    if "length bs \<le> 8" for bs
  proof -
    let ?x = "le_unsigned bs"
    have "(256 :: int) ^ length bs \<le> 256 ^ 8" using that by (intro power_increasing) simp_all
    then have x: "0 \<le> ?x" "?x < 2 ^ 64" "?x < 2 ^ (length bs * 8)"
      using le_unsigned_bound [of bs] by (simp_all add: power_mult mult.commute [of _ 8])
    then have u: "uint (word_of_int ?x :: u64) = ?x" by (simp add: uint_word_of_int)
    have s: "scatter True (length bs) (word_of_int ?x) = bs" using scatter_le [OF that x(1,2)] le_bytes_unsigned [of bs] by simp
    show ?thesis using gather_scatter [of "word_of_int ?x" "length bs"] x(3) u s by (metis scatter_be)
  qed
  from main [of bs] main [of "rev bs"] assms show ?thesis by simp
qed

subsection \<open>Writing then reading\<close>

lemma int_width_ok: "int_width width = Ok w \<longleftrightarrow> 1 \<le> width \<and> width \<le> 8 \<and> w = nat width"
  by (auto simp: int_width_def)

lemma checked_range_ok:
  "checked_range bytes offset width = Ok r \<longleftrightarrow>
     0 \<le> offset \<and> nat offset + width \<le> min usize_max (length bytes) \<and> r = (nat offset, nat offset + width)"
  by (auto simp: checked_range_def Let_def)

lemma overwrite_length [simp]: "start + length new \<le> length bytes \<Longrightarrow> length (overwrite bytes start new) = length bytes"
  by (simp add: overwrite_def)

lemma overwrite_chunk:
  "start + length new \<le> length bytes \<Longrightarrow> take (length new) (drop start (overwrite bytes start new)) = new"
  by (simp add: overwrite_def)

lemma overwrite_nth:
  assumes "start + length new \<le> length bytes" "i < length bytes"
  shows "overwrite bytes start new ! i = (if start \<le> i \<and> i < start + length new then new ! (i - start) else bytes ! i)"
  using assms by (auto simp: overwrite_def nth_append min_def)

lemma write_uint_ok:
  "write_uint bytes offset number width le = Ok bytes' \<longleftrightarrow>
     0 \<le> number \<and> 1 \<le> width \<and> width \<le> 8 \<and> (width < 8 \<longrightarrow> number < 2 ^ (nat width * 8)) \<and>
     0 \<le> offset \<and> nat offset + nat width \<le> min usize_max (length bytes) \<and>
     bytes' = overwrite bytes (nat offset) (scatter le (nat width) (word_of_int number))"
proof (cases "int_width width")
  case (Inr w)
  then have w: "1 \<le> width" "width \<le> 8" "w = nat width" "w < 8 \<longleftrightarrow> width < 8" by (auto simp: int_width_ok)
  show ?thesis
  proof (cases "checked_range bytes offset w")
    case (Inr r)
    moreover from this have "0 \<le> offset" "nat offset + w \<le> min usize_max (length bytes)" "r = (nat offset, nat offset + w)"
      by (simp_all add: checked_range_ok)
    ultimately show ?thesis using w \<open>int_width width = Inr w\<close> by (auto simp: write_uint_def not_le)
  next
    case (Inl e)
    then have "\<not> (0 \<le> offset \<and> nat offset + w \<le> min usize_max (length bytes))"
      using checked_range_ok [of bytes offset w "(nat offset, nat offset + w)"] by auto
    then show ?thesis using w \<open>int_width width = Inr w\<close> Inl by (auto simp: write_uint_def)
  qed
next
  case (Inl e)
  then show ?thesis using int_width_ok [of width "nat width"] by (auto simp: write_uint_def)
qed

lemma read_uint_in_range:
  assumes "1 \<le> width" "width \<le> 8" "0 \<le> offset" "nat offset + nat width \<le> min usize_max (length bytes)"
  shows "read_uint bytes offset width le =
    (let v = le_unsigned ((if le then id else rev) (take (nat width) (drop (nat offset) bytes))) in
     if v \<le> i64_max then Ok v else Err ''decoded unsigned integer does not fit in int'')"
proof -
  have "int_width width = Ok (nat width)" using assms by (simp add: int_width_ok)
  moreover have "checked_range bytes offset (nat width) = Ok (nat offset, nat offset + nat width)"
    using assms by (simp add: checked_range_ok)
  moreover have "length (take (nat width) (drop (nat offset) bytes)) = nat width" using assms by auto
  moreover from this have "uint (gather le (nat width) (take (nat width) (drop (nat offset) bytes))) =
      le_unsigned ((if le then id else rev) (take (nat width) (drop (nat offset) bytes)))"
    using gather_number [of "take (nat width) (drop (nat offset) bytes)" le] assms by (simp split: if_splits)
  ultimately show ?thesis by (simp add: read_uint_def Let_def)
qed

lemma scatter_number:
  assumes "w \<le> 8" "0 \<le> x" "x < 2 ^ 64"
  shows "le_unsigned ((if le then id else rev) (scatter le w (word_of_int x))) = x mod 256 ^ w"
  using scatter_le [OF assms] by (simp add: scatter_be le_unsigned_bytes)

lemma write_read_uint:
  assumes "write_uint bytes offset number width le = Ok bytes'" "number \<le> i64_max"
  shows "read_uint bytes' offset width le = Ok number"
proof -
  note w = assms(1) [unfolded write_uint_ok]
  have n: "0 \<le> number" "number < 2 ^ 64" using w assms(2) by (auto simp: i64_max_def)
  have "(256 :: int) ^ nat width = 2 ^ (nat width * 8)" using power_mult [of "2 :: int" 8 "nat width"] by (simp add: mult.commute)
  moreover have "nat width \<le> 8" using w by linarith
  moreover have "width = 8 \<or> width < 8" using w by linarith
  ultimately have "nat width \<le> 8" "number < 256 ^ nat width" using w n(2) by auto
  then have "le_unsigned ((if le then id else rev) (scatter le (nat width) (word_of_int number))) = number"
    using scatter_number [of "nat width" number le] w n by (simp split: if_splits)
  moreover have "take (nat width) (drop (nat offset) bytes') = scatter le (nat width) (word_of_int number)" "length bytes' = length bytes"
    using w overwrite_chunk [of "nat offset" "scatter le (nat width) (word_of_int number)" bytes] by simp_all
  ultimately show ?thesis using read_uint_in_range [of width offset bytes' le] w assms(2) by simp
qed

lemma float_round: "float_of_bytes le (float_bytes le bits) = bits"
proof -
  have "uint bits mod 256 ^ 8 = uint bits" using uint_bounded [of bits] by simp
  then show ?thesis by (simp add: float_of_bytes_def float_bytes_def Let_def le_unsigned_bytes)
qed

lemma float_bytes_length [simp]: "length (float_bytes le bits) = 8"
  by (simp add: float_bytes_def Let_def)

lemma write_float_ok:
  "write_float bytes offset bits le = Ok bytes' \<longleftrightarrow>
     0 \<le> offset \<and> nat offset + 8 \<le> min usize_max (length bytes) \<and> bytes' = overwrite bytes (nat offset) (float_bytes le bits)"
  using checked_range_ok [of bytes offset 8]
  by (cases "checked_range bytes offset 8") (auto simp: write_float_def split: prod.splits)

lemma write_read_float:
  assumes "write_float bytes offset bits le = Ok bytes'"
  shows "read_float bytes' offset le = Ok bits"
proof -
  note w = assms [unfolded write_float_ok]
  have "take 8 (drop (nat offset) bytes') = float_bytes le bits" "length bytes' = length bytes"
    using w overwrite_chunk [of "nat offset" "float_bytes le bits" bytes] by simp_all
  moreover from this w have "checked_range bytes' offset 8 = Ok (nat offset, nat offset + 8)" by (simp add: checked_range_ok)
  ultimately show ?thesis by (simp add: read_float_def float_round)
qed

subsection \<open>Variable-length integers\<close>

text \<open>The number an encoding stands for: base 128, least significant digit first.\<close>

fun varint_number :: "u8 list \<Rightarrow> int option" where
  "varint_number [] = None"
| "varint_number (b # bs) = (if b < 0x80 then Some (uint b)
     else map_option (\<lambda>v. uint b - 128 + 128 * v) (varint_number bs))"

definition varint_more :: "u8 list \<Rightarrow> nat" where
  "varint_more bs = length (takeWhile (\<lambda>b. \<not> b < 0x80) bs)"

lemma byte_high:
  fixes b :: u8
  shows "b AND 0x80 = 0 \<longleftrightarrow> uint b < 128" "b < 0x80 \<longleftrightarrow> uint b < 128"
proof -
  have "b AND 2 ^ 7 = 0 \<longleftrightarrow> \<not> bit b 7" by (rule and_exp_eq_0_iff_not_bit)
  moreover have "bit b 7 \<longleftrightarrow> odd (uint b div 128)" using bit_uint_iff [of b 7] by (simp add: bit_iff_odd)
  moreover have "uint b div 128 = (if uint b < 128 then 0 else 1)"
    using uint_bounded [of b] uint_ge_0 [of b] by (auto intro: int_div_pos_eq [of _ _ _ "uint b - 128"])
  ultimately show "b AND 0x80 = 0 \<longleftrightarrow> uint b < 128" by simp
  show "b < 0x80 \<longleftrightarrow> uint b < 128" by (simp add: word_less_def)
qed

lemma byte_low:
  fixes b :: u8
  shows "uint (ucast (b AND 0x7f) :: u64) = uint b mod 128"
proof -
  have "b AND 0x7f = take_bit 7 b" by (simp add: take_bit_eq_mask mask_eq_exp_minus_1)
  moreover have "uint (ucast x :: u64) = uint x" for x :: u8
    using uint_bounded [of x] by (simp add: unsigned_ucast_eq take_bit_int_eq_self)
  ultimately show ?thesis by (simp add: take_bit_eq_mod uint_mod)
qed

lemma or_push_bit:
  fixes acc :: u64
  assumes "uint acc < 2 ^ s" "uint p * 2 ^ s < 2 ^ 64"
  shows "uint (acc OR push_bit s p) = uint acc + 2 ^ s * uint p"
proof -
  have "uint (push_bit s p) = push_bit s (uint p)"
    using assms(2) by (simp only: unsigned_push_bit_eq) (simp add: push_bit_eq_mult take_bit_int_eq_self)
  then have "uint (acc OR push_bit s p) = concat_bit s (uint acc) (uint p)"
    using assms(1) by (simp add: uint_or concat_bit_def take_bit_int_eq_self)
  then show ?thesis using assms(1) by (simp add: concat_bit_eq take_bit_int_eq_self push_bit_eq_mult mult.commute)
qed

lemma varint_loop_step:
  fixes acc :: u64 and b :: u8
  assumes "uint acc < 2 ^ (7 * k)" "k < 9 \<or> k = 9 \<and> uint b mod 128 \<le> 1"
  shows "uint (acc OR push_bit (7 * k) (ucast (b AND 0x7f))) = uint acc + 2 ^ (7 * k) * (uint b mod 128)"
    "uint acc + 2 ^ (7 * k) * (uint b mod 128) < 2 ^ (7 * Suc k)"
proof -
  let ?p = "uint b mod 128"
  have "?p * 2 ^ (7 * k) < 2 ^ 64"
  proof (cases "k = 9")
    case False
    then have "(2 :: int) ^ (7 * k) \<le> 2 ^ 56" using assms(2) by (intro power_increasing) auto
    then have "?p * 2 ^ (7 * k) \<le> 128 * 2 ^ 56" by (intro mult_mono) auto
    then show ?thesis by simp
  qed (use assms(2) in simp)
  then show "uint (acc OR push_bit (7 * k) (ucast (b AND 0x7f))) = uint acc + 2 ^ (7 * k) * ?p"
    using or_push_bit [OF assms(1), of "ucast (b AND 0x7f)"] by (simp add: byte_low)
  have "2 ^ (7 * k) * ?p \<le> (2 :: int) ^ (7 * k) * 127" by (intro mult_left_mono) auto
  then have "uint acc + 2 ^ (7 * k) * ?p < 2 ^ (7 * k) * 128" using assms(1) by linarith
  then show "uint acc + 2 ^ (7 * k) * ?p < 2 ^ (7 * Suc k)" by (simp add: power_add mult.commute)
qed

lemma varint_loop_number:
  assumes "uint acc < 2 ^ (7 * k)" "k \<le> 9"
  shows "varint_loop bytes (7 * k) acc = Ok n \<longleftrightarrow>
    (\<exists>v. varint_number bytes = Some v \<and> n = uint acc + 2 ^ (7 * k) * v \<and> n \<le> i64_max \<and> k + varint_more bytes < 10)"
  using assms
proof (induction bytes arbitrary: k acc)
  case (Cons b bytes)
  have b: "0 \<le> uint b" "uint b < 256" using uint_bounded [of b] by simp_all
  note low = byte_low [of b] and high = byte_high [of b]
  have gt: "1 < (ucast (b AND 0x7f) :: u64) \<longleftrightarrow> 1 < uint b mod 128" by (simp add: word_less_def low)
  have nine: "7 * k = 63 \<longleftrightarrow> k = 9" "\<not> 64 \<le> 7 * k" using Cons.prems(2) by auto
  show ?case
  proof (cases "k = 9 \<and> (1 < uint b mod 128 \<or> \<not> uint b < 128)")
    case True
    then have "varint_loop (b # bytes) (7 * k) acc = Err ''varint is too large''" by (simp add: gt high)
    moreover have "\<not> (n = uint acc + 2 ^ (7 * k) * uint b \<and> n \<le> i64_max)" if "uint b < 128"
      using True that b by (simp add: i64_max_def) (use uint_ge_0 [of acc] in linarith)
    ultimately show ?thesis using True by (auto simp: high varint_more_def)
  next
    case False
    then have k: "k < 9 \<or> k = 9 \<and> uint b mod 128 \<le> 1" using Cons.prems(2) by auto
    note s = varint_loop_step [OF Cons.prems(1) k]
    have step: "varint_loop (b # bytes) (7 * k) acc =
        (if uint b < 128 then (if uint acc + 2 ^ (7 * k) * uint b \<le> i64_max then Ok (uint acc + 2 ^ (7 * k) * uint b) else Err ''decoded varint does not fit in int'')
         else varint_loop bytes (7 * Suc k) (acc OR push_bit (7 * k) (ucast (b AND 0x7f))))"
    proof -
      have "\<not> (7 * k = 63 \<and> (1 < (ucast (b AND 0x7f) :: u64) \<or> b AND 0x80 \<noteq> 0))" using False nine(1) gt high(1) by auto
      then show ?thesis using nine(2) s(1) b unfolding varint_loop.simps(2) Let_def high(1)
        by (simp only: if_False add.commute [of 7] mult_Suc_right mod_pos_pos_trivial refl if_cancel cong: if_cong)
    qed
    show ?thesis
    proof (cases "uint b < 128")
      case True
      then show ?thesis unfolding step using Cons.prems(2) b by (auto simp: high varint_more_def)
    next
      case high_bit: False
      then have "Suc k \<le> 9" using False k by auto
      note IH = Cons.IH [OF s(2) [folded s(1)] this]
      have "uint b mod 128 = uint b - 128" using high_bit b by (intro int_mod_pos_eq [of _ _ 1]) auto
      then have eq: "uint acc + 2 ^ (7 * k) * (uint b mod 128) + 2 ^ (7 * Suc k) * v = uint acc + 2 ^ (7 * k) * (uint b - 128 + 128 * v)" for v
        by (simp only: mult_Suc_right power_add distrib_left) simp
      have "varint_number (b # bytes) = map_option (\<lambda>v. uint b - 128 + 128 * v) (varint_number bytes)"
        "varint_more (b # bytes) = Suc (varint_more bytes)" using high_bit by (simp_all add: high varint_more_def)
      then show ?thesis unfolding step if_not_P [OF high_bit] IH [unfolded s(1) eq]
        by (simp only: map_option_eq_Some add_Suc_right add_Suc) blast
    qed
  qed
qed simp

lemma read_varint_number:
  "read_varint bytes offset = Ok n \<longleftrightarrow> 0 \<le> offset \<and> nat offset < length bytes \<and>
     varint_number (drop (nat offset) bytes) = Some n \<and> n \<le> i64_max \<and> varint_more (drop (nat offset) bytes) < 10"
  using varint_loop_number [of 0 0 "drop (nat offset) bytes" n] by (auto simp: read_varint_def)

declare varint_encode.simps [simp del]

lemma low_bits: "uint (ucast (number AND 0x7f :: u64) :: u8) = uint number mod 128"
proof -
  have "number AND 0x7f = take_bit 7 number" by (simp add: take_bit_eq_mask mask_eq_exp_minus_1)
  then have "uint (number AND 0x7f) = uint number mod 128" by (simp add: take_bit_eq_mod uint_mod)
  then show ?thesis by (simp add: unsigned_ucast_eq take_bit_int_eq_self)
qed

lemma set_high:
  fixes byte :: u8
  assumes "uint byte < 128" shows "uint (byte OR 0x80) = uint byte + 128"
proof -
  have "uint byte OR push_bit 7 1 = concat_bit 7 (uint byte) 1" using assms by (simp add: concat_bit_def take_bit_int_eq_self)
  then have "uint byte OR 128 = uint byte + 128"
    using assms by (simp add: concat_bit_eq take_bit_int_eq_self push_bit_eq_mult)
  then show ?thesis by (simp add: uint_or)
qed

lemma varint_encode_number:
  "varint_number (varint_encode number @ rest) = Some (uint number) \<and>
     varint_more (varint_encode number @ rest) = length (varint_encode number) - 1 \<and> varint_encode number \<noteq> []"
proof (induction number rule: varint_encode.induct)
  case (1 number)
  let ?byte = "ucast (number AND 0x7f) :: u8" and ?rest = "drop_bit 7 number"
  have b: "uint ?byte = uint number mod 128" "uint ?byte < 128" by (simp_all add: low_bits)
  have r: "uint ?rest = uint number div 128" using uint_shift_right [of 7 number] by simp
  show ?case
  proof (cases "?rest = 0")
    case True
    then have "uint number div 128 = 0" using r by simp
    then have "uint number < 128" using uint_ge_0 [of number] by (simp only: zdiv_eq_0_iff) linarith
    then show ?thesis using True b by (simp add: varint_encode.simps [of number] byte_high varint_more_def)
  next
    case False
    have "\<not> ?byte OR 0x80 < 0x80" using set_high [OF b(2)] by (simp add: byte_high)
    moreover have "varint_encode number = (?byte OR 0x80) # varint_encode ?rest"
      using False by (simp add: varint_encode.simps [of number] Let_def)
    moreover have "uint (?byte OR 0x80) - 128 + 128 * uint ?rest = uint number"
      using set_high [OF b(2)] b(1) r by simp
    moreover note "1.IH" [OF refl refl False]
    ultimately show ?thesis by (simp add: varint_more_def length_greater_0_conv [symmetric] del: length_greater_0_conv)
  qed
qed

lemma varint_encode_length: "uint number < 128 ^ Suc k \<Longrightarrow> length (varint_encode number) \<le> Suc k"
proof (induction k arbitrary: number)
  case 0
  then have "uint (drop_bit 7 number) = 0" using uint_shift_right [of 7 number] by simp
  then have "drop_bit 7 number = 0" by (simp only: uint_0_iff)
  then show ?case by (simp add: varint_encode.simps [of number])
next
  case (Suc k)
  have "uint (drop_bit 7 number) < 128 ^ Suc k" using uint_shift_right [of 7 number] Suc.prems by simp
  from Suc.IH [OF this] show ?case by (simp add: varint_encode.simps [of number] Let_def)
qed

lemma write_read_varint:
  assumes "write_varint bytes offset number = Ok (written, bytes')" "0 \<le> number" "number \<le> i64_max"
  shows "read_varint bytes' offset = Ok number" "1 \<le> written" "written \<le> 9" "length bytes' = length bytes"
proof -
  let ?e = "varint_encode (word_of_int number)"
  have u: "uint (word_of_int number :: u64) = number" using assms(2,3) by (simp add: uint_word_of_int i64_max_def)
  have w: "0 \<le> offset" "nat offset + length ?e \<le> length bytes" "bytes' = overwrite bytes (nat offset) ?e" "written = int (length ?e)"
    using assms(1) by (auto simp: write_varint_def Let_def split: if_splits)
  have l: "length ?e \<le> 9" using varint_encode_length [of "word_of_int number" 8] u assms(3) by (simp add: i64_max_def)
  have "drop (nat offset) bytes' = ?e @ drop (nat offset + length ?e) bytes" using w by (simp add: overwrite_def)
  moreover note e = varint_encode_number [of "word_of_int number" "drop (nat offset + length ?e) bytes"]
  moreover have pos: "0 < length ?e" using e by blast
  moreover have "nat offset < length bytes'" unfolding w(3) overwrite_length [OF w(2)] using w(2) pos by linarith
  ultimately show "read_varint bytes' offset = Ok number" using w(1) l u assms(3) unfolding read_varint_number by simp
  show "1 \<le> written" "written \<le> 9" "length bytes' = length bytes" using w l pos unfolding w(3,4) overwrite_length [OF w(2)] by linarith+
qed

end
