(* ===== verification/Bytes_Properties.thy ===== *)
theory Bytes_Properties
  imports Bytes_Abi Bytes_Laws Error_Properties
begin

text \<open>Properties of the \<open>bytes\<close> value (\<open>src/src/bytes.rs\<close>).\<close>

subsection \<open>Calls as steps of a program\<close>






subsection \<open>Access\<close>



















lemma write_varint_ok:
  "write_varint bytes offset number = Ok (written, bytes') \<longleftrightarrow>
     0 \<le> offset \<and> nat offset + length (varint_encode (word_of_int number)) \<le> min usize_max (length bytes) \<and>
     bytes' = overwrite bytes (nat offset) (varint_encode (word_of_int number)) \<and>
     written = int (length (varint_encode (word_of_int number)))"
  by (auto simp: write_varint_def Let_def)

lemma overwrite_outside:
  assumes "0 \<le> offset" "nat offset + length new \<le> length bytes" "len = int (length new)"
  shows "\<forall>i < length bytes. int i < offset \<or> offset + len \<le> int i \<longrightarrow> overwrite bytes (nat offset) new ! i = bytes ! i"
proof (intro allI impI)
  fix i assume i: "i < length bytes" "int i < offset \<or> offset + len \<le> int i"
  have "\<not> (nat offset \<le> i \<and> i < nat offset + length new)" using i(2) assms(1,3) by linarith
  then show "overwrite bytes (nat offset) new ! i = bytes ! i" unfolding overwrite_nth [OF assms(2) i(1)] by (rule if_not_P)
qed

text \<open>C20. What is written into a byte sequence reads back: an unsigned integer of one to eight bytes in
  either byte order, a float bit for bit, and a variable-length integer; the length stays, and
  so does every byte outside the range written.\<close>

theorem bytes_write_read:
  "(write_uint bytes offset number width le = Ok bytes' \<and> number \<le> i64_max \<longrightarrow>
      read_uint bytes' offset width le = Ok number \<and> length bytes' = length bytes \<and>
      (\<forall>i < length bytes. int i < offset \<or> offset + width \<le> int i \<longrightarrow> bytes' ! i = bytes ! i)) \<and>
   (write_float bytes offset bits le = Ok bytes' \<longrightarrow>
      read_float bytes' offset le = Ok bits \<and> length bytes' = length bytes \<and>
      (\<forall>i < length bytes. int i < offset \<or> offset + 8 \<le> int i \<longrightarrow> bytes' ! i = bytes ! i)) \<and>
   (write_varint bytes offset number = Ok (written, bytes') \<and> 0 \<le> number \<and> number \<le> i64_max \<longrightarrow>
      read_varint bytes' offset = Ok number \<and> length bytes' = length bytes \<and> 1 \<le> written \<and> written \<le> 9 \<and>
      (\<forall>i < length bytes. int i < offset \<or> offset + written \<le> int i \<longrightarrow> bytes' ! i = bytes ! i))"
  (is "(?u \<longrightarrow> ?U) \<and> (?f \<longrightarrow> ?F) \<and> (?v \<longrightarrow> ?V)")
proof (intro conjI impI)
  assume u: ?u
  then have w: "0 \<le> offset" "1 \<le> width" "nat offset + nat width \<le> length bytes"
    "bytes' = overwrite bytes (nat offset) (scatter le (nat width) (word_of_int number))" by (auto simp: write_uint_ok)
  show "read_uint bytes' offset width le = Ok number" using u write_read_uint by blast
  show "length bytes' = length bytes" using w by simp
  show "\<forall>i < length bytes. int i < offset \<or> offset + width \<le> int i \<longrightarrow> bytes' ! i = bytes ! i"
    unfolding w(4) by (rule overwrite_outside) (use w(1-3) in simp_all)
next
  assume f: ?f
  then have w: "0 \<le> offset" "nat offset + 8 \<le> length bytes" "bytes' = overwrite bytes (nat offset) (float_bytes le bits)"
    by (auto simp: write_float_ok)
  show "read_float bytes' offset le = Ok bits" by (rule write_read_float [OF f])
  show "length bytes' = length bytes" using w by simp
  show "\<forall>i < length bytes. int i < offset \<or> offset + 8 \<le> int i \<longrightarrow> bytes' ! i = bytes ! i"
    unfolding w(3) by (rule overwrite_outside) (use w(1,2) in simp_all)
next
  assume v: ?v
  then show "read_varint bytes' offset = Ok number" "length bytes' = length bytes" "1 \<le> written" "written \<le> 9"
    using write_read_varint by blast+
  have w: "0 \<le> offset" "nat offset + length (varint_encode (word_of_int number)) \<le> length bytes"
    "bytes' = overwrite bytes (nat offset) (varint_encode (word_of_int number))" "written = int (length (varint_encode (word_of_int number)))"
    using v by (auto simp: write_varint_ok)
  show "\<forall>i < length bytes. int i < offset \<or> offset + written \<le> int i \<longrightarrow> bytes' ! i = bytes ! i"
    unfolding w(3) by (rule overwrite_outside [OF w(1,2,4)])
qed

theorem bytes_write_read_witness:
  "read_uint [1, 2, 188, 4] 1 2 False = Ok 700 \<and> read_varint [9, 188, 5] 1 = Ok 700"
proof -
  have "write_uint [1, 7, 7, 4] 1 700 2 False = Ok [1, 2, 188, 4]"
    by (simp add: write_uint_def int_width_def checked_range_def Let_def usize_max_def overwrite_def scatter_def byte_shift_def upt_rec)
  moreover have "write_varint [9, 9, 9] 1 700 = Ok (2, [9, 188, 5])"
    by (simp add: write_varint_def Let_def usize_max_def overwrite_def varint_encode.simps [of 700] varint_encode.simps [of 5])
  ultimately show ?thesis
    using bytes_write_read [of "[1, 7, 7, 4]" 1 700 2 False "[1, 2, 188, 4]" 0 0]
      bytes_write_read [of "[9, 9, 9]" 1 700 0 False "[9, 188, 5]" 0 2] by (simp add: i64_max_def)
qed

text \<open>C21. Reading computes the number the bytes stand for and never wraps around: a fixed-width read
  is the value in base 256 or the error that it does not fit, and a variable-length read
  succeeds exactly on terminated encodings of at most ten bytes whose value in base 128 fits.\<close>

theorem bytes_read_exact:
  "(1 \<le> width \<and> width \<le> 8 \<and> 0 \<le> offset \<and> nat offset + nat width \<le> min usize_max (length bytes) \<longrightarrow>
     read_uint bytes offset width le =
       (let v = le_unsigned ((if le then id else rev) (take (nat width) (drop (nat offset) bytes))) in
        if v \<le> i64_max then Ok v else Err ''decoded unsigned integer does not fit in int'')) \<and>
   (read_varint bytes offset = Ok n \<longleftrightarrow> 0 \<le> offset \<and> nat offset < length bytes \<and>
     varint_number (drop (nat offset) bytes) = Some n \<and> n \<le> i64_max \<and> varint_more (drop (nat offset) bytes) < 10)"
  using read_uint_in_range [of width offset bytes le] read_varint_number [of bytes offset n] by blast

theorem bytes_read_exact_witness: "read_uint [1, 2, 188, 4] 1 2 True = Ok 48130"
  using bytes_read_exact [of 2 1 "[1, 2, 188, 4]" True] by (simp add: usize_max_def i64_max_def)



subsection \<open>Editing\<close>

lemma clamped_bounds: "0 \<le> clamped bytes i \<and> clamped bytes i \<le> int (length bytes)"
  by (simp add: clamped_def clamp_to_def)

lemma insert_remove: "bytes_remove (bytes_insert bytes i b) (clamped bytes i) = (Some b, bytes)"
proof -
  let ?n = "nat (clamped bytes i)"
  have n: "?n \<le> length bytes" "0 \<le> clamped bytes i" using clamped_bounds [of bytes i] by linarith+
  have "bytes_insert bytes i b = take ?n bytes @ b # drop ?n bytes" by (simp add: bytes_insert_def Let_def)
  moreover have "int (length bytes) + 1 > clamped bytes i" using clamped_bounds [of bytes i] by linarith
  ultimately show ?thesis using n by (simp add: bytes_remove_def from_end_def Let_def nth_append min_def)
qed

lemma get_remove: "bytes_get bytes i = fst (bytes_remove bytes i)"
  by (simp add: bytes_get_def bytes_remove_def Let_def)

lemma copy_within_nth:
  fixes bytes :: "u8 list" and dst src len :: int
  defines "d \<equiv> nat (clamped bytes dst)" and "s \<equiv> nat (clamped bytes src)"
  shows "length (bytes_copy_within bytes dst src len) = length bytes"
    "j < length bytes \<Longrightarrow> bytes_copy_within bytes dst src len ! j =
       (if d \<le> j \<and> int j < int d + len \<and> s + (j - d) < length bytes then bytes ! (s + (j - d)) else bytes ! j)"
proof -
  let ?n = "int (length bytes)"
  let ?a = "nat (max (min (min len (?n - int s)) (?n - int d)) 0)"
  have ds: "clamped bytes dst = int d" "clamped bytes src = int s"
    using clamped_bounds [of bytes] by (simp_all add: d_def s_def)
  then have b: "d \<le> length bytes" "s \<le> length bytes" using clamped_bounds [of bytes] by (metis of_nat_le_iff)+
  define a where "a = ?a"
  define new where "new = take a (drop s bytes)"
  have le: "d + a \<le> length bytes" "s + a \<le> length bytes" using b unfolding a_def by linarith+
  then have n: "length new = a" by (simp add: new_def)
  have c: "bytes_copy_within bytes dst src len = (if a = 0 then bytes else overwrite bytes d new)"
  proof (cases "len \<le> 0")
    case True
    then have "a = 0" unfolding a_def by linarith
    then show ?thesis using True by (simp add: bytes_copy_within_def)
  qed (simp add: bytes_copy_within_def ds Let_def a_def new_def)
  show "length (bytes_copy_within bytes dst src len) = length bytes" using le n by (simp add: c)
  assume j: "j < length bytes"
  have in_range: "(d \<le> j \<and> int j < int d + len \<and> s + (j - d) < length bytes) \<longleftrightarrow> d \<le> j \<and> j < d + a"
    using j b unfolding a_def by linarith
  show "bytes_copy_within bytes dst src len ! j =
       (if d \<le> j \<and> int j < int d + len \<and> s + (j - d) < length bytes then bytes ! (s + (j - d)) else bytes ! j)"
    unfolding in_range c using j le n overwrite_nth [of d new bytes j] by (auto simp: new_def)
qed

lemma slice_parts:
  assumes "0 \<le> k" "k < i64_max"
  shows "bytes_slice bytes 0 k @ bytes_slice bytes k i64_max = bytes"
proof -
  have "i64_max \<noteq> 0" by (simp add: i64_max_def)
  then show ?thesis using assms by (simp add: bytes_slice_def slice_bound_def clamped_def from_end_def clamp_to_def Let_def min_def)
qed

text \<open>C25. Editing a byte sequence: an inserted byte is where the clamped index says and removing it
  there restores the sequence; a copy within the sequence moves every byte as it was before
  the copy, also when source and destination overlap, and touches nothing else; two slices that
  meet at an index make up the whole.\<close>

theorem bytes_editing:
  "bytes_remove (bytes_insert bytes i b) (clamped bytes i) = (Some b, bytes) \<and>
   bytes_get (bytes_insert bytes i b) (clamped bytes i) = Some b \<and>
   length (bytes_copy_within bytes dst src len) = length bytes \<and>
   (j < length bytes \<longrightarrow> bytes_copy_within bytes dst src len ! j =
      (let d = nat (clamped bytes dst); s = nat (clamped bytes src) in
       if d \<le> j \<and> int j < int d + len \<and> s + (j - d) < length bytes then bytes ! (s + (j - d)) else bytes ! j)) \<and>
   (0 \<le> k \<and> k < i64_max \<longrightarrow> bytes_slice bytes 0 k @ bytes_slice bytes k i64_max = bytes)"
  unfolding Let_def get_remove insert_remove fst_conv
  using copy_within_nth [where bytes = bytes and dst = dst and src = src and len = len] slice_parts [of k bytes] by blast

theorem bytes_editing_witness:
  "bytes_copy_within [1, 2, 3, 4] 1 0 3 ! 3 = 3 \<and> bytes_slice [1, 2, 3, 4] 0 3 @ bytes_slice [1, 2, 3, 4] 3 i64_max = [1, 2, 3, 4]"
  using bytes_editing [of "[1, 2, 3, 4]" 0 0 1 0 3 3 3] by (simp add: clamped_def clamp_to_def from_end_def i64_max_def)

subsection \<open>Formatting\<close>

definition radix_value :: "nat \<Rightarrow> string \<Rightarrow> nat" where
  "radix_value base s = foldl (\<lambda>n c. n * base + (if of_char c < (58 :: nat) then of_char c - 48 else of_char c - 87)) 0 s"

lemma show_radix_value: "2 \<le> base \<Longrightarrow> base \<le> 16 \<Longrightarrow> radix_value base (show_radix base n) = n"
proof (induction base n rule: show_radix.induct)
  case (1 base n)
  have d: "(if of_char (radix_digit m) < (58 :: nat) then of_char (radix_digit m) - 48 else of_char (radix_digit m) - 87) = m" if "m < base" for m
    using that 1(3) by (simp add: radix_digit_def)
  show ?case
  proof (cases "n < base")
    case True
    then show ?thesis using d [OF True] by (simp add: show_radix.simps [of base n] radix_value_def)
  next
    case False
    then have "n mod base < base" "radix_value base (show_radix base (n div base)) = n div base" using 1 by simp_all
    then show ?thesis using False 1(2) d [of "n mod base"] by (simp add: show_radix.simps [of base n] radix_value_def)
  qed
qed

lemma padded_value: "radix_value base (zero_padded w s) = radix_value base s"
proof -
  have "foldl (\<lambda>n c. n * base + (if of_char c < (58 :: nat) then of_char c - 48 else of_char c - 87)) 0 (replicate k (CHR ''0'')) = 0" for k
    by (induction k) simp_all
  then show ?thesis by (simp add: radix_value_def zero_padded_def)
qed

lemma show_radix_length: "2 \<le> base \<Longrightarrow> n < base ^ Suc k \<Longrightarrow> length (show_radix base n) \<le> Suc k"
proof (induction k arbitrary: n)
  case (Suc k)
  then have "n div base < base ^ Suc k" by (simp add: less_mult_imp_div_less mult.commute)
  from Suc.IH [OF Suc.prems(1) this] show ?case by (simp add: show_radix.simps [of base n])
qed (simp add: show_radix.simps)

lemma format_chunk:
  assumes "minimum_width radix = Some least" "least \<le> w"
  shows "length (zero_padded (nat w) (show_radix (nat radix) (unat (b :: u8)))) = nat w"
    "radix_value (nat radix) (zero_padded (nat w) (show_radix (nat radix) (unat b))) = unat b"
proof -
  have "unat b < 256" using unsigned_less [of b] by simp
  moreover have "nat radix = 2 \<and> nat least = Suc 7 \<or> nat radix = 8 \<and> nat least = Suc 2 \<or> nat radix = 10 \<and> nat least = Suc 2 \<or>
      nat radix = 16 \<and> nat least = Suc 1"
    using assms(1) by (auto simp: minimum_width_def split: if_splits)
  ultimately have "2 \<le> nat radix" "nat radix \<le> 16" "\<exists>k. nat least = Suc k \<and> unat b < nat radix ^ Suc k" by auto
  then have l: "2 \<le> nat radix" "nat radix \<le> 16" "length (show_radix (nat radix) (unat b)) \<le> nat least"
    using show_radix_length [of "nat radix" "unat b"] by force+
  then show "length (zero_padded (nat w) (show_radix (nat radix) (unat b))) = nat w"
    using assms(2) by (simp add: zero_padded_def)
  show "radix_value (nat radix) (zero_padded (nat w) (show_radix (nat radix) (unat b))) = unat b"
    using l by (simp add: padded_value show_radix_value)
qed

lemma format_bytes_ok:
  "format_bytes bytes radix width = Ok s \<longleftrightarrow> (\<exists>least w. minimum_width radix = Some least \<and> w = (if width = 0 then least else width) \<and>
     least \<le> w \<and> w \<le> 64 \<and> length bytes * nat w \<le> usize_max \<and>
     s = concat (map (\<lambda>b. zero_padded (nat w) (show_radix (nat radix) (unat b))) bytes))"
  by (auto simp: format_bytes_def Let_def split: option.splits)

lemma concat_chunks_inj:
  assumes "\<And>x. length (f x) = n" "0 < n" "inj f" "concat (map f xs) = concat (map f ys)"
  shows "xs = ys"
  using assms(4)
proof (induction xs arbitrary: ys)
  case Nil
  then show ?case using assms(1,2) by (cases ys) (auto simp: length_0_conv [symmetric] simp del: length_0_conv)
next
  case (Cons x xs)
  have "length (concat (map f ys)) = n + length (concat (map f xs))" using Cons.prems assms(1) [of x] by (metis concat.simps(2) length_append list.map(2))
  then obtain y ys' where ys: "ys = y # ys'" using assms(2) by (cases ys) auto
  then show ?case using Cons assms(1,3) by (auto simp: append_eq_append_conv inj_eq)
qed

text \<open>Formatting writes every byte with the same number of characters, and is unambiguous: two
  byte sequences formatted alike with one radix and width are the same.\<close>

lemma bytes_format_unambiguous:
  assumes "format_bytes bytes radix width = Ok s"
  shows "length s = length bytes * nat (if width = 0 then the (minimum_width radix) else width) \<and>
    (format_bytes bytes' radix width = Ok s \<longrightarrow> bytes' = bytes)"
proof -
  obtain least w where w: "minimum_width radix = Some least" "w = (if width = 0 then least else width)" "least \<le> w"
    "s = concat (map (\<lambda>b. zero_padded (nat w) (show_radix (nat radix) (unat b))) bytes)"
    using assms by (auto simp: format_bytes_ok)
  let ?f = "\<lambda>b :: u8. zero_padded (nat w) (show_radix (nat radix) (unat b))"
  note c = format_chunk [OF w(1,3)]
  have "0 < least" using w(1) by (auto simp: minimum_width_def split: if_splits)
  moreover have "inj ?f" by (rule injI) (metis c(2) word_unat_eq_iff)
  moreover have "length (concat (map ?f bs)) = length bs * nat w" for bs by (induction bs) (simp_all add: c(1))
  moreover have "s = concat (map ?f bytes')" if "format_bytes bytes' radix width = Ok s" using that w(1,2) by (auto simp: format_bytes_ok)
  ultimately show ?thesis using concat_chunks_inj [of ?f "nat w" bytes' bytes] c(1) w by auto
qed

lemma bytes_format_unambiguous_example:
  "format_bytes [255, 7] 16 0 = Ok ''ff07'' \<and> length ''ff07'' = length [255, 7 :: u8] * 2 \<and> {bytes. format_bytes bytes 16 0 = Ok ''ff07''} = {[255, 7]}"
proof -
  have f: "format_bytes [255, 7] 16 0 = Ok ''ff07''"
    by (simp add: format_bytes_def minimum_width_def zero_padded_def show_radix.simps radix_digit_def usize_max_def char_of_def bit_0)
  have "bytes = [255, 7]" if "format_bytes bytes 16 0 = Ok ''ff07''" for bytes
    using bytes_format_unambiguous [OF f, of bytes] that by blast
  then have "{bytes. format_bytes bytes 16 0 = Ok ''ff07''} = {[255, 7]}" using f by blast
  then show ?thesis using f by simp
qed

end
