(* ===== verification/Bytes_Cursor.thy ===== *)
theory Bytes_Cursor
  imports Bytes_Abi Bytes_Laws
begin

text \<open>
  Sequential cursors over a private copy of a byte sequence (the cursor section of
  \<open>src/src/bytes.rs\<close>). A cursor object holds an \<open>i64\<close> identifier; the entry it names is in the table
  \<open>CURSORS\<close>, with the number of objects that name it. The destructor calls of the heap are in
  \<open>hp_log\<close>; taking the lock of the table (\<open>cursor_lock\<close>) first applies those that came in since.
\<close>

record cursor_entry =
  ce_bytes :: "u8 list"
  ce_position :: nat
  ce_names :: nat

type_synonym cursor_table = "int \<rightharpoonup> cursor_entry"

record cur_heap = err_heap +
  cu_table :: cursor_table
  cu_next :: int
  cu_type :: "type_id option"
  cu_drop :: u64
  cu_seen :: nat  \<comment> \<open>destructor calls already applied\<close>

subsection \<open>The table\<close>

definition next_cursor :: "int \<Rightarrow> int \<times> int" where
  "next_cursor next = (next, if next + 1 > i64_max then 1 else next + 1)"

definition new_entry :: "u8 list \<Rightarrow> cursor_entry" where
  "new_entry bytes = \<lparr> ce_bytes = bytes, ce_position = 0, ce_names = 1 \<rparr>"

definition release_cursor :: "int \<Rightarrow> cursor_table \<Rightarrow> cursor_table" where
  "release_cursor ident table = (case table ident of
       None \<Rightarrow> table
     | Some entry \<Rightarrow>
         let entry' = entry\<lparr>ce_names := ce_names entry - 1\<rparr> in
         if ce_names entry' = 0 then table(ident := None) else table(ident \<mapsto> entry'))"

text \<open>Copying an object; the second component is the identifier written to the copy.\<close>

definition copy_cursor :: "int \<Rightarrow> cursor_table \<Rightarrow> int \<times> cursor_table" where
  "copy_cursor ident table = (case table ident of
       Some entry \<Rightarrow> (ident, table(ident \<mapsto> entry\<lparr>ce_names := ce_names entry + 1\<rparr>))
     | None \<Rightarrow> (0, table))"

definition drop_cursor :: "(u64 \<Rightarrow> u8 list) \<Rightarrow> u64 \<Rightarrow> cursor_table \<Rightarrow> cursor_table option" where
  "drop_cursor mem data table =
     (if data = 0 then Some table else map_option (\<lambda>ident. release_cursor ident table) (load_i64 (mem data)))"

definition cursor_lock :: "'z cur_heap_scheme \<Rightarrow> (cursor_table \<times> 'z cur_heap_scheme) option" where
  "cursor_lock h = do {
     table \<leftarrow> fold_opt (\<lambda>(func, data) table. if func = cu_drop h then drop_cursor (hp_mem h) data table else Some table)
       (rev (take (length (hp_log h) - cu_seen h) (hp_log h))) (cu_table h);
     Some (table, h\<lparr>cu_table := table, cu_seen := length (hp_log h)\<rparr>)
   }"

subsection \<open>An entry\<close>

definition cursor_range :: "cursor_entry \<Rightarrow> nat \<Rightarrow> (nat \<times> nat) rresult" where
  "cursor_range entry width =
     (let stop = ce_position entry + width in
      if stop > usize_max then Err ''cursor position is too large''
      else if stop > length (ce_bytes entry) then Err ''not enough bytes remaining''
      else Ok (ce_position entry, stop))"

definition cursor_width :: "int \<Rightarrow> nat rresult" where
  "cursor_width width =
     (if width < 0 then Err ''width must be positive''
      else if \<not> (1 \<le> width \<and> width \<le> 8) then Err ''integer width must be between 1 and 8 bytes''
      else Ok (nat width))"

definition cursor_chunk :: "cursor_entry \<Rightarrow> nat \<Rightarrow> nat \<Rightarrow> u8 list" where
  "cursor_chunk entry start stop = take (stop - start) (drop start (ce_bytes entry))"

definition cursor_read_uint :: "cursor_entry \<Rightarrow> int \<Rightarrow> bool \<Rightarrow> (int \<times> cursor_entry) rresult" where
  "cursor_read_uint entry width little_endian = (case cursor_width width of
       Inl e \<Rightarrow> Err e
     | Inr w \<Rightarrow> (case cursor_range entry w of
         Inl e \<Rightarrow> Err e
       | Inr (start, stop) \<Rightarrow>
           let v = gather little_endian w (cursor_chunk entry start stop) in
           if uint v \<le> i64_max then Ok (uint v, entry\<lparr>ce_position := stop\<rparr>)
           else Err ''decoded unsigned integer does not fit in int''))"

text \<open>Writing at the position, growing the buffer with zeros when it ends before.\<close>

definition cursor_put :: "cursor_entry \<Rightarrow> u8 list \<Rightarrow> cursor_entry rresult" where
  "cursor_put entry new =
     (let stop = ce_position entry + length new in
      if stop > usize_max then Err ''cursor position is too large''
      else
        let bytes = (if stop > length (ce_bytes entry) then resize_to stop 0 (ce_bytes entry) else ce_bytes entry)
        in Ok (entry\<lparr>ce_bytes := overwrite bytes (ce_position entry) new, ce_position := stop\<rparr>))"

definition cursor_write_uint :: "cursor_entry \<Rightarrow> int \<Rightarrow> int \<Rightarrow> bool \<Rightarrow> cursor_entry rresult" where
  "cursor_write_uint entry number width little_endian =
     (if number < 0 then Err ''unsigned integer value must not be negative''
      else case cursor_width width of
        Inl e \<Rightarrow> Err e
      | Inr w \<Rightarrow>
          if w < 8 \<and> number \<ge> 2 ^ (w * 8) then Err ''integer value does not fit requested width''
          else cursor_put entry (scatter little_endian w (word_of_int number)))"

definition cursor_read_bytes :: "cursor_entry \<Rightarrow> nat \<Rightarrow> (u8 list \<times> cursor_entry) rresult" where
  "cursor_read_bytes entry len = (case cursor_range entry len of
       Inl e \<Rightarrow> Err e
     | Inr (start, stop) \<Rightarrow> Ok (cursor_chunk entry start stop, entry\<lparr>ce_position := stop\<rparr>))"

definition cursor_read_float :: "cursor_entry \<Rightarrow> bool \<Rightarrow> (u64 \<times> cursor_entry) rresult" where
  "cursor_read_float entry little_endian = (case cursor_range entry 8 of
       Inl e \<Rightarrow> Err e
     | Inr (start, stop) \<Rightarrow>
         Ok (float_of_bytes little_endian (cursor_chunk entry start stop), entry\<lparr>ce_position := stop\<rparr>))"

definition cursor_write_float :: "cursor_entry \<Rightarrow> u64 \<Rightarrow> bool \<Rightarrow> cursor_entry rresult" where
  "cursor_write_float entry bits little_endian = cursor_put entry (float_bytes little_endian bits)"

subsection \<open>Cursor objects\<close>

text \<open>
  The lazily registered type. The copy callback of the type also counts the copy in the table,
  which \<open>copy_cursor\<close> has; the callback stored in the heap is its effect on the buffer.
\<close>

definition cursor_type :: "'z cur_heap_scheme \<Rightarrow> type_id \<times> 'z cur_heap_scheme" where
  "cursor_type h = (case cu_type h of
       Some t \<Rightarrow> (t, h)
     | None \<Rightarrow>
         let (t, h1) = register_object_type_with_copy ''BytesCursor'' 8 (Some (cu_drop h)) (Some (\<lambda>source. source)) h
         in (t, h1\<lparr>cu_type := Some t\<rparr>))"

definition cursor_object :: "int \<Rightarrow> 'z cur_heap_scheme \<Rightarrow> (nat \<times> 'z cur_heap_scheme) option" where
  "cursor_object ident h =
     (let (t, h1) = cursor_type h; (ptr, h2) = alloc_object t h1 in
      if ptr = 0 then Some (0, h2)
      else do {
        v \<leftarrow> deref ptr h2;
        let data = get_object_ptr (Some v);
        if data = 0 then do { (_, h3) \<leftarrow> mux_rc_dec ptr h2; Some (0, h3) }
        else Some (ptr, h2\<lparr>hp_mem := (hp_mem h2)(data := le_bytes 8 ident)\<rparr>)
      })"

definition cursor_value ::
  "hooks \<Rightarrow> int \<Rightarrow> 'z cur_heap_scheme \<Rightarrow> (mux_value rresult \<times> 'z cur_heap_scheme) option" where
  "cursor_value H ident h = do {
     (ptr, h1) \<leftarrow> cursor_object ident h;
     if ptr = 0 then Some (Err ''could not allocate bytes cursor'', h1)
     else do {
       v \<leftarrow> deref ptr h1;
       let (v', h2) = clone_value H v h1;
       (_, h3) \<leftarrow> mux_rc_dec ptr h2;
       Some (Ok v', h3)
     }
   }"

definition cursor_id :: "nat \<Rightarrow> 'z cur_heap_scheme \<Rightarrow> (int rresult \<times> 'z cur_heap_scheme) option" where
  "cursor_id p h =
     (if p = 0 then Some (Err ''cursor is null'', h)
      else do {
        v \<leftarrow> deref p h;
        let (t, h1) = cursor_type h;
        if get_object_type_id (Some v) \<noteq> t then Some (Err ''expected bytes cursor'', h1)
        else
          let data = get_object_ptr (Some v) in
          if data = 0 then Some (Err ''invalid bytes cursor'', h1)
          else do {
            ident \<leftarrow> load_i64 (hp_mem h1 data);
            Some (if ident \<le> 0 then Err ''invalid bytes cursor'' else Ok ident, h1)
          }
      })"

subsection \<open>Entry points\<close>

definition mux_bytes_cursor_new :: "hooks \<Rightarrow> nat \<Rightarrow> 'z cur_heap_scheme \<Rightarrow> (nat \<times> 'z cur_heap_scheme) option" where
  "mux_bytes_cursor_new H p h = do {
     bytes \<leftarrow> bytes_ref p h;
     case bytes of
       None \<Rightarrow> bytes_result_err H ''expected bytes'' h
     | Some bytes \<Rightarrow> do {
         let (ident, next) = next_cursor (cu_next h);
         (table, h1) \<leftarrow> cursor_lock (h\<lparr>cu_next := next\<rparr>);
         (r, h2) \<leftarrow> cursor_value H ident (h1\<lparr>cu_table := table(ident \<mapsto> new_entry bytes)\<rparr>);
         case r of
           Inr v \<Rightarrow> Some (bytes_ok v h2)
         | Inl message \<Rightarrow> do {
             (table, h3) \<leftarrow> cursor_lock h2;
             bytes_result_err H message (h3\<lparr>cu_table := release_cursor ident table\<rparr>)
           }
       }
   }"

text \<open>An operation on the entry of a cursor.\<close>

definition on_cursor ::
  "hooks \<Rightarrow> (cursor_entry \<Rightarrow> (mux_value \<times> cursor_entry) rresult) \<Rightarrow> nat \<Rightarrow> 'z cur_heap_scheme \<Rightarrow>
     (nat \<times> 'z cur_heap_scheme) option" where
  "on_cursor H f p h = do {
     (ident, h1) \<leftarrow> cursor_id p h;
     case ident of
       Inl message \<Rightarrow> bytes_result_err H message h1
     | Inr ident \<Rightarrow> do {
         (table, h2) \<leftarrow> cursor_lock h1;
         case table ident of
           None \<Rightarrow> bytes_result_err H ''invalid bytes cursor'' h2
         | Some entry \<Rightarrow> (case f entry of
             Inl message \<Rightarrow> bytes_result_err H message h2
           | Inr (v, entry') \<Rightarrow> Some (bytes_ok v (h2\<lparr>cu_table := table(ident \<mapsto> entry')\<rparr>)))
       }
   }"

definition mux_bytes_cursor_position :: "hooks \<Rightarrow> nat \<Rightarrow> 'z cur_heap_scheme \<Rightarrow> (nat \<times> 'z cur_heap_scheme) option" where
  "mux_bytes_cursor_position H = on_cursor H (\<lambda>entry. Ok (VInt (int (ce_position entry)), entry))"

definition mux_bytes_cursor_remaining :: "hooks \<Rightarrow> nat \<Rightarrow> 'z cur_heap_scheme \<Rightarrow> (nat \<times> 'z cur_heap_scheme) option" where
  "mux_bytes_cursor_remaining H =
     on_cursor H (\<lambda>entry. Ok (VInt (int (length (ce_bytes entry) - ce_position entry)), entry))"

definition mux_bytes_cursor_read_bytes ::
  "hooks \<Rightarrow> nat \<Rightarrow> int \<Rightarrow> 'z cur_heap_scheme \<Rightarrow> (nat \<times> 'z cur_heap_scheme) option" where
  "mux_bytes_cursor_read_bytes H p len h =
     (if len < 0 then bytes_result_err H ''length must not be negative'' h
      else on_cursor H (\<lambda>entry. map_sum id (map_prod VBytes id) (cursor_read_bytes entry (nat len))) p h)"

definition mux_bytes_cursor_read_uint ::
  "hooks \<Rightarrow> nat \<Rightarrow> int \<Rightarrow> bool \<Rightarrow> 'z cur_heap_scheme \<Rightarrow> (nat \<times> 'z cur_heap_scheme) option" where
  "mux_bytes_cursor_read_uint H p width little_endian =
     on_cursor H (\<lambda>entry. map_sum id (map_prod VInt id) (cursor_read_uint entry width little_endian)) p"

definition mux_bytes_cursor_write_uint ::
  "hooks \<Rightarrow> nat \<Rightarrow> int \<Rightarrow> int \<Rightarrow> bool \<Rightarrow> 'z cur_heap_scheme \<Rightarrow> (nat \<times> 'z cur_heap_scheme) option" where
  "mux_bytes_cursor_write_uint H p number width little_endian =
     on_cursor H (\<lambda>entry. map_sum id (Pair VUnit) (cursor_write_uint entry number width little_endian)) p"

definition mux_bytes_cursor_read_float ::
  "hooks \<Rightarrow> nat \<Rightarrow> bool \<Rightarrow> 'z cur_heap_scheme \<Rightarrow> (nat \<times> 'z cur_heap_scheme) option" where
  "mux_bytes_cursor_read_float H p little_endian =
     on_cursor H (\<lambda>entry. map_sum id (map_prod VFloat id) (cursor_read_float entry little_endian)) p"

definition mux_bytes_cursor_write_float ::
  "hooks \<Rightarrow> nat \<Rightarrow> nat \<Rightarrow> bool \<Rightarrow> 'z cur_heap_scheme \<Rightarrow> (nat \<times> 'z cur_heap_scheme) option" where
  "mux_bytes_cursor_write_float H p number little_endian h = do {
     f \<leftarrow> read_or None (\<lambda>v. case v of VFloat f \<Rightarrow> Some f | _ \<Rightarrow> None) number h;
     case f of
       None \<Rightarrow> bytes_result_err H ''expected float'' h
     | Some f \<Rightarrow> on_cursor H (\<lambda>entry. map_sum id (Pair VUnit) (cursor_write_float entry f little_endian)) p h
   }"

definition mux_bytes_cursor_into_bytes :: "hooks \<Rightarrow> nat \<Rightarrow> 'z cur_heap_scheme \<Rightarrow> (nat \<times> 'z cur_heap_scheme) option" where
  "mux_bytes_cursor_into_bytes H = on_cursor H (\<lambda>entry. Ok (VBytes (ce_bytes entry), entry))"

end
