(* ===== verification/Cursor_Properties.thy ===== *)
theory Cursor_Properties
  imports Bytes_Cursor
begin

text \<open>Properties of byte cursors (\<open>src/src/bytes.rs\<close>).\<close>

subsection \<open>The table and the objects that name its entries\<close>





lemma cursor_range_ok:
  "cursor_range e w = Ok r \<longleftrightarrow> ce_position e + w \<le> min usize_max (length (ce_bytes e)) \<and> r = (ce_position e, ce_position e + w)"
  by (auto simp: cursor_range_def Let_def)

lemma cursor_put_ok:
  "cursor_put e new = Ok e' \<longleftrightarrow> ce_position e + length new \<le> usize_max \<and>
     e' = e\<lparr>ce_bytes := overwrite (if ce_position e + length new > length (ce_bytes e)
         then resize_to (ce_position e + length new) 0 (ce_bytes e) else ce_bytes e) (ce_position e) new,
       ce_position := ce_position e + length new\<rparr>"
  by (auto simp: cursor_put_def Let_def)

lemma cursor_put_bytes:
  assumes "cursor_put e new = Ok e'" "ce_position e \<le> length (ce_bytes e)"
  shows "ce_bytes e' = take (ce_position e) (ce_bytes e) @ new @ drop (ce_position e + length new) (ce_bytes e)"
    "ce_position e' = ce_position e + length new" "ce_names e' = ce_names e" "ce_position e' \<le> length (ce_bytes e')"
  using assms by (auto simp: cursor_put_ok overwrite_def resize_to_def)








subsection \<open>Sequences of numbers\<close>

fun write_all :: "cursor_entry \<Rightarrow> (int \<times> int \<times> bool) list \<Rightarrow> cursor_entry rresult" where
  "write_all e [] = Ok e"
| "write_all e ((number, width, le) # items) = (case cursor_write_uint e number width le of
     Inl m \<Rightarrow> Err m | Inr e' \<Rightarrow> write_all e' items)"

fun read_all :: "cursor_entry \<Rightarrow> (int \<times> bool) list \<Rightarrow> int list rresult" where
  "read_all e [] = Ok []"
| "read_all e ((width, le) # formats) = (case cursor_read_uint e width le of
     Inl m \<Rightarrow> Err m | Inr (n, e') \<Rightarrow> map_sum id (Cons n) (read_all e' formats))"

lemma cursor_write_uint_ok:
  "cursor_write_uint e number width le = Ok e' \<longleftrightarrow> 0 \<le> number \<and> 1 \<le> width \<and> width \<le> 8 \<and>
     (width < 8 \<longrightarrow> number < 2 ^ (nat width * 8)) \<and> cursor_put e (scatter le (nat width) (word_of_int number)) = Ok e'"
proof -
  have "width < 8 \<longleftrightarrow> nat width < 8" by linarith
  then show ?thesis by (auto simp: cursor_write_uint_def cursor_width_def not_le)
qed

lemma cursor_read_back:
  assumes "0 \<le> number" "number \<le> i64_max" "1 \<le> width" "width \<le> 8" "width < 8 \<longrightarrow> number < 2 ^ (nat width * 8)"
    "take (nat width) (drop (ce_position e) (ce_bytes e)) = scatter le (nat width) (word_of_int number)"
    "ce_position e + nat width \<le> min usize_max (length (ce_bytes e))"
  shows "cursor_read_uint e width le = Ok (number, e\<lparr>ce_position := ce_position e + nat width\<rparr>)"
proof -
  have u: "uint (word_of_int number :: u64) = number" using assms(1,2) by (simp add: uint_word_of_int i64_max_def)
  have "width = 8 \<or> width < 8" using assms(4) by linarith
  then have "uint (word_of_int number :: u64) < 2 ^ (nat width * 8)" using assms(2,5) u by (auto simp: i64_max_def)
  from gather_scatter [OF this, of le] show ?thesis
    using assms u by (simp add: cursor_read_uint_def cursor_width_def cursor_range_ok [THEN iffD2] cursor_chunk_def Let_def)
qed

lemma write_all_appends:
  "write_all e items = Ok e' \<Longrightarrow> ce_position e = length (ce_bytes e) \<Longrightarrow> \<forall>(number, _) \<in> set items. number \<le> i64_max \<Longrightarrow>
    \<exists>tail. ce_bytes e' = ce_bytes e @ tail \<and> length (ce_bytes e') \<le> max usize_max (length (ce_bytes e)) \<and>
      (\<forall>r. ce_bytes r = ce_bytes e' \<and> ce_position r = length (ce_bytes e) \<longrightarrow> read_all r (map snd items) = Ok (map fst items))"
proof (induction e items arbitrary: e' rule: write_all.induct)
  case (1 e)
  then show ?case by auto
next
  case (2 e number width le items)
  let ?new = "scatter le (nat width) (word_of_int number)"
  obtain e1 where w: "cursor_write_uint e number width le = Ok e1" "write_all e1 items = Ok e'"
    using "2.prems"(1) by (auto split: sum.splits)
  note wu = w(1) [unfolded cursor_write_uint_ok]
  have p: "ce_bytes e1 = ce_bytes e @ ?new" "ce_position e1 = length (ce_bytes e1)" "length (ce_bytes e1) \<le> usize_max"
    using cursor_put_bytes [of e ?new e1] wu "2.prems"(2) by (simp_all add: cursor_put_ok)
  obtain tail where t: "ce_bytes e' = ce_bytes e1 @ tail" "length (ce_bytes e') \<le> max usize_max (length (ce_bytes e1))"
    "\<And>r. ce_bytes r = ce_bytes e' \<Longrightarrow> ce_position r = length (ce_bytes e1) \<Longrightarrow> read_all r (map snd items) = Ok (map fst items)"
    using "2.IH" [OF w p(2)] "2.prems"(3) by auto
  have "read_all r (map snd ((number, width, le) # items)) = Ok (map fst ((number, width, le) # items))"
    if r: "ce_bytes r = ce_bytes e'" "ce_position r = length (ce_bytes e)" for r
  proof -
    have "cursor_read_uint r width le = Ok (number, r\<lparr>ce_position := ce_position r + nat width\<rparr>)"
      by (rule cursor_read_back) (use wu r t p "2.prems"(3) in auto)
    moreover have "read_all (r\<lparr>ce_position := ce_position r + nat width\<rparr>) (map snd items) = Ok (map fst items)"
      by (rule t(3)) (use r p in auto)
    ultimately show ?thesis by simp
  qed
  then show ?case using t(1,2) p by auto
qed

text \<open>C24. A sequence of unsigned integers of mixed widths and byte orders, written one after the other
  through a fresh cursor, reads back in the same formats through a cursor over the bytes.\<close>

theorem cursor_sequence_round_trip:
  assumes "write_all (new_entry []) items = Ok e" "\<forall>(number, _) \<in> set items. number \<le> i64_max"
  shows "read_all (new_entry (ce_bytes e)) (map snd items) = Ok (map fst items)"
  using write_all_appends [OF assms(1) _ assms(2)] by (auto simp: new_entry_def)

theorem cursor_sequence_round_trip_witness:
  "read_all (new_entry [2, 188, 9, 1, 0]) [(2, False), (1, True), (2, True)] = Ok [700, 9, 1]"
proof -
  have "write_all (new_entry []) [(700, 2, False), (9, 1, True), (1, 2, True)] =
      Ok \<lparr> ce_bytes = [2, 188, 9, 1, 0], ce_position = 5, ce_names = 1 \<rparr>"
    by (simp add: new_entry_def cursor_write_uint_def cursor_width_def cursor_put_def Let_def usize_max_def overwrite_def
        resize_to_def scatter_def byte_shift_def upt_rec)
  from cursor_sequence_round_trip [OF this] show ?thesis by (simp add: i64_max_def)
qed

text \<open>A read takes the next bytes and advances the cursor by as many, and leaves the buffer as it
  is; so a cursor turned into bytes still has the part already read.\<close>

lemma cursor_reads_keep_buffer:
  "(cursor_read_uint e width le = Ok (n, e') \<longrightarrow> ce_bytes e' = ce_bytes e \<and> ce_position e' = ce_position e + nat width) \<and>
   (cursor_read_bytes e len = Ok (bs, e') \<longrightarrow> ce_bytes e' = ce_bytes e \<and> ce_position e' = ce_position e + len \<and>
      bs = take len (drop (ce_position e) (ce_bytes e)) \<and> length bs = len) \<and>
   (cursor_read_float e le = Ok (bits, e') \<longrightarrow> ce_bytes e' = ce_bytes e \<and> ce_position e' = ce_position e + 8)"
  by (auto simp: cursor_read_uint_def cursor_read_bytes_def cursor_read_float_def cursor_range_ok cursor_width_def cursor_chunk_def
      Let_def split: sum.splits if_splits)

lemma cursor_reads_keep_buffer_example:
  "cursor_read_bytes (new_entry [1, 2, 3]) 2 = Ok ([1, 2], (new_entry [1, 2, 3])\<lparr>ce_position := 2\<rparr>) \<and>
     ce_bytes ((new_entry [1, 2, 3])\<lparr>ce_position := 2\<rparr>) = [1, 2, 3]"
proof -
  have "cursor_read_bytes (new_entry [1, 2, 3]) 2 = Ok ([1, 2], (new_entry [1, 2, 3])\<lparr>ce_position := 2\<rparr>)"
    by (simp add: cursor_read_bytes_def cursor_range_def cursor_chunk_def new_entry_def Let_def usize_max_def)
  then show ?thesis
    using cursor_reads_keep_buffer [of "new_entry [1, 2, 3]" 0 False 0 "(new_entry [1, 2, 3])\<lparr>ce_position := 2\<rparr>" 2 "[1, 2]" 0]
    by (simp add: new_entry_def)
qed

end
