(* ===== verification/Environment.thy ===== *)
theory Environment
  imports Error_Families Utf8 Value_Order
begin

text \<open>
  The process environment (\<open>mux_env_get\<close> and its neighbours in \<open>src/src/std.rs\<close>). The environment of
  the process is a list of pairs of octet strings, as the system keeps it; a C string argument
  is its octets, \<^term>\<open>None\<close> for null. Each entry point is its answer, a value or the category, text
  and key of an error, boxed by \<open>env_return\<close>.
\<close>

type_synonym environ = "(u8 list \<times> u8 list) list"
type_synonym env_answer = "(std_error_kind \<times> string \<times> string) + mux_value"

subsection \<open>The system's side\<close>

definition os_var :: "u8 list \<Rightarrow> environ \<Rightarrow> u8 list option" where
  "os_var key env = map_of env key"

fun os_set_var :: "u8 list \<Rightarrow> u8 list \<Rightarrow> environ \<Rightarrow> environ" where
  "os_set_var key v [] = [(key, v)]"
| "os_set_var key v ((k, w) # env) = (if k = key then (k, v) # env else (k, w) # os_set_var key v env)"

definition os_remove_var :: "u8 list \<Rightarrow> environ \<Rightarrow> environ" where
  "os_remove_var key env = filter (\<lambda>(k, _). k \<noteq> key) env"

subsection \<open>Answers\<close>

definition validate_env_key :: "string \<Rightarrow> unit rresult" where
  "validate_env_key key =
     (if key = [] then Err ''environment variable name cannot be empty''
      else if CHR ''='' \<in> set key then Err (''environment variable name cannot contain '' @ [CHR 0x27, CHR ''='', CHR 0x27])
      else Ok ())"

text \<open>The checks on a key that every entry point begins with.\<close>

definition valid_key :: "u8 list \<Rightarrow> (std_error_kind \<times> string \<times> string) + string" where
  "valid_key key = (case from_utf8 key of
       None \<Rightarrow> Inl (StdNotUnicode, ''environment variable name is not valid UTF-8'', [])
     | Some key \<Rightarrow> (case validate_env_key key of Inl e \<Rightarrow> Inl (StdInvalid, e, key) | Inr _ \<Rightarrow> Inr key))"

definition not_unicode :: "string \<Rightarrow> env_answer" where
  "not_unicode key = Inl (StdNotUnicode, ''environment variable value is not valid UTF-8'', key)"

definition env_lookup ::
  "(string option \<Rightarrow> mux_value) \<Rightarrow> u8 list option \<Rightarrow> environ \<Rightarrow> env_answer" where
  "env_lookup out key env = (case key of
       None \<Rightarrow> Inl (StdInvalid, ''environment key must not be null'', [])
     | Some key \<Rightarrow> (case valid_key key of
         Inl e \<Rightarrow> Inl e
       | Inr name \<Rightarrow> (case os_var key env of
           None \<Rightarrow> Inr (out None)
         | Some v \<Rightarrow> (case from_utf8 v of None \<Rightarrow> not_unicode name | Some text \<Rightarrow> Inr (out (Some text))))))"

definition env_get :: "u8 list option \<Rightarrow> environ \<Rightarrow> env_answer" where
  "env_get = env_lookup (\<lambda>text. VOptional (map_option VString text))"

definition env_contains :: "u8 list option \<Rightarrow> environ \<Rightarrow> env_answer" where
  "env_contains = env_lookup (\<lambda>text. VBool (text \<noteq> None))"

definition env_set :: "u8 list option \<Rightarrow> u8 list option \<Rightarrow> environ \<Rightarrow> env_answer \<times> environ" where
  "env_set key v env = (case (key, v) of
       (Some key, Some v) \<Rightarrow>
         (case from_utf8 key of
            None \<Rightarrow> (Inl (StdNotUnicode, ''environment variable name is not valid UTF-8'', []), env)
          | Some name \<Rightarrow>
              if from_utf8 v = None then (not_unicode [], env)
              else (case validate_env_key name of
                  Inl e \<Rightarrow> (Inl (StdInvalid, e, name), env)
                | Inr _ \<Rightarrow> (Inr VUnit, os_set_var key v env)))
     | _ \<Rightarrow> (Inl (StdInvalid, ''environment key and value must not be null'', []), env))"

definition env_remove :: "u8 list option \<Rightarrow> environ \<Rightarrow> env_answer \<times> environ" where
  "env_remove key env = (case key of
       None \<Rightarrow> (Inl (StdInvalid, ''environment key must not be null'', []), env)
     | Some key \<Rightarrow> (case valid_key key of
         Inl e \<Rightarrow> (Inl e, env)
       | Inr _ \<Rightarrow> (Inr VUnit, os_remove_var key env)))"

fun env_texts :: "environ \<Rightarrow> (string + (u8 list \<times> u8 list) list)" where
  "env_texts [] = Inr []"
| "env_texts ((key, v) # env) =
     (if \<not> utf8_valid key then Inl ''environment variable name is not valid UTF-8''
      else if \<not> utf8_valid v then Inl ''environment variable value is not valid UTF-8''
      else map_sum id (Cons (key, v)) (env_texts env))"

definition env_entries :: "environ \<Rightarrow> env_answer" where
  "env_entries env = (case env_texts env of
       Inl e \<Rightarrow> Inl (StdNotUnicode, e, [])
     | Inr entries \<Rightarrow> Inr (VList (map (\<lambda>(key, v). VTuple (VString (text_of_bytes key)) (VString (text_of_bytes v)))
         (sort_by (\<lambda>left right. bytes_cmp (fst left) (fst right)) entries))))"

subsection \<open>Entry points\<close>

definition env_return ::
  "hooks \<Rightarrow> env_answer \<Rightarrow> 'z err_heap_scheme \<Rightarrow> (nat \<times> 'z err_heap_scheme) option" where
  "env_return H r h = (case r of
       Inr v \<Rightarrow> Some (env_result_ok v h)
     | Inl (kind, message, key) \<Rightarrow> env_result_err_kind_for_key H kind message key h)"

definition mux_env_get ::
  "hooks \<Rightarrow> u8 list option \<Rightarrow> environ \<Rightarrow> 'z err_heap_scheme \<Rightarrow> (nat \<times> 'z err_heap_scheme) option" where
  "mux_env_get H key env = env_return H (env_get key env)"

definition mux_env_contains ::
  "hooks \<Rightarrow> u8 list option \<Rightarrow> environ \<Rightarrow> 'z err_heap_scheme \<Rightarrow> (nat \<times> 'z err_heap_scheme) option" where
  "mux_env_contains H key env = env_return H (env_contains key env)"

definition mux_env_entries ::
  "hooks \<Rightarrow> environ \<Rightarrow> 'z err_heap_scheme \<Rightarrow> (nat \<times> 'z err_heap_scheme) option" where
  "mux_env_entries H env = env_return H (env_entries env)"

definition mux_env_set ::
  "hooks \<Rightarrow> u8 list option \<Rightarrow> u8 list option \<Rightarrow> environ \<Rightarrow> 'z err_heap_scheme \<Rightarrow>
     ((nat \<times> 'z err_heap_scheme) option) \<times> environ" where
  "mux_env_set H key v env h = (let (r, env') = env_set key v env in (env_return H r h, env'))"

definition mux_env_remove ::
  "hooks \<Rightarrow> u8 list option \<Rightarrow> environ \<Rightarrow> 'z err_heap_scheme \<Rightarrow> ((nat \<times> 'z err_heap_scheme) option) \<times> environ" where
  "mux_env_remove H key env h = (let (r, env') = env_remove key env in (env_return H r h, env'))"

subsection \<open>Laws\<close>

lemma map_of_set_var: "map_of (os_set_var key v env) = (map_of env)(key \<mapsto> v)"
  by (induction env) (auto simp: fun_eq_iff)

lemma map_of_remove_var: "map_of (os_remove_var key env) = (map_of env)(key := None)"
  unfolding os_remove_var_def by (induction env) (auto simp: fun_eq_iff)

lemma valid_key_iff: "valid_key key = Inr name \<longleftrightarrow> utf8_valid key \<and> name = text_of_bytes key \<and> name \<noteq> [] \<and> CHR ''='' \<notin> set name"
  by (auto simp: valid_key_def from_utf8_def validate_env_key_def)

lemma equals_byte: "CHR ''='' \<in> set (text_of_bytes key) \<longleftrightarrow> 61 \<in> set key"
proof -
  have "char_of (unat b) = CHR ''='' \<longleftrightarrow> b = 61" for b :: u8
  proof
    assume "char_of (unat b) = CHR ''=''"
    then show "b = 61" using byte_char [of b] by simp
  qed (simp add: char_of_def bit_0)
  then show ?thesis by (force simp: text_of_bytes_def)
qed

text \<open>C38. A variable that was set reads back with its value and every other variable stays; a
  variable that was removed is absent, and removing it again changes nothing. A key that is
  empty, contains an equals sign or is not UTF-8 changes nothing.\<close>

theorem environment_laws:
  "(env_set (Some key) (Some v) env = (Inr r, env') \<longrightarrow>
      env_get (Some key) env' = Inr (VOptional (Some (VString (text_of_bytes v)))) \<and>
      env_contains (Some key) env' = Inr (VBool True) \<and>
      (\<forall>k. k \<noteq> key \<longrightarrow> env_get (Some k) env' = env_get (Some k) env)) \<and>
   (env_remove (Some key) env = (Inr r, env') \<longrightarrow>
      env_get (Some key) env' = Inr (VOptional None) \<and> env_contains (Some key) env' = Inr (VBool False) \<and>
      env_remove (Some key) env' = (Inr r, env') \<and>
      (\<forall>k. k \<noteq> key \<longrightarrow> env_get (Some k) env' = env_get (Some k) env)) \<and>
   (key = [] \<or> 61 \<in> set key \<or> \<not> utf8_valid key \<longrightarrow>
      snd (env_set (Some key) w env) = env \<and> snd (env_remove (Some key) env) = env)"
proof -
  have other: "env_get (Some k) e1 = env_get (Some k) e2" if "map_of e1 k = map_of e2 k" for k e1 e2
    unfolding env_get_def env_lookup_def os_var_def option.case that by (rule refl)
  have s: "valid_key key = Inr (text_of_bytes key) \<and> utf8_valid v \<and> env' = os_set_var key v env" if "env_set (Some key) (Some v) env = (Inr r, env')"
    using that by (auto simp: env_set_def valid_key_def not_unicode_def from_utf8_def split: option.splits sum.splits if_splits)
  have m: "valid_key key = Inr (text_of_bytes key) \<and> r = VUnit \<and> env' = os_remove_var key env" if "env_remove (Some key) env = (Inr r, env')"
    using that by (auto simp: env_remove_def valid_key_iff split: sum.splits)
  have "env_get (Some key) env' = Inr (VOptional (Some (VString (text_of_bytes v)))) \<and> env_contains (Some key) env' = Inr (VBool True) \<and>
      (\<forall>k. k \<noteq> key \<longrightarrow> env_get (Some k) env' = env_get (Some k) env)" if "env_set (Some key) (Some v) env = (Inr r, env')"
    using s [OF that] other [of env' _ env] by (simp add: map_of_set_var) (simp add: env_get_def env_contains_def env_lookup_def os_var_def map_of_set_var from_utf8_def)
  moreover have "env_get (Some key) env' = Inr (VOptional None) \<and> env_contains (Some key) env' = Inr (VBool False) \<and>
      env_remove (Some key) env' = (Inr r, env') \<and> (\<forall>k. k \<noteq> key \<longrightarrow> env_get (Some k) env' = env_get (Some k) env)"
    if "env_remove (Some key) env = (Inr r, env')"
    using m [OF that] other [of env' _ env] by (simp add: map_of_remove_var)
      (simp add: env_get_def env_contains_def env_remove_def env_lookup_def os_var_def map_of_remove_var, simp add: os_remove_var_def)
  moreover have "snd (env_set (Some key) w env) = env \<and> snd (env_remove (Some key) env) = env"
    if k: "key = [] \<or> 61 \<in> set key \<or> \<not> utf8_valid key"
  proof -
    have "\<not> utf8_valid key \<or> validate_env_key (text_of_bytes key) \<noteq> Inr ()"
      using k equals_byte [of key] by (auto simp: validate_env_key_def text_of_bytes_def)
    then show ?thesis
      by (auto simp: env_set_def env_remove_def valid_key_def from_utf8_def split: option.splits sum.splits)
  qed
  ultimately show ?thesis by blast
qed

theorem environment_laws_witness:
  "env_get (Some [72]) [([80], [47]), ([72], [126])] = Inr (VOptional (Some (VString ''~'')))"
proof -
  have v: "utf8_valid [72]" "utf8_valid [126]" by (rule ascii_valid; simp)+
  have "validate_env_key (text_of_bytes [72]) = Inr ()" by (simp add: validate_env_key_def text_of_bytes_def char_of_def)
  then have "env_set (Some [72]) (Some [126]) [([80], [47])] = (Inr VUnit, [([80], [47]), ([72], [126])])"
    using v by (simp add: env_set_def from_utf8_def)
  then show ?thesis
    using environment_laws [of "[72]" "[126]" "[([80], [47])]" VUnit "[([80], [47]), ([72], [126])]" None]
    by (simp add: text_of_bytes_def char_of_def bit_0)
qed

text \<open>The listing of the environment has every entry once, sorted by key in byte order, and is
  refused exactly when some key or value is not UTF-8.\<close>

lemma env_texts_valid: "env_texts env = Inr entries \<longleftrightarrow> entries = env \<and> (\<forall>(key, v) \<in> set env. utf8_valid key \<and> utf8_valid v)"
proof (induction env arbitrary: entries rule: env_texts.induct)
  case (2 key v env)
  have m: "map_sum id (Cons (key, v)) r = Inr entries \<longleftrightarrow> (\<exists>es. r = Inr es \<and> entries = (key, v) # es)" for r :: "string + (u8 list \<times> u8 list) list"
    by (cases r) auto
  show ?case
  proof (cases "utf8_valid key \<and> utf8_valid v")
    case True
    then show ?thesis using "2.IH" by (simp add: m) blast
  qed auto
qed auto

lemma environment_listing:
  "((\<forall>(key, v) \<in> set env. utf8_valid key \<and> utf8_valid v) \<longleftrightarrow> (\<exists>v. env_entries env = Inr v)) \<and>
   (\<forall>v. env_entries env = Inr v \<longrightarrow> (\<exists>entries.
      v = VList (map (\<lambda>(key, v). VTuple (VString (text_of_bytes key)) (VString (text_of_bytes v))) entries) \<and>
      mset entries = mset env \<and> sorted_wrt (\<lambda>a b. bytes_cmp (fst a) (fst b) \<noteq> Greater) entries))"
proof -
  let ?c = "\<lambda>a b :: u8 list \<times> u8 list. bytes_cmp (fst a) (fst b)"
  have "cmp_on UNIV ?c" by (rule cmp_on_pullback [OF cmp_on_bytes, of fst]) simp_all
  then have s: "sorted_wrt (le_by ?c) (sort_by ?c env)" by (rule sorted_sort_by) simp
  have e: "env_entries env = Inr v \<longleftrightarrow> (\<forall>(key, v) \<in> set env. utf8_valid key \<and> utf8_valid v) \<and>
      v = VList (map (\<lambda>(key, v). VTuple (VString (text_of_bytes key)) (VString (text_of_bytes v))) (sort_by ?c env))" for v
  proof (cases "\<forall>(key, v) \<in> set env. utf8_valid key \<and> utf8_valid v")
    case True
    then have "env_texts env = Inr env" using env_texts_valid by blast
    then show ?thesis using True by (auto simp: env_entries_def)
  next
    case False
    then obtain e where "env_texts env = Inl e" using env_texts_valid [of env] by (cases "env_texts env") blast+
    then show ?thesis using False by (simp add: env_entries_def)
  qed
  show ?thesis unfolding e using s mset_sort_by [of ?c env]
    by (intro conjI allI impI) (simp, intro exI [of _ "sort_by ?c env"], simp)
qed

lemma environment_listing_example:
  "\<exists>entries. env_entries [([80], [47]), ([72], [126])] =
     Inr (VList (map (\<lambda>(key, v). VTuple (VString (text_of_bytes key)) (VString (text_of_bytes v))) entries)) \<and>
     mset entries = {# ([80], [47]), ([72], [126]) #}"
proof -
  have "utf8_valid [80]" "utf8_valid [47]" "utf8_valid [72]" "utf8_valid [126]" by (rule ascii_valid; simp)+
  then obtain v where "env_entries [([80], [47]), ([72], [126])] = Inr v"
    using environment_listing [of "[([80], [47]), ([72], [126])]"] by auto
  then show ?thesis using environment_listing [of "[([80], [47]), ([72], [126])]"] by auto
qed

end
