(* ===== verification/Unicode.thy ===== *)
theory Unicode
  imports Utf8
begin

text \<open>
  The characters of a text. A \<open>char\<close> of Rust is a Unicode scalar value, here a number; \<open>chars_of\<close> is
  \<open>str::chars\<close> on the octets of a text and \<open>encode_char\<close> is \<open>char::encode_utf8\<close>. The lemmas show that the
  two are inverse, that the octet order of texts is the order of their characters, and that a text
  occurs in another at the same places whether one looks at octets or at characters.
\<close>

definition is_scalar :: "nat \<Rightarrow> bool" where
  "is_scalar n \<longleftrightarrow> n < 0xD800 \<or> 0xE000 \<le> n \<and> n \<le> 0x10FFFF"

definition lead_bits :: "u8 \<Rightarrow> nat" where
  "lead_bits b = (if b < 0x80 then unat b else if b < 0xE0 then unat b mod 32
     else if b < 0xF0 then unat b mod 16 else unat b mod 8)"

definition code_point :: "u8 \<Rightarrow> u8 list \<Rightarrow> nat" where
  "code_point b ts = foldl (\<lambda>a t. a * 64 + unat t mod 64) (lead_bits b) ts"

function chars_of :: "u8 list \<Rightarrow> nat list" where
  "chars_of [] = []"
| "chars_of (b # cs) = (let n = utf8_tail b cs in code_point b (take n cs) # chars_of (drop n cs))"
  by pat_completeness auto
termination by (relation "measure length") auto

definition encode_char :: "nat \<Rightarrow> u8 list" where
  "encode_char n = map of_nat
     (if n < 0x80 then [n]
      else if n < 0x800 then [0xC0 + n div 64, 0x80 + n mod 64]
      else if n < 0x10000 then [0xE0 + n div 4096, 0x80 + n div 64 mod 64, 0x80 + n mod 64]
      else [0xF0 + n div 262144, 0x80 + n div 4096 mod 64, 0x80 + n div 64 mod 64, 0x80 + n mod 64])"

definition encode :: "nat list \<Rightarrow> u8 list" where
  "encode cs = concat (map encode_char cs)"

declare chars_of.simps(2) [simp del]

subsection \<open>Octets as numbers\<close>

lemma octet_nat: "n < 256 \<Longrightarrow> unat (of_nat n :: u8) = n"
  by (simp add: unat_of_nat)

lemma octet_less: "b < c \<longleftrightarrow> unat b < unat (c :: u8)"
  by (rule word_less_nat_alt)

lemma octet_between: "between lo hi b \<longleftrightarrow> unat lo \<le> unat b \<and> unat b \<le> unat hi"
  by (simp add: between_def word_le_nat_alt)

lemma octet_eq: "b = c \<longleftrightarrow> unat b = unat (c :: u8)"
  by (simp add: unsigned_word_eqI word_unat_eq_iff)

lemmas octet_simps = octet_less octet_between octet_nat

lemma width_nat: "utf8_width b = (let n = unat b in if n < 0x80 then 1 else if 0xC2 \<le> n \<and> n \<le> 0xDF then 2
    else if 0xE0 \<le> n \<and> n \<le> 0xEF then 3 else if 0xF0 \<le> n \<and> n \<le> 0xF4 then 4 else 0)"
  by (simp add: utf8_width_def octet_simps Let_def)

lemma lead_nat: "lead_bits b = (let n = unat b in if n < 0x80 then n else if n < 0xE0 then n mod 32
    else if n < 0xF0 then n mod 16 else n mod 8)"
  by (simp add: lead_bits_def octet_simps Let_def)

lemma second_nat: "second_ok b c = (let n = unat b; m = unat c in
    if n = 0xE0 then 0xA0 \<le> m \<and> m \<le> 0xBF else if n = 0xED then 0x80 \<le> m \<and> m \<le> 0x9F
    else if n = 0xF0 then 0x90 \<le> m \<and> m \<le> 0xBF else if n = 0xF4 then 0x80 \<le> m \<and> m \<le> 0x8F
    else 0x80 \<le> m \<and> m \<le> 0xBF)"
  by (simp add: second_ok_def octet_simps Let_def octet_eq [of b])

lemma scalar_bounds: "is_scalar n \<Longrightarrow> n < 0x110000"
  by (auto simp: is_scalar_def)

text \<open>The forms of a complete sequence.\<close>

lemma complete_cases:
  assumes "utf8_complete b cs"
  obtains "unat b < 0x80" "utf8_tail b cs = 0"
  | c ds where "cs = c # ds" "utf8_tail b cs = 1" "0xC2 \<le> unat b" "unat b \<le> 0xDF" "second_ok b c"
  | c d ds where "cs = c # d # ds" "utf8_tail b cs = 2" "0xE0 \<le> unat b" "unat b \<le> 0xEF" "second_ok b c" "between 0x80 0xBF d"
  | c d e ds where "cs = c # d # e # ds" "utf8_tail b cs = 3" "0xF0 \<le> unat b" "unat b \<le> 0xF4" "second_ok b c"
      "between 0x80 0xBF d" "between 0x80 0xBF e"
proof -
  have w: "utf8_width b = Suc (utf8_tail b cs)" using assms by (simp add: utf8_complete_def)
  then consider "unat b < 0x80" "utf8_width b = 1" | "0xC2 \<le> unat b" "unat b \<le> 0xDF" "utf8_width b = 2"
    | "0xE0 \<le> unat b" "unat b \<le> 0xEF" "utf8_width b = 3" | "0xF0 \<le> unat b" "unat b \<le> 0xF4" "utf8_width b = 4"
    unfolding width_nat Let_def by (auto split: if_splits)
  then show thesis
  proof cases
    case 1 then show ?thesis using w that(1) by simp
  next
    case 2
    then have t: "utf8_tail b cs = 1" using w by simp
    then show ?thesis using 2 that(2) by (auto simp: utf8_tail_def split: list.splits if_splits)
  next
    case 3
    then have t: "utf8_tail b cs = 2" using w by simp
    then obtain c cs' where c: "cs = c # cs'" "second_ok b c" "continued 1 cs' = 1"
      using 3 by (auto simp: utf8_tail_def split: list.splits if_splits)
    then obtain d ds where "cs' = d # ds" "between 0x80 0xBF d" by (cases cs') (auto split: if_splits)
    then show ?thesis using 3 t c that(3) by simp
  next
    case 4
    then have t: "utf8_tail b cs = 3" using w by simp
    then obtain c cs' where c: "cs = c # cs'" "second_ok b c" "continued 2 cs' = 2"
      using 4 by (auto simp: utf8_tail_def split: list.splits if_splits)
    then obtain d e ds where "cs' = d # e # ds" "between 0x80 0xBF d" "between 0x80 0xBF e"
      by (cases cs'; cases "tl cs'") (auto simp: numeral_2_eq_2 split: if_splits)
    then show ?thesis using 4 t c that(4) by simp
  qed
qed

subsection \<open>Decoding and encoding\<close>

lemma octet_of: "unat b = n \<Longrightarrow> of_nat n = (b :: u8)"
  by auto

lemma continuation_bits: "between 0x80 0xBF t \<Longrightarrow> \<exists>y < 64. unat t = 128 + y"
  unfolding octet_between by (intro exI [of _ "unat t - 128"]) auto

lemma second_continues: "second_ok b c \<Longrightarrow> between 0x80 0xBF c"
  unfolding second_nat octet_between Let_def by (auto split: if_splits)

lemma low_part: "y < m \<Longrightarrow> (k * m + y) mod m = (y :: nat)"
  by simp

lemma field_bits: "y < 64 \<Longrightarrow> (k * 64 + y) mod 64 = (y :: nat)" "y < 64 \<Longrightarrow> (128 + y) mod 64 = (y :: nat)"
    "x < 32 \<Longrightarrow> (192 + x) mod 32 = (x :: nat)" "x < 16 \<Longrightarrow> (224 + x) mod 16 = (x :: nat)" "x < 5 \<Longrightarrow> (240 + x) mod 8 = (x :: nat)"
  using low_part [of y 64 k] low_part [of y 64 2] low_part [of x 32 6] low_part [of x 16 14] low_part [of x 8 30] by simp_all

lemma encode_two: "y < 64 \<Longrightarrow> 2 \<le> x \<Longrightarrow> x < 32 \<Longrightarrow> encode_char (x * 64 + y) = [of_nat (192 + x), of_nat (128 + y)]"
  by (auto simp: encode_char_def)

lemma encode_three:
  assumes "z < 64" "y < 64" "x < 16" "x = 0 \<longrightarrow> 32 \<le> y"
  shows "encode_char ((x * 64 + y) * 64 + z) = [of_nat (224 + x), of_nat (128 + y), of_nat (128 + z)]"
proof -
  define n where "n = (x * 64 + y) * 64 + z"
  have "n div 64 = x * 64 + y" "n div 4096 = x" using assms by (simp_all add: n_def)
  moreover have "n mod 64 = z" unfolding n_def using assms(1) by (rule field_bits)
  moreover have "\<not> n < 0x800" "n < 0x10000" using assms by (cases "x = 0"; simp add: n_def)+
  ultimately show ?thesis using field_bits(1) [OF assms(2), of x]
    unfolding n_def [symmetric] encode_char_def by simp
qed

lemma encode_four:
  assumes "u < 64" "z < 64" "y < 64" "x < 5" "x = 0 \<longrightarrow> 16 \<le> y"
  shows "encode_char (((x * 64 + y) * 64 + z) * 64 + u) =
     [of_nat (240 + x), of_nat (128 + y), of_nat (128 + z), of_nat (128 + u)]"
proof -
  define n where "n = ((x * 64 + y) * 64 + z) * 64 + u"
  have d: "n div 64 = (x * 64 + y) * 64 + z" "n div 4096 = x * 64 + y" "n div 262144 = x"
    using assms(1-3) by (simp_all add: n_def)
  have m: "n mod 64 = u" "n div 64 mod 64 = z" "n div 4096 mod 64 = y"
    unfolding d unfolding n_def by (simp_all only: field_bits(1) assms)
  have "x = 0 \<or> 1 \<le> x" by linarith
  then have "0x10000 \<le> n" using assms(5) by (auto simp: n_def)
  then have "\<not> n < 0x80" "\<not> n < 0x800" "\<not> n < 0x10000" by simp_all
  then show ?thesis unfolding n_def [symmetric] encode_char_def by (simp only: m d(3) if_False list.map)
qed

lemma decode_sequence:
  assumes "utf8_complete b cs"
  defines "ts \<equiv> take (utf8_tail b cs) cs"
  shows "is_scalar (code_point b ts) \<and> encode_char (code_point b ts) = b # ts"
  using assms(1)
proof (cases rule: complete_cases)
  case 1
  then show ?thesis
    by (simp add: ts_def code_point_def lead_nat is_scalar_def encode_char_def)
next
  case (2 c ds)
  obtain y where y: "y < 64" "unat c = 128 + y" using continuation_bits [OF second_continues] 2 by blast
  obtain x where x: "unat b = 192 + x" "2 \<le> x" "x < 32" using 2 by (intro that [of "unat b - 192"]) auto
  have "code_point b ts = x * 64 + y" using 2 x y by (simp add: ts_def code_point_def lead_nat field_bits)
  then show ?thesis using 2 x y encode_two [of y x] octet_of [OF x(1)] octet_of [OF y(2)]
    by (simp add: ts_def is_scalar_def)
next
  case (3 c d ds)
  obtain y where y: "y < 64" "unat c = 128 + y" using continuation_bits [OF second_continues [OF 3(5)]] by blast
  obtain z where z: "z < 64" "unat d = 128 + z" using continuation_bits [OF 3(6)] by blast
  obtain x where x: "unat b = 224 + x" "x < 16" using 3 by (intro that [of "unat b - 224"]) auto
  have s: "x = 0 \<longrightarrow> 32 \<le> y" "x = 13 \<longrightarrow> y < 32" using 3(5) x y unfolding second_nat Let_def by (auto split: if_splits)
  have p: "code_point b ts = (x * 64 + y) * 64 + z" using 3 x y z by (simp add: ts_def code_point_def lead_nat field_bits)
  have "is_scalar ((x * 64 + y) * 64 + z)"
  proof -
    consider "x < 13" | "x = 13" | "13 < x" by linarith
    then show ?thesis
    proof cases
      case 2 then show ?thesis using s(2) z by (simp add: is_scalar_def)
    qed (use x(2) y(1) z(1) in \<open>simp_all add: is_scalar_def\<close>)
  qed
  moreover have "encode_char ((x * 64 + y) * 64 + z) = b # ts"
    unfolding encode_three [OF z(1) y(1) x(2) s(1)] octet_of [OF x(1)] octet_of [OF y(2)] octet_of [OF z(2)]
    using 3(1,2) by (simp add: ts_def)
  ultimately show ?thesis unfolding p ..
next
  case (4 c d e ds)
  obtain y where y: "y < 64" "unat c = 128 + y" using continuation_bits [OF second_continues [OF 4(5)]] by blast
  obtain z where z: "z < 64" "unat d = 128 + z" using continuation_bits [OF 4(6)] by blast
  obtain u where u: "u < 64" "unat e = 128 + u" using continuation_bits [OF 4(7)] by blast
  obtain x where x: "unat b = 240 + x" "x < 5" using 4 by (intro that [of "unat b - 240"]) auto
  have s: "x = 0 \<longrightarrow> 16 \<le> y" "x = 4 \<longrightarrow> y < 16" using 4(5) x y unfolding second_nat Let_def by (auto split: if_splits)
  have p: "code_point b ts = ((x * 64 + y) * 64 + z) * 64 + u"
    using 4 x y z u by (simp add: ts_def code_point_def lead_nat field_bits)
  have "is_scalar (((x * 64 + y) * 64 + z) * 64 + u)"
  proof -
    consider "x = 0" | "0 < x" "x < 4" | "x = 4" using x(2) by linarith
    then show ?thesis
    proof cases
      case 1
      then have "16 \<le> y" using s(1) by simp
      then show ?thesis using 1 y(1) z(1) u(1) by (simp add: is_scalar_def)
    next
      case 3
      then have "y < 16" using s(2) by simp
      then show ?thesis using 3 z(1) u(1) by (simp add: is_scalar_def)
    qed (use y(1) z(1) u(1) in \<open>simp add: is_scalar_def\<close>)
  qed
  moreover have "encode_char (((x * 64 + y) * 64 + z) * 64 + u) = b # ts"
    unfolding encode_four [OF u(1) z(1) y(1) x(2) s(1)] octet_of [OF x(1)] octet_of [OF y(2)] octet_of [OF z(2)] octet_of [OF u(2)]
    using 4(1,2) by (simp add: ts_def)
  ultimately show ?thesis unfolding p ..
qed

text \<open>An encoded character is one complete sequence, whatever follows it.\<close>

definition is_sequence :: "nat \<Rightarrow> u8 \<Rightarrow> u8 list \<Rightarrow> bool" where
  "is_sequence n b ts \<longleftrightarrow> code_point b ts = n \<and> utf8_width b = Suc (length ts) \<and>
     (case ts of [] \<Rightarrow> True | c # ds \<Rightarrow> second_ok b c \<and> (\<forall>d \<in> set ds. between 0x80 0xBF d))"

lemma continued_append: "(\<And>d. d \<in> set ds \<Longrightarrow> between 0x80 0xBF d) \<Longrightarrow> continued (length ds) (ds @ es) = length ds"
  by (induction ds) auto

lemma sequence_tail:
  assumes "is_sequence n b ts"
  shows "utf8_tail b (ts @ es) = length ts \<and> utf8_complete b (ts @ es)"
proof -
  have "utf8_tail b (ts @ es) = length ts"
  proof (cases ts)
    case Nil
    then have "utf8_width b = 1" using assms by (simp add: is_sequence_def)
    then show ?thesis using Nil by (simp add: utf8_tail_def split: list.split)
  next
    case (Cons c ds)
    then show ?thesis using assms continued_append [of ds es] by (simp add: is_sequence_def utf8_tail_def)
  qed
  then show ?thesis using assms by (simp add: utf8_complete_def is_sequence_def)
qed

lemmas sequence_simps = is_sequence_def width_nat second_nat octet_between octet_nat code_point_def lead_nat field_bits Let_def

lemma sequence_two:
  "y < 64 \<Longrightarrow> 2 \<le> x \<Longrightarrow> x < 32 \<Longrightarrow> is_sequence (x * 64 + y) (of_nat (192 + x)) [of_nat (128 + y)]"
  unfolding sequence_simps by (simp add: sequence_simps del: of_nat_add)

lemma sequence_three:
  "z < 64 \<Longrightarrow> y < 64 \<Longrightarrow> x < 16 \<Longrightarrow> x = 0 \<longrightarrow> 32 \<le> y \<Longrightarrow> x = 13 \<longrightarrow> y < 32 \<Longrightarrow>
     is_sequence ((x * 64 + y) * 64 + z) (of_nat (224 + x)) [of_nat (128 + y), of_nat (128 + z)]"
  by (auto simp: sequence_simps simp del: of_nat_add)

lemma sequence_four:
  "u < 64 \<Longrightarrow> z < 64 \<Longrightarrow> y < 64 \<Longrightarrow> x < 5 \<Longrightarrow> x = 0 \<longrightarrow> 16 \<le> y \<Longrightarrow> x = 4 \<longrightarrow> y < 16 \<Longrightarrow>
     is_sequence (((x * 64 + y) * 64 + z) * 64 + u) (of_nat (240 + x)) [of_nat (128 + y), of_nat (128 + z), of_nat (128 + u)]"
  by (auto simp: sequence_simps simp del: of_nat_add)

lemma encode_sequence:
  assumes "is_scalar n"
  obtains b ts where "encode_char n = b # ts" "is_sequence n b ts"
proof -
  define u z y where d: "u = n mod 64" "z = n div 64 mod 64" "y = n div 4096 mod 64"
  have l: "u < 64" "z < 64" "y < 64" by (simp_all add: d)
  consider "n < 0x80" | "0x80 \<le> n" "n < 0x800" | "0x800 \<le> n" "n < 0x10000" | "0x10000 \<le> n" "n < 0x110000"
    using scalar_bounds [OF assms] by linarith
  then show thesis
  proof cases
    case 1
    then have "is_sequence n (of_nat n) []" by (simp add: sequence_simps)
    then show ?thesis using 1 by (intro that [of "of_nat n" "[]"]) (simp_all add: encode_char_def)
  next
    case 2
    define x where "x = n div 64"
    have x: "n = x * 64 + u" "2 \<le> x" "x < 32" using 2 by (simp_all add: x_def d div_mult_mod_eq)
    show ?thesis
      by (rule that [OF encode_two [OF l(1) x(2,3), folded x(1)] sequence_two [OF l(1) x(2,3), folded x(1)]])
  next
    case 3
    define x where "x = n div 4096"
    have e: "n div 64 div 64 = x" by (simp add: x_def div_mult2_eq flip: div_mult2_eq)
    have "n = n div 64 * 64 + u" "n div 64 = x * 64 + z" using div_mult_mod_eq [of "n div 64" 64] e by (simp_all add: d)
    then have x: "n = (x * 64 + z) * 64 + u" by simp
    have b: "x < 16" "x = 0 \<longrightarrow> 32 \<le> z" "x = 13 \<longrightarrow> z < 32"
      using 3 l assms unfolding x is_scalar_def by (auto simp: is_scalar_def)
    show ?thesis
      by (rule that [OF encode_three [OF l(1,2) b(1,2), folded x] sequence_three [OF l(1,2) b, folded x]])
  next
    case 4
    define x where "x = n div 262144"
    have "n div 64 div 64 = n div 4096" "n div 4096 div 64 = x" by (simp_all add: x_def flip: div_mult2_eq)
    then have "n = n div 64 * 64 + u" "n div 64 = n div 4096 * 64 + z" "n div 4096 = x * 64 + y"
      using div_mult_mod_eq [of "n div 64" 64] div_mult_mod_eq [of "n div 4096" 64] by (simp_all add: d)
    then have x: "n = ((x * 64 + y) * 64 + z) * 64 + u" by simp
    have b: "x < 5" "x = 0 \<longrightarrow> 16 \<le> y" "x = 4 \<longrightarrow> y < 16" using 4 l unfolding x by auto
    show ?thesis
      by (rule that [OF encode_four [OF l b(1,2), folded x] sequence_four [OF l b, folded x]])
  qed
qed

lemma complete_sequence:
  assumes "utf8_complete b cs"
  defines "ts \<equiv> take (utf8_tail b cs) cs"
  shows "is_sequence (code_point b ts) b ts"
proof -
  have d: "is_scalar (code_point b ts)" "encode_char (code_point b ts) = b # ts"
    using decode_sequence [OF assms(1)] by (simp_all add: ts_def)
  show ?thesis by (rule encode_sequence [OF d(1)]) (use d(2) in simp)
qed

subsection \<open>Texts and their characters\<close>

lemma encode_simps [simp]: "encode [] = []" "encode (c # cs) = encode_char c @ encode cs" "encode (cs @ ds) = encode cs @ encode ds"
  by (simp_all add: encode_def)

lemma chars_sequence:
  assumes "is_sequence n b ts"
  shows "chars_of (b # ts @ es) = n # chars_of es" "utf8_valid (b # ts @ es) = utf8_valid es"
proof -
  have t: "utf8_tail b (ts @ es) = length ts" "utf8_complete b (ts @ es)" using sequence_tail [OF assms] by simp_all
  show "chars_of (b # ts @ es) = n # chars_of es" using assms t(1) by (simp add: chars_of.simps(2) is_sequence_def Let_def)
  show "utf8_valid (b # ts @ es) = utf8_valid es" using t by (simp add: utf8_valid.simps(2))
qed

lemma chars_encode:
  "(\<And>c. c \<in> set cs \<Longrightarrow> is_scalar c) \<Longrightarrow> chars_of (encode cs @ es) = cs @ chars_of es \<and> utf8_valid (encode cs @ es) = utf8_valid es"
proof (induction cs)
  case (Cons c cs)
  obtain b ts where "encode_char c = b # ts" "is_sequence c b ts" using encode_sequence Cons.prems by (metis list.set_intros(1))
  then show ?case using Cons chars_sequence [of c b ts "encode cs @ es"] by simp
qed simp

lemma encode_chars: "utf8_valid bs \<Longrightarrow> encode (chars_of bs) = bs \<and> (\<forall>c \<in> set (chars_of bs). is_scalar c)"
proof (induction bs rule: utf8_valid.induct)
  case (2 b cs)
  then have c: "utf8_complete b cs" "utf8_valid (drop (utf8_tail b cs) cs)" by (simp_all add: utf8_valid.simps(2))
  then show ?case using "2.IH" decode_sequence [OF c(1)] by (simp add: chars_of.simps(2) Let_def)
qed simp

lemma chars_append: "utf8_valid xs \<Longrightarrow> chars_of (xs @ ys) = chars_of xs @ chars_of ys"
  using chars_encode [of "chars_of xs" ys] encode_chars [of xs] by simp

lemma chars_inj: "utf8_valid xs \<Longrightarrow> utf8_valid ys \<Longrightarrow> chars_of xs = chars_of ys \<longleftrightarrow> xs = ys"
  by (metis encode_chars)

subsection \<open>Order\<close>

lemma octet_lt: "a < b \<Longrightarrow> b < 256 \<Longrightarrow> cmp_of (of_nat a :: u8) (of_nat b) = Less"
  by (simp add: cmp_of_def octet_less octet_nat)

lemma cmp_same [simp]: "cmp_of a a = Equal"
  by (simp add: cmp_of_def)

lemma lex_greater: "lex_cmp cmp_of xs ys = Less \<Longrightarrow> lex_cmp cmp_of ys xs = Greater"
  by (induction "cmp_of :: 'a \<Rightarrow> 'a \<Rightarrow> ordering" xs ys rule: lex_cmp.induct) (auto simp: cmp_of_def split: if_splits)

lemma lex_prefix: "lex_cmp cmp_of (xs @ ys) (xs @ zs) = lex_cmp cmp_of ys zs"
  by (induction xs) simp_all

lemma digit_less: "n < m \<Longrightarrow> n div 64 < m div 64 \<or> n div 64 = m div 64 \<and> n mod 64 < m mod (64 :: nat)"
  by (metis div_le_mono div_mod_decomp le_neq_implies_less less_imp_le_nat nat_add_left_cancel_less)

lemma cmp_less: "a < b \<Longrightarrow> cmp_of a b = Less"
  by (simp add: cmp_of_def)

lemma encode_less:
  assumes "n < m" "m < 0x110000"
  shows "lex_cmp cmp_of (encode_char n @ r) (encode_char m @ r') = Less"
proof -
  have d: "n div 64 div 64 = n div 4096" "m div 64 div 64 = m div 4096" "n div 4096 div 64 = n div 262144" "m div 4096 div 64 = m div 262144"
    by (simp_all flip: div_mult2_eq)
  have q2: "n div 64 < m div 64 \<or> n div 64 = m div 64 \<and> n mod 64 < m mod 64" using digit_less [OF assms(1)] .
  have q3: "n div 4096 < m div 4096 \<or> n div 4096 = m div 4096 \<and>
      (n div 64 mod 64 < m div 64 mod 64 \<or> n div 64 mod 64 = m div 64 mod 64 \<and> n mod 64 < m mod 64)"
    using q2 digit_less [of "n div 64" "m div 64"] d by metis
  have q4: "n div 262144 < m div 262144 \<or> n div 262144 = m div 262144 \<and>
      (n div 4096 mod 64 < m div 4096 mod 64 \<or> n div 4096 mod 64 = m div 4096 mod 64 \<and>
        (n div 64 mod 64 < m div 64 mod 64 \<or> n div 64 mod 64 = m div 64 mod 64 \<and> n mod 64 < m mod 64))"
    using q3 digit_less [of "n div 4096" "m div 4096"] d by metis
  have t: "k mod 64 < (128 :: nat)" for k using mod_less_divisor [of 64 k] by linarith
  note e = encode_char_def octet_lt t
  consider "m < 0x80" | "0x80 \<le> m" "m < 0x800" | "0x800 \<le> m" "m < 0x10000" | "0x10000 \<le> m" by linarith
  then show ?thesis
  proof cases
    case 1
    then show ?thesis using assms by (simp add: e)
  next
    case 2
    then have "m div 64 < 32" by simp
    then show ?thesis using 2 assms(1) q2 by (auto simp: e simp del: of_nat_add)
  next
    case 3
    then have "m div 4096 < 16" by simp
    then show ?thesis using 3 assms(1) q3 by (auto simp: e simp del: of_nat_add)
  next
    case 4
    then have "m div 262144 < 5" using assms(2) by simp
    then show ?thesis using 4 assms(1) q4 by (auto simp: e simp del: of_nat_add)
  qed
qed

lemma encode_cmp:
  "(\<And>c. c \<in> set cs \<Longrightarrow> is_scalar c) \<Longrightarrow> (\<And>c. c \<in> set ds \<Longrightarrow> is_scalar c) \<Longrightarrow>
     lex_cmp cmp_of (encode cs) (encode ds) = lex_cmp cmp_of cs ds"
proof (induction cs arbitrary: ds)
  case Nil
  show ?case
  proof (cases ds)
    case (Cons d ds')
    then obtain b ts where "encode_char d = b # ts" using encode_sequence Nil.prems by (metis list.set_intros(1))
    then show ?thesis using Cons by simp
  qed simp
next
  case (Cons c cs)
  note ih = Cons.IH and sc = Cons.prems
  show ?case
  proof (cases ds)
    case Nil
    obtain b ts where "encode_char c = b # ts" using encode_sequence Cons.prems by (metis list.set_intros(1))
    then show ?thesis using Nil by simp
  next
    case (Cons d ds')
    have s: "c < 0x110000" "d < 0x110000" using sc Cons by (simp_all add: scalar_bounds)
    consider "c < d" | "c = d" | "d < c" by linarith
    then show ?thesis
    proof cases
      case 1 then show ?thesis using Cons encode_less [OF 1 s(2)] by (simp add: cmp_less)
    next
      case 2 then show ?thesis using Cons ih [of ds'] sc by (simp add: lex_prefix)
    next
      case 3
      then have "cmp_of c d = Greater" by (simp add: cmp_of_def)
      then show ?thesis using Cons lex_greater [OF encode_less [OF 3 s(1)]] by simp
    qed
  qed
qed

end
