(* ===== verification/Text_Search.thy ===== *)
theory Text_Search
  imports Unicode "HOL-Library.Sublist"
begin

text \<open>
  Searching a text: \<open>str::find\<close>, \<open>str::split\<close> and \<open>str::replace\<close> with a text as the pattern. The
  functions work on any sequence; on the octets of texts and on their characters they give the same
  answer.
\<close>

fun find_sub :: "'a list \<Rightarrow> 'a list \<Rightarrow> nat option" where
  "find_sub p [] = (if p = [] then Some 0 else None)"
| "find_sub p (x # xs) = (if prefix p (x # xs) then Some 0 else map_option Suc (find_sub p xs))"

lemma find_sub_Some:
  "find_sub p s = Some i \<Longrightarrow> s = take i s @ p @ drop (i + length p) s \<and> i + length p \<le> length s"
proof (induction s arbitrary: i)
  case (Cons x xs)
  show ?case
  proof (cases "prefix p (x # xs)")
    case True
    then show ?thesis using Cons.prems prefix_length_le [OF True] by (auto simp: prefix_def)
  next
    case False
    then obtain j where "find_sub p xs = Some j" "i = Suc j" using Cons.prems by auto
    then show ?thesis using Cons.IH by simp
  qed
qed (simp split: if_splits)

lemma find_sub_least: "find_sub p s = Some i \<Longrightarrow> j < i \<Longrightarrow> \<not> prefix p (drop j s)"
proof (induction s arbitrary: i j)
  case (Cons x xs)
  show ?case
  proof (cases j)
    case 0
    then show ?thesis using Cons.prems by (auto split: if_splits)
  next
    case (Suc k)
    then show ?thesis using Cons by (auto split: if_splits)
  qed
qed (simp split: if_splits)

lemma find_sub_None: "find_sub p s = None \<longleftrightarrow> \<not> sublist p s"
proof (induction s)
  case (Cons x xs)
  then show ?case by (auto simp: sublist_Cons_right)
qed auto

text \<open>Termination: a match of a pattern that is not empty takes something away.\<close>

lemma find_sub_shrinks: "p \<noteq> [] \<Longrightarrow> find_sub p s = Some i \<Longrightarrow> length (drop (i + length p) s) < length s"
  using find_sub_Some [of p s i] by (cases p) auto

text \<open>The source never splits or replaces at the empty text; both leave the text alone here.\<close>

function split_on :: "'a list \<Rightarrow> 'a list \<Rightarrow> 'a list list" where
  "split_on p s = (if p = [] then [s] else case find_sub p s of
       None \<Rightarrow> [s]
     | Some i \<Rightarrow> take i s # split_on p (drop (i + length p) s))"
  by pat_completeness auto
termination
  by (relation "measure (\<lambda>(p, s). length s)") (simp, metis case_prod_conv find_sub_shrinks in_measure)

function replace_all :: "'a list \<Rightarrow> 'a list \<Rightarrow> 'a list \<Rightarrow> 'a list" where
  "replace_all p r s = (if p = [] then s else case find_sub p s of
       None \<Rightarrow> s
     | Some i \<Rightarrow> take i s @ r @ replace_all p r (drop (i + length p) s))"
  by pat_completeness auto
termination
  by (relation "measure (\<lambda>(p, r, s). length s)") (simp, metis case_prod_conv find_sub_shrinks in_measure)

declare split_on.simps [simp del] replace_all.simps [simp del]

lemma split_on_nonempty: "split_on p s \<noteq> []"
  by (subst split_on.simps) (auto split: option.split)

lemma join_Cons: "xs \<noteq> [] \<Longrightarrow> join sep (x # xs) = x @ sep @ join sep xs"
  by (cases xs) simp_all

lemma join_split: "join p (split_on p s) = s"
proof (induction p s rule: split_on.induct)
  case (1 p s)
  show ?case
  proof (cases "p = [] \<or> find_sub p s = None")
    case True
    then show ?thesis by (subst split_on.simps) auto
  next
    case False
    then obtain i where i: "p \<noteq> []" "find_sub p s = Some i" by auto
    then have "split_on p s = take i s # split_on p (drop (i + length p) s)" by (subst split_on.simps) simp
    then show ?thesis using 1 [OF i] find_sub_Some [OF i(2)] by (simp add: join_Cons split_on_nonempty)
  qed
qed

lemma replace_split: "p \<noteq> [] \<Longrightarrow> replace_all p r s = join r (split_on p s)"
proof (induction p s rule: split_on.induct)
  case (1 p s)
  show ?case
  proof (cases "find_sub p s")
    case None
    then show ?thesis using 1(2) by (simp add: split_on.simps [of p s] replace_all.simps [of p r s])
  next
    case (Some i)
    then show ?thesis using 1
      by (simp add: split_on.simps [of p s] replace_all.simps [of p r s] join_Cons split_on_nonempty)
  qed
qed

lemma split_parts: "p \<noteq> [] \<Longrightarrow> x \<in> set (split_on p s) \<Longrightarrow> \<not> sublist p x"
proof (induction p s rule: split_on.induct)
  case (1 p s)
  show ?case
  proof (cases "find_sub p s")
    case None
    then show ?thesis using 1(2,3) find_sub_None [of p s] by (simp add: split_on.simps [of p s])
  next
    case (Some i)
    have "\<not> sublist p (take i s)"
    proof
      assume "sublist p (take i s)"
      then obtain u v where u: "take i s = u @ p @ v" by (auto simp: sublist_def)
      then have "length (take i s) = length u + length p + length v" by simp
      then have "length u < i" using 1(2) by (cases p) auto
      moreover have "prefix p (drop (length u) s)"
        by (metis append.assoc append_eq_conv_conj append_take_drop_id prefix_def u)
      ultimately show False using find_sub_least [OF Some] by blast
    qed
    then show ?thesis using 1 Some by (auto simp: split_on.simps [of p s])
  qed
qed

lemma prefix_map: "inj f \<Longrightarrow> prefix (map f p) (map f s) = prefix p s"
proof (induction p arbitrary: s)
  case (Cons x p)
  then show ?case by (cases s) (auto simp: inj_eq)
qed simp

lemma find_sub_map: "inj f \<Longrightarrow> find_sub (map f p) (map f s) = find_sub p s"
proof (induction s)
  case (Cons x xs)
  then show ?case using prefix_map [of f p "x # xs"] by simp
qed simp

subsection \<open>Octets and characters\<close>

lemma prefix_chars:
  assumes "utf8_valid p" "utf8_valid s"
  shows "prefix p s \<longleftrightarrow> prefix (chars_of p) (chars_of s)"
proof
  assume "prefix p s"
  then show "prefix (chars_of p) (chars_of s)" using chars_append [OF assms(1)] by (auto simp: prefix_def)
next
  assume "prefix (chars_of p) (chars_of s)"
  then obtain r where "chars_of s = chars_of p @ r" by (auto simp: prefix_def)
  then have "encode (chars_of s) = encode (chars_of p) @ encode r" by simp
  then show "prefix p s" using encode_chars assms by simp
qed

text \<open>No text begins in the middle of a character.\<close>

lemma head_not_continuation: "utf8_valid (b # bs) \<Longrightarrow> \<not> between 0x80 0xBF b"
  by (auto simp: utf8_valid.simps(2) utf8_complete_def width_nat octet_between Let_def split: if_splits)

lemma find_skip:
  assumes "p \<noteq> []" "utf8_valid p" "\<And>t. t \<in> set ts \<Longrightarrow> between 0x80 0xBF t"
  shows "find_sub p (ts @ s) = map_option (\<lambda>i. length ts + i) (find_sub p s)"
  using assms(3)
proof (induction ts)
  case (Cons t ts)
  have "\<not> prefix p (t # ts @ s)"
    using assms(1,2) head_not_continuation Cons.prems [of t] by (cases p) auto
  then show ?case using Cons by (simp add: option.map_comp comp_def)
qed (cases "find_sub p s"; simp)

lemma tail_continues:
  assumes "utf8_complete b cs" "t \<in> set (take (utf8_tail b cs) cs)"
  shows "between 0x80 0xBF t"
  using assms(1)
proof (cases rule: complete_cases)
  case 2 then show ?thesis using assms(2) second_continues by auto
next
  case 3 then show ?thesis using assms(2) second_continues by auto
next
  case 4 then show ?thesis using assms(2) second_continues by auto
qed (use assms(2) in simp)

lemma find_chars:
  assumes "utf8_valid p" "utf8_valid s"
  shows "find_sub (chars_of p) (chars_of s) = map_option (\<lambda>i. length (chars_of (take i s))) (find_sub p s) \<and>
     (\<forall>i. find_sub p s = Some i \<longrightarrow> utf8_valid (take i s))"
  using assms(2)
proof (induction s rule: utf8_valid.induct)
  case 1
  have "chars_of p = [] \<longleftrightarrow> p = []" using chars_inj [OF assms(1), of "[]"] by simp
  then show ?case by simp
next
  case (2 b cs)
  then have c: "utf8_complete b cs" "utf8_valid (drop (utf8_tail b cs) cs)" by (simp_all add: utf8_valid.simps(2))
  let ?n = "utf8_tail b cs"
  have ch: "chars_of (b # cs) = code_point b (take ?n cs) # chars_of (drop ?n cs)" by (simp add: chars_of.simps(2) Let_def)
  show ?case
  proof (cases "prefix p (b # cs)")
    case True
    then show ?thesis using prefix_chars [OF assms(1) "2.prems"] ch by simp
  next
    case False
    then have p: "p \<noteq> []" by auto
    have f: "find_sub p (b # cs) = map_option (\<lambda>i. Suc (?n + i)) (find_sub p (drop ?n cs))"
      using False find_skip [of p "take ?n cs" "drop ?n cs", OF p assms(1) tail_continues [OF c(1)]] utf8_tail_le [of b cs]
      by (simp add: option.map_comp comp_def)
    have t: "take (Suc (?n + i)) (b # cs) = b # take ?n cs @ take i (drop ?n cs)" for i by (simp add: take_add)
    have sq: "is_sequence (code_point b (take ?n cs)) b (take ?n cs)" using complete_sequence [OF c(1)] .
    have l: "chars_of (take (Suc (?n + i)) (b # cs)) = code_point b (take ?n cs) # chars_of (take i (drop ?n cs))"
        "utf8_valid (take (Suc (?n + i)) (b # cs)) = utf8_valid (take i (drop ?n cs))" for i
      unfolding t using chars_sequence [OF sq] by simp_all
    have "\<not> prefix (chars_of p) (chars_of (b # cs))" using False prefix_chars [OF assms(1) "2.prems"] by simp
    then have "find_sub (chars_of p) (chars_of (b # cs)) = map_option Suc (find_sub (chars_of p) (chars_of (drop ?n cs)))"
      unfolding ch by simp
    then show ?thesis using "2.IH" [OF c(2)] unfolding f by (cases "find_sub p (drop ?n cs)") (simp_all add: l del: take_Suc_Cons)
  qed
qed

text \<open>Splitting at octets is splitting at characters, and the parts are texts.\<close>

lemma split_chars:
  "p \<noteq> [] \<Longrightarrow> utf8_valid p \<Longrightarrow> utf8_valid s \<Longrightarrow>
     map chars_of (split_on p s) = split_on (chars_of p) (chars_of s) \<and> (\<forall>x \<in> set (split_on p s). utf8_valid x)"
proof (induction p s rule: split_on.induct)
  case (1 p s)
  have n: "chars_of p \<noteq> []" using chars_inj [OF 1(3), of "[]"] 1(2) by simp
  note f = find_chars [OF 1(3,4)]
  show ?case
  proof (cases "find_sub p s")
    case None
    then show ?thesis using f 1(2,4) n by (simp add: split_on.simps [of p s] split_on.simps [of "chars_of p"])
  next
    case (Some i)
    define rest where "rest = drop (i + length p) s"
    have s: "s = take i s @ p @ rest" using find_sub_Some [OF Some] by (simp add: rest_def)
    have v: "utf8_valid (take i s)" using f Some by simp
    have r: "utf8_valid rest" using 1(3,4) valid_append [OF v, of "p @ rest"] valid_append [OF 1(3), of rest] s by simp
    have "chars_of s = chars_of (take i s) @ chars_of p @ chars_of rest"
      using chars_append [OF v, of "p @ rest"] chars_append [OF 1(3), of rest] s by simp
    then have c: "take (length (chars_of (take i s))) (chars_of s) = chars_of (take i s)"
      "drop (length (chars_of (take i s)) + length (chars_of p)) (chars_of s) = chars_of rest" by simp_all
    have "find_sub (chars_of p) (chars_of s) = Some (length (chars_of (take i s)))" using f Some by simp
    then have "split_on (chars_of p) (chars_of s) = chars_of (take i s) # split_on (chars_of p) (chars_of rest)"
      using n c by (subst split_on.simps) simp
    moreover have "split_on p s = take i s # split_on p rest"
      using Some 1(2) by (subst split_on.simps) (simp add: rest_def)
    ultimately show ?thesis using 1(1) [OF 1(2) Some 1(2,3)] r v by (simp add: rest_def)
  qed
qed

end
