(* ===== verification/Strings.thy ===== *)
theory Strings
  imports Text_Search Byte_Scalar
begin

text \<open>
  Strings (\<open>src/src/string.rs\<close>). A borrowed C string is its octets, \<^term>\<open>None\<close> when the pointer is null,
  and an answer \<^term>\<open>None\<close> is a null pointer read through or, for a returned C string, a null pointer.
  The full Unicode case tables and the decimal reader of \<open>f64\<close> are the record \<open>text_ops\<close>.
\<close>

type_synonym c_str = "u8 list option"

record text_ops =
  tx_upper :: "string \<Rightarrow> string"
  tx_lower :: "string \<Rightarrow> string"
  tx_float :: "string \<Rightarrow> f64 option"

subsection \<open>Texts\<close>

definition chars :: "string \<Rightarrow> nat list" where
  "chars s = chars_of (bytes_of_text s)"

definition from_chars :: "nat list \<Rightarrow> string" where
  "from_chars cs = text_of_bytes (encode cs)"

definition is_whitespace :: "nat \<Rightarrow> bool" where
  "is_whitespace c \<longleftrightarrow> 9 \<le> c \<and> c \<le> 13 \<or> 0x2000 \<le> c \<and> c \<le> 0x200A \<or>
     c \<in> {0x20, 0x85, 0xA0, 0x1680, 0x2028, 0x2029, 0x202F, 0x205F, 0x3000}"

definition trim :: "string \<Rightarrow> string" where
  "trim s = from_chars (rev (dropWhile is_whitespace (rev (dropWhile is_whitespace (chars s)))))"

definition to_ascii_lowercase :: "string \<Rightarrow> string" where
  "to_ascii_lowercase s = map (\<lambda>c. let n = of_char c in if 65 \<le> n \<and> n \<le> 90 then char_of (n + 32 :: nat) else c) s"

text \<open>The octets up to the terminator, made a text.\<close>

definition c_octets :: "u8 list \<Rightarrow> u8 list" where
  "c_octets bytes = takeWhile (\<lambda>b. b \<noteq> 0) bytes"

definition to_string_lossy :: "u8 list \<Rightarrow> string" where
  "to_string_lossy bytes = text_of_bytes (utf8_lossy (c_octets bytes))"

definition new_c_string :: "string \<Rightarrow> c_str" where
  "new_c_string s = map_option bytes_of_text (c_string s)"

subsection \<open>Reading integers\<close>

datatype int_error = EmptyInt | InvalidDigit | PosOverflow | NegOverflow

fun int_error_text :: "int_error \<Rightarrow> string" where
  "int_error_text EmptyInt = ''cannot parse integer from empty string''"
| "int_error_text InvalidDigit = ''invalid digit found in string''"
| "int_error_text PosOverflow = ''number too large to fit in target type''"
| "int_error_text NegOverflow = ''number too small to fit in target type''"

definition to_digit :: "nat \<Rightarrow> char \<Rightarrow> nat option" where
  "to_digit radix c =
     (let n = of_char c;
          d = (if 48 \<le> n \<and> n \<le> 57 then n - 48 else if 97 \<le> n \<and> n \<le> 122 then n - 87
               else if 65 \<le> n \<and> n \<le> 90 then n - 55 else radix)
      in if d < radix then Some d else None)"

fun read_digits :: "nat \<Rightarrow> bool \<Rightarrow> int \<Rightarrow> string \<Rightarrow> int_error + int" where
  "read_digits radix positive acc [] = Inr acc"
| "read_digits radix positive acc (c # cs) =
     (let scaled = acc * int radix; overflow = Inl (if positive then PosOverflow else NegOverflow) in
      case to_digit radix c of
        None \<Rightarrow> Inl InvalidDigit
      | Some d \<Rightarrow>
          if \<not> in_i64 scaled then overflow
          else let total = (if positive then scaled + int d else scaled - int d) in
               if in_i64 total then read_digits radix positive total cs else overflow)"

definition from_str_radix :: "nat \<Rightarrow> string \<Rightarrow> int_error + int" where
  "from_str_radix radix s = (case s of
       [] \<Rightarrow> Inl EmptyInt
     | c # rest \<Rightarrow>
         if c = CHR ''+'' \<or> c = CHR ''-'' then
           (if rest = [] then Inl InvalidDigit else read_digits radix (c = CHR ''+'') 0 rest)
         else read_digits radix True 0 s)"

subsection \<open>\<open>MuxString\<close>\<close>

definition string_to_int :: "string \<Rightarrow> int rresult" where
  "string_to_int s = (case from_str_radix 10 s of Inr i \<Rightarrow> Ok i | Inl _ \<Rightarrow> Err ''Invalid integer'')"

definition string_to_float :: "text_ops \<Rightarrow> string \<Rightarrow> f64 rresult" where
  "string_to_float X s = (case tx_float X s of Some f \<Rightarrow> Ok f | None \<Rightarrow> Err ''Invalid float'')"

definition string_to_bool :: "string \<Rightarrow> bool rresult" where
  "string_to_bool s =
     (let t = to_ascii_lowercase (trim s) in
      if t = ''true'' then Ok True else if t = ''false'' then Ok False
      else Err ''Invalid bool: expected true or false'')"

definition string_concat :: "string \<Rightarrow> string \<Rightarrow> string" where
  "string_concat s t = s @ t"

definition string_length :: "string \<Rightarrow> int" where
  "string_length s = int (length (chars s))"

definition string_compare :: "string \<Rightarrow> string \<Rightarrow> int" where
  "string_compare s t = ordering_int (string_cmp s t)"

definition string_hash :: "hooks \<Rightarrow> string \<Rightarrow> int" where
  "string_hash H s = sint (hk_default_hash H [HStr s])"

subsection \<open>Entry points on whole strings\<close>

definition borrowed_str :: "c_str \<Rightarrow> string" where
  "borrowed_str s = (case s of None \<Rightarrow> [] | Some bytes \<Rightarrow> to_string_lossy bytes)"

definition owned_cstr :: "string \<Rightarrow> u8 list" where
  "owned_cstr s = (case new_c_string s of Some bytes \<Rightarrow> bytes | None \<Rightarrow> [])"

definition plain_return ::
  "mux_value rresult \<Rightarrow> 'z heap_scheme \<Rightarrow> nat \<times> 'z heap_scheme" where
  "plain_return r h = mux_rc_alloc (VResult (case r of Inr v \<Rightarrow> Inr v | Inl e \<Rightarrow> Inl (VString e))) h"

definition mux_string_from_value :: "nat \<Rightarrow> 'z heap_scheme \<Rightarrow> c_str option" where
  "mux_string_from_value v h = map_option (\<lambda>x. case x of VString s \<Rightarrow> new_c_string s | _ \<Rightarrow> new_c_string []) (deref v h)"

definition mux_value_get_string :: "nat \<Rightarrow> 'z heap_scheme \<Rightarrow> c_str option" where
  "mux_value_get_string v h = mux_string_from_value v h"

definition mux_string_to_bool :: "hooks \<Rightarrow> c_str \<Rightarrow> 'z err_heap_scheme \<Rightarrow> (nat \<times> 'z err_heap_scheme) option" where
  "mux_string_to_bool H s h = (case s of
       None \<Rightarrow> byte_result_err H ''null input'' h
     | Some bytes \<Rightarrow> Some (plain_return (map_sum id VBool (string_to_bool (to_string_lossy bytes))) h))"

definition mux_string_to_int :: "c_str \<Rightarrow> 'z heap_scheme \<Rightarrow> (nat \<times> 'z heap_scheme) option" where
  "mux_string_to_int s h = map_option (\<lambda>bytes.
     plain_return (map_sum id VInt (string_to_int (to_string_lossy bytes))) h) s"

definition split_radix :: "string \<Rightarrow> string \<times> nat" where
  "split_radix s = (if prefix ''0b'' s then (drop 2 s, 2) else if prefix ''0o'' s then (drop 2 s, 8)
     else if prefix ''0x'' s then (drop 2 s, 16) else (s, 10))"

definition string_to_byte :: "string \<Rightarrow> int rresult" where
  "string_to_byte text =
     (let trimmed = trim text; (digits, radix) = split_radix trimmed in
      case from_str_radix radix digits of
        Inr i \<Rightarrow> if 0 \<le> i \<and> i \<le> 255 then Ok i
          else Err (''Byte value '' @ show_int i @ '' is outside the range 0..255'')
      | Inl e \<Rightarrow> Err (''Invalid byte literal '' @ [CHR 0x27] @ trimmed @ [CHR 0x27] @ '': '' @ int_error_text e))"

definition mux_string_to_byte :: "hooks \<Rightarrow> c_str \<Rightarrow> 'z err_heap_scheme \<Rightarrow> (nat \<times> 'z err_heap_scheme) option" where
  "mux_string_to_byte H s h = (case s of
       None \<Rightarrow> Some (plain_return (Err ''null input'') h)
     | Some bytes \<Rightarrow> byte_return H (string_to_byte (to_string_lossy bytes)) h)"

definition mux_string_to_float :: "text_ops \<Rightarrow> c_str \<Rightarrow> 'z heap_scheme \<Rightarrow> (nat \<times> 'z heap_scheme) option" where
  "mux_string_to_float X s h = map_option (\<lambda>bytes.
     plain_return (map_sum id VFloat (string_to_float X (to_string_lossy bytes))) h) s"

definition mux_string_concat :: "c_str \<Rightarrow> c_str \<Rightarrow> c_str option" where
  "mux_string_concat a b = do {
     x \<leftarrow> a;
     y \<leftarrow> b;
     Some (new_c_string (string_concat (to_string_lossy x) (to_string_lossy y)))
   }"

definition mux_string_length :: "c_str \<Rightarrow> int option" where
  "mux_string_length s = map_option (\<lambda>bytes. string_length (to_string_lossy bytes)) s"

definition mux_string_compare :: "c_str \<Rightarrow> c_str \<Rightarrow> int" where
  "mux_string_compare a b = (case (a, b) of
       (None, None) \<Rightarrow> 0
     | (None, Some _) \<Rightarrow> - 1
     | (Some _, None) \<Rightarrow> 1
     | (Some x, Some y) \<Rightarrow> string_compare (to_string_lossy x) (to_string_lossy y))"

definition mux_string_hash :: "hooks \<Rightarrow> c_str \<Rightarrow> int option" where
  "mux_string_hash H s = map_option (\<lambda>bytes. string_hash H (to_string_lossy bytes)) s"

definition mux_string_contains :: "nat \<Rightarrow> nat \<Rightarrow> 'z heap_scheme \<Rightarrow> bool option" where
  "mux_string_contains haystack needle h = do {
     x \<leftarrow> deref haystack h;
     y \<leftarrow> deref needle h;
     Some (case (x, y) of (VString s, VString t) \<Rightarrow> find_sub t s \<noteq> None | _ \<Rightarrow> False)
   }"

definition char_from_int :: "int \<Rightarrow> nat option" where
  "char_from_int i = (if 0 \<le> i \<and> i < 2 ^ 32 \<and> is_scalar (nat i) then Some (nat i) else None)"

definition mux_string_contains_char :: "nat \<Rightarrow> int \<Rightarrow> 'z heap_scheme \<Rightarrow> bool option" where
  "mux_string_contains_char haystack needle h = map_option (\<lambda>x. case x of
       VString s \<Rightarrow> (case char_from_int needle of None \<Rightarrow> False | Some ch \<Rightarrow> ch \<in> set (chars s))
     | _ \<Rightarrow> False) (deref haystack h)"

definition mux_string_to_string :: "c_str \<Rightarrow> c_str option" where
  "mux_string_to_string s = map_option (\<lambda>bytes. new_c_string (to_string_lossy bytes)) s"

definition mux_new_string_from_cstr :: "c_str \<Rightarrow> 'z heap_scheme \<Rightarrow> nat \<times> 'z heap_scheme" where
  "mux_new_string_from_cstr s h = (case s of
       None \<Rightarrow> (0, h)
     | Some bytes \<Rightarrow> mux_rc_alloc (VString (to_string_lossy bytes)) h)"

text \<open>The C string is freed once it is copied; it is not part of the heap of values.\<close>

definition mux_new_string_from_owned_cstr :: "c_str \<Rightarrow> 'z heap_scheme \<Rightarrow> nat \<times> 'z heap_scheme" where
  "mux_new_string_from_owned_cstr s h = (case s of
       None \<Rightarrow> (0, h)
     | Some bytes \<Rightarrow> mux_rc_alloc (VString (to_string_lossy bytes)) h)"

definition mux_string_equal :: "c_str \<Rightarrow> c_str \<Rightarrow> int" where
  "mux_string_equal a b = (case (a, b) of
       (Some x, Some y) \<Rightarrow> of_bool (c_octets x = c_octets y)
     | (None, None) \<Rightarrow> 1
     | _ \<Rightarrow> 0)"

definition mux_string_not_equal :: "c_str \<Rightarrow> c_str \<Rightarrow> int" where
  "mux_string_not_equal a b = of_bool (mux_string_equal a b \<noteq> 1)"

subsection \<open>Characters\<close>

definition mux_string_to_char :: "c_str \<Rightarrow> 'z heap_scheme \<Rightarrow> (nat \<times> 'z heap_scheme) option" where
  "mux_string_to_char s h = map_option (\<lambda>bytes. plain_return (case chars (to_string_lossy bytes) of
       [c] \<Rightarrow> Ok (VInt (int c))
     | _ \<Rightarrow> Err ''String must be exactly one character'') h) s"

definition char_to_int :: "int \<Rightarrow> int rresult" where
  "char_to_int i = (case char_from_int i of
       Some ch \<Rightarrow> if 48 \<le> ch \<and> ch \<le> 57 then Ok (int (ch - 48)) else Err ''Character is not a digit (0-9)''
     | None \<Rightarrow> Err ''Invalid character'')"

definition mux_char_to_int :: "int \<Rightarrow> 'z heap_scheme \<Rightarrow> nat \<times> 'z heap_scheme" where
  "mux_char_to_int c h = plain_return (map_sum id VInt (char_to_int c)) h"

definition mux_char_to_codepoint :: "int \<Rightarrow> int" where
  "mux_char_to_codepoint c = (if char_from_int c \<noteq> None then c else - 1)"

definition mux_char_to_string :: "int \<Rightarrow> c_str" where
  "mux_char_to_string c = (case char_from_int c of
       Some ch \<Rightarrow> new_c_string (from_chars [ch])
     | None \<Rightarrow> new_c_string [])"

subsection \<open>Positions\<close>

definition normalized_char_index :: "int \<Rightarrow> nat \<Rightarrow> nat option" where
  "normalized_char_index index len = do {
     i \<leftarrow> (if index < 0 then (if nat \<bar>index\<bar> \<le> len then Some (len - nat \<bar>index\<bar>) else None) else Some (nat index));
     (if i < len then Some i else None)
   }"

definition char_at_index :: "string \<Rightarrow> int \<Rightarrow> nat option" where
  "char_at_index s index = do {
     i \<leftarrow> normalized_char_index index (length (chars s));
     (if i < length (chars s) then Some (chars s ! i) else None)
   }"

definition slice_bounds :: "nat \<Rightarrow> int \<Rightarrow> int \<Rightarrow> nat \<times> nat" where
  "slice_bounds len start stop =
     (let resolve = (\<lambda>index. if index < 0 then len - nat \<bar>index\<bar> else min (nat index) len);
          from = resolve start; to = resolve stop
      in (from, max to from))"

definition mux_string_char_at :: "c_str \<Rightarrow> int \<Rightarrow> 'z heap_scheme \<Rightarrow> nat \<times> 'z heap_scheme" where
  "mux_string_char_at s index h = (case s of
       None \<Rightarrow> mux_optional_none h
     | Some bytes \<Rightarrow> (case char_at_index (to_string_lossy bytes) index of
           Some c \<Rightarrow> mux_rc_alloc (VOptional (Some (VInt (int c)))) h
         | None \<Rightarrow> mux_optional_none h))"

definition mux_string_slice :: "c_str \<Rightarrow> int \<Rightarrow> int \<Rightarrow> u8 list" where
  "mux_string_slice s start stop =
     (let text = (case s of None \<Rightarrow> [] | Some bytes \<Rightarrow> to_string_lossy bytes);
          (from, to) = slice_bounds (length (chars text)) start stop
      in owned_cstr (from_chars (take (to - from) (drop from (chars text)))))"

definition mux_string_split :: "c_str \<Rightarrow> c_str \<Rightarrow> 'z heap_scheme \<Rightarrow> nat \<times> 'z heap_scheme" where
  "mux_string_split s sep h =
     (let text = borrowed_str s; separator = borrowed_str sep;
          parts = (if separator = [] then map (\<lambda>c. VString (from_chars [c])) (chars text)
                   else map VString (split_on separator text))
      in mux_rc_alloc (VList parts) h)"

definition mux_string_to_list :: "c_str \<Rightarrow> 'z heap_scheme \<Rightarrow> nat \<times> 'z heap_scheme" where
  "mux_string_to_list s h = mux_rc_alloc (VList (map (\<lambda>c. VInt (int c)) (chars (borrowed_str s)))) h"

definition mux_string_trim :: "c_str \<Rightarrow> u8 list" where
  "mux_string_trim s = owned_cstr (trim (borrowed_str s))"

definition mux_string_to_upper :: "text_ops \<Rightarrow> c_str \<Rightarrow> u8 list" where
  "mux_string_to_upper X s = owned_cstr (tx_upper X (borrowed_str s))"

definition mux_string_to_lower :: "text_ops \<Rightarrow> c_str \<Rightarrow> u8 list" where
  "mux_string_to_lower X s = owned_cstr (tx_lower X (borrowed_str s))"

definition mux_string_starts_with :: "c_str \<Rightarrow> c_str \<Rightarrow> bool" where
  "mux_string_starts_with s pre = prefix (borrowed_str pre) (borrowed_str s)"

definition mux_string_ends_with :: "c_str \<Rightarrow> c_str \<Rightarrow> bool" where
  "mux_string_ends_with s suf = suffix (borrowed_str suf) (borrowed_str s)"

text \<open>Slicing a text panics when the offset is not at the start of a character.\<close>

definition is_char_boundary :: "string \<Rightarrow> nat \<Rightarrow> bool" where
  "is_char_boundary s i \<longleftrightarrow> i = 0 \<or> i = length s \<or>
     i < length s \<and> \<not> between 0x80 0xBF (bytes_of_text s ! i)"

definition mux_string_index_of :: "c_str \<Rightarrow> c_str \<Rightarrow> int rust_call" where
  "mux_string_index_of s needle =
     (let text = borrowed_str s; pat = borrowed_str needle in
      case find_sub pat text of
        Some i \<Rightarrow> if is_char_boundary text i then Returns (int (length (chars (take i text))))
          else Panics ''byte index is not a char boundary''
      | None \<Rightarrow> Returns (- 1))"

definition mux_string_replace :: "c_str \<Rightarrow> c_str \<Rightarrow> c_str \<Rightarrow> u8 list" where
  "mux_string_replace s from to =
     (let text = borrowed_str s; needle = borrowed_str from in
      if needle = [] then owned_cstr text
      else owned_cstr (replace_all needle (borrowed_str to) text))"

end
