(* ===== verification/String_Properties.thy ===== *)
theory String_Properties
  imports Strings Bytes_Core Value_Order
begin

text \<open>Properties of strings (\<open>src/src/string.rs\<close>).\<close>

subsection \<open>Texts\<close>

abbreviation is_text :: "string \<Rightarrow> bool" where
  "is_text s \<equiv> utf8_valid (bytes_of_text s)"

lemma bytes_of_text_simps [simp]:
  "bytes_of_text [] = []" "bytes_of_text s = [] \<longleftrightarrow> s = []" "length (bytes_of_text s) = length s"
  "bytes_of_text (s @ t) = bytes_of_text s @ bytes_of_text t" "take i (bytes_of_text s) = bytes_of_text (take i s)"
  by (simp_all add: bytes_of_text_def take_map)

lemma octet_inj: "inj (\<lambda>c. of_nat (of_char c) :: u8)"
  by (rule injI) (metis char_byte)

lemma bytes_of_text_inj: "bytes_of_text s = bytes_of_text t \<longleftrightarrow> s = t"
  by (metis text_bytes)

lemma chars_scalar: "is_text s \<Longrightarrow> c \<in> set (chars s) \<Longrightarrow> is_scalar c"
  using encode_chars by (auto simp: chars_def)

lemma from_chars_chars [simp]: "is_text s \<Longrightarrow> from_chars (chars s) = s"
  using encode_chars [of "bytes_of_text s"] by (simp add: chars_def from_chars_def)

lemma encode_text: "is_text s \<Longrightarrow> encode (chars s) = bytes_of_text s"
  using encode_chars [of "bytes_of_text s"] by (simp add: chars_def)

lemma chars_from_chars: "(\<And>c. c \<in> set cs \<Longrightarrow> is_scalar c) \<Longrightarrow> chars (from_chars cs) = cs \<and> is_text (from_chars cs)"
  using chars_encode [of cs "[]"] by (simp add: chars_def from_chars_def)

lemma chars_text_inj: "is_text s \<Longrightarrow> is_text t \<Longrightarrow> chars s = chars t \<longleftrightarrow> s = t"
  using chars_inj bytes_of_text_inj by (simp add: chars_def)

subsection \<open>C strings\<close>

lemma replacement_nonzero: "0 \<notin> set replacement"
  by (simp add: replacement_def)

lemma lossy_nonzero: "0 \<notin> set bs \<Longrightarrow> 0 \<notin> set (utf8_lossy bs)"
proof (induction bs rule: utf8_lossy.induct)
  case (2 b cs)
  have "0 \<notin> set (drop (utf8_tail b cs) cs)" "0 \<notin> set (take (utf8_tail b cs) cs)"
    using "2.prems" set_drop_subset set_take_subset by fastforce+
  then show ?case using 2 replacement_nonzero by (simp add: utf8_lossy.simps(2) Let_def)
qed simp

definition no_nul :: "string \<Rightarrow> bool" where
  "no_nul s \<longleftrightarrow> 0 \<notin> set (bytes_of_text s)"

lemma no_nul_char: "no_nul s \<longleftrightarrow> char_of (0 :: nat) \<notin> set s"
proof -
  have "(of_nat (of_char c) :: u8) = 0 \<longleftrightarrow> c = char_of (0 :: nat)" for c :: char
    using octet_inj [THEN inj_eq, of c "char_of (0 :: nat)"] by simp
  then show ?thesis by (auto simp: no_nul_def bytes_of_text_def)
qed

lemma no_nul_simps [simp]: "no_nul []" "no_nul (s @ t) \<longleftrightarrow> no_nul s \<and> no_nul t"
  by (auto simp: no_nul_def)

lemma borrowed_text: "is_text (borrowed_str s) \<and> no_nul (borrowed_str s)"
proof (cases s)
  case (Some bs)
  have "0 \<notin> set (c_octets bs)" by (auto simp: c_octets_def dest: set_takeWhileD)
  then show ?thesis using Some lossy_valid lossy_nonzero by (simp add: borrowed_str_def to_string_lossy_def no_nul_def)
qed (simp add: borrowed_str_def)

lemma owned_text: "no_nul s \<Longrightarrow> owned_cstr s = bytes_of_text s"
  by (simp add: owned_cstr_def new_c_string_def c_string_def no_nul_char)

lemma lossy_borrowed: "to_string_lossy bs = borrowed_str (Some bs)"
  by (simp add: borrowed_str_def)

lemma owned_chars:
  assumes "is_text s" "no_nul s" "set cs \<subseteq> set (chars s)"
  shows "owned_cstr (from_chars cs) = encode cs"
proof -
  have "set (encode cs) \<subseteq> set (encode (chars s))" using assms(3) by (auto simp: encode_def)
  then have "0 \<notin> set (encode cs)" using assms(1,2) by (auto simp: encode_text no_nul_def)
  then show ?thesis by (simp add: owned_text no_nul_def from_chars_def)
qed

subsection \<open>Positions\<close>

text \<open>The character at an index, and those at the indices of a range, where a negative index counts
  from the end.\<close>

definition from_either_end :: "nat \<Rightarrow> int \<Rightarrow> int" where
  "from_either_end n i = (if i < 0 then int n + i else i)"

definition nth_char :: "nat list \<Rightarrow> int \<Rightarrow> nat option" where
  "nth_char cs i = (let k = from_either_end (length cs) i in
     if 0 \<le> k \<and> k < int (length cs) then Some (cs ! nat k) else None)"

definition chars_between :: "nat list \<Rightarrow> int \<Rightarrow> int \<Rightarrow> nat list" where
  "chars_between cs i j = map ((!) cs) (filter (\<lambda>k. from_either_end (length cs) i \<le> int k \<and>
     int k < from_either_end (length cs) j) [0..<length cs])"

lemma filter_range: "filter (\<lambda>k. a \<le> k \<and> k < b) [0..<n] = [a..<min b n]"
  by (induction n) (auto simp: min_def le_Suc_eq)

lemma range_nth: "b \<le> length xs \<Longrightarrow> map ((!) xs) [a..<b] = take (b - a) (drop a xs)"
  by (rule nth_equalityI) auto

lemma char_at_spec: "char_at_index s i = nth_char (chars s) i"
proof (cases "i < 0")
  case True
  then have "nat (int n + i) = n - nat (- i)" for n by (simp add: nat_diff_distrib)
  then show ?thesis using True
    by (auto simp: char_at_index_def normalized_char_index_def nth_char_def from_either_end_def Let_def)
qed (auto simp: char_at_index_def normalized_char_index_def nth_char_def from_either_end_def Let_def)

lemma resolve_spec: "(if i < 0 then n - nat \<bar>i\<bar> else min (nat i) n) = min (nat (from_either_end n i)) n"
proof (cases "i < 0")
  case True
  then have "nat (int n + i) = n - nat (- i)" by (simp add: nat_diff_distrib)
  then show ?thesis using True by (simp add: from_either_end_def)
qed (simp add: from_either_end_def)

lemma slice_spec:
  assumes "slice_bounds (length cs) i j = (a, b)"
  shows "take (b - a) (drop a cs) = chars_between cs i j"
proof -
  let ?n = "length cs"
  define lo hi where d: "lo = nat (from_either_end ?n i)" "hi = nat (from_either_end ?n j)"
  have "a = min lo ?n" "b = max (min hi ?n) a"
    using assms unfolding slice_bounds_def Let_def resolve_spec d by auto
  then have "take (b - a) (drop a cs) = take (min hi ?n - lo) (drop lo cs)"
    by (cases "lo \<le> ?n") (auto simp: max_def)
  also have "\<dots> = map ((!) cs) [lo..<min hi ?n]" by (simp add: range_nth)
  also have "\<dots> = map ((!) cs) (filter (\<lambda>k. lo \<le> k \<and> k < hi) [0..<?n])" by (simp add: filter_range)
  also have "\<dots> = chars_between cs i j"
    unfolding chars_between_def d by (intro arg_cong [of _ _ "map ((!) cs)"] filter_cong) auto
  finally show ?thesis .
qed

lemma find_text: "find_sub p s = find_sub (bytes_of_text p) (bytes_of_text s)"
  unfolding bytes_of_text_def by (rule find_sub_map [OF octet_inj, symmetric])

lemma index_of_spec:
  "mux_string_index_of s needle = Returns (case find_sub (chars (borrowed_str needle)) (chars (borrowed_str s)) of
     None \<Rightarrow> - 1 | Some k \<Rightarrow> int k)"
proof -
  define tx pat where d: "tx = borrowed_str s" "pat = borrowed_str needle"
  have v: "is_text tx" "is_text pat" using borrowed_text by (simp_all add: d)
  note f = find_chars [OF v(2,1), folded find_text]
  show ?thesis
  proof (cases "find_sub pat tx")
    case None
    then show ?thesis using f by (simp add: mux_string_index_of_def chars_def flip: d)
  next
    case (Some i)
    have "is_char_boundary tx i"
    proof (cases "pat = [] \<or> i = 0 \<or> i = length tx")
      case True
      then show ?thesis using Some by (cases tx) (auto simp: is_char_boundary_def)
    next
      case False
      then obtain b bs where b: "bytes_of_text pat = b # bs" by (cases "bytes_of_text pat") auto
      have m: "tx = take i tx @ pat @ drop (i + length pat) tx" "i + length pat \<le> length tx"
        using find_sub_Some [OF Some] by simp_all
      then have "bytes_of_text tx = bytes_of_text (take i tx) @ bytes_of_text pat @ bytes_of_text (drop (i + length pat) tx)"
        by (metis bytes_of_text_simps(4))
      then have "bytes_of_text tx ! i = b" using b m(2) False
        by (simp add: nth_append)
      then show ?thesis using head_not_continuation [of b bs] v(2) b m(2) False by (cases pat) (auto simp: is_char_boundary_def)
    qed
    then show ?thesis using f Some by (simp add: mux_string_index_of_def chars_def flip: d)
  qed
qed

text \<open>C27. Every position in a string is a character position. A string that comes in as a C string is
  the encoding of its characters, all of them Unicode scalar values; the length is their number; the
  character at an index, the characters of a range, the list of all characters and the index of the
  first occurrence of another string are those of this sequence, with a negative index counting
  from the end and a range cut to the characters there are. The search never cuts a character in two.\<close>

theorem string_positions:
  "let cs = chars (borrowed_str s) in
    list_all is_scalar cs \<and> encode cs = bytes_of_text (borrowed_str s) \<and>
    mux_string_length s = map_option (\<lambda>_. int (length cs)) s \<and>
    mux_string_char_at s i h = mux_rc_alloc (VOptional (map_option (\<lambda>c. VInt (int c)) (nth_char cs i))) h \<and>
    mux_string_slice s i j = encode (chars_between cs i j) \<and>
    mux_string_to_list s h = mux_rc_alloc (VList (map (\<lambda>c. VInt (int c)) cs)) h \<and>
    mux_string_index_of s needle = Returns (case find_sub (chars (borrowed_str needle)) cs of None \<Rightarrow> - 1 | Some k \<Rightarrow> int k)"
proof (unfold Let_def, intro conjI)
  let ?cs = "chars (borrowed_str s)"
  have v: "is_text (borrowed_str s)" "no_nul (borrowed_str s)" using borrowed_text by simp_all
  show "list_all is_scalar ?cs" using chars_scalar [OF v(1)] by (auto simp: list_all_iff)
  show "encode ?cs = bytes_of_text (borrowed_str s)" using encode_text [OF v(1)] by simp
  show "mux_string_length s = map_option (\<lambda>_. int (length ?cs)) s"
    by (cases s) (simp_all add: mux_string_length_def string_length_def lossy_borrowed)
  show "mux_string_char_at s i h = mux_rc_alloc (VOptional (map_option (\<lambda>c. VInt (int c)) (nth_char ?cs i))) h"
  proof (cases s)
    case None
    then show ?thesis by (auto simp: mux_string_char_at_def mux_optional_none_def borrowed_str_def nth_char_def chars_def Let_def)
  next
    case (Some bs)
    then show ?thesis
      by (simp add: mux_string_char_at_def mux_optional_none_def char_at_spec lossy_borrowed split: option.split)
  qed
  show "mux_string_slice s i j = encode (chars_between ?cs i j)"
  proof -
    obtain a b where ab: "slice_bounds (length ?cs) i j = (a, b)" by fastforce
    have "set (take (b - a) (drop a ?cs)) \<subseteq> set ?cs" using set_take_subset set_drop_subset by fastforce
    then have "owned_cstr (from_chars (take (b - a) (drop a ?cs))) = encode (take (b - a) (drop a ?cs))"
      using owned_chars [OF v] by simp
    then show ?thesis using slice_spec [OF ab] ab
      by (simp add: mux_string_slice_def borrowed_str_def Let_def)
  qed
  show "mux_string_to_list s h = mux_rc_alloc (VList (map (\<lambda>c. VInt (int c)) ?cs)) h"
    by (simp add: mux_string_to_list_def)
qed (simp add: index_of_spec)

subsection \<open>Splitting and replacing\<close>

lemma join_Nil: "join [] xs = concat xs"
  by (induction "[] :: 'a list" xs rule: join.induct) simp_all

lemma concat_chars: "is_text s \<Longrightarrow> concat (map (\<lambda>c. from_chars [c]) (chars s)) = s"
proof -
  assume s: "is_text s"
  have "concat (map (\<lambda>c. from_chars [c]) cs) = from_chars cs" for cs
    by (induction cs) (simp_all add: from_chars_def text_of_bytes_def)
  then show ?thesis using s by simp
qed

lemma split_on_map: "inj f \<Longrightarrow> split_on (map f p) (map f s) = map (map f) (split_on p s)"
proof (induction p s rule: split_on.induct)
  case (1 p s)
  show ?case
  proof (cases "p = [] \<or> find_sub p s = None")
    case True
    then show ?thesis using 1(2) find_sub_map [of f p s]
      by (auto simp: split_on.simps [of p s] split_on.simps [of "map f p"])
  next
    case False
    then obtain i where i: "p \<noteq> []" "find_sub p s = Some i" by auto
    then show ?thesis using 1 find_sub_map [of f p s]
      by (simp add: split_on.simps [of p s] split_on.simps [of "map f p"] take_map drop_map)
  qed
qed

lemma split_text: "split_on (bytes_of_text p) (bytes_of_text s) = map bytes_of_text (split_on p s)"
  using split_on_map [OF octet_inj, of p s] by (simp add: bytes_of_text_def)

lemma split_text_chars:
  assumes "p \<noteq> []" "is_text p" "is_text s"
  shows "map chars (split_on p s) = split_on (chars p) (chars s)" "list_all is_text (split_on p s)"
  using split_chars [of "bytes_of_text p" "bytes_of_text s"] assms
  by (simp_all add: split_text chars_def [abs_def] list_all_iff comp_def)

lemma no_nul_join: "no_nul sep \<Longrightarrow> list_all no_nul xs \<Longrightarrow> no_nul (join sep xs)"
  by (induction sep xs rule: join.induct) simp_all

lemma no_nul_parts: "no_nul (join sep xs) \<Longrightarrow> list_all no_nul xs"
  by (induction sep xs rule: join.induct) simp_all

text \<open>C28. Splitting is exact. The parts of a split, joined by the separator, are the string; each part
  is a text and holds no occurrence of the separator, and an empty separator gives the single
  characters. Splitting the octets is splitting the characters. Replacing gives the parts joined by the
  replacement, and an empty pattern leaves the string alone.\<close>

theorem string_split_replace:
  "let t = borrowed_str s; p = borrowed_str sep;
       parts = (if p = [] then map (\<lambda>c. from_chars [c]) (chars t) else split_on p t) in
    mux_string_split s sep h = mux_rc_alloc (VList (map VString parts)) h \<and> join p parts = t \<and>
    list_all (\<lambda>x. is_text x \<and> (if p = [] then length (chars x) = 1 else \<not> sublist p x)) parts \<and>
    map chars parts = (if p = [] then map (\<lambda>c. [c]) (chars t) else split_on (chars p) (chars t)) \<and>
    mux_string_replace s sep to = bytes_of_text (if p = [] then t else join (borrowed_str to) parts)"
proof -
  define t p where d: "t = borrowed_str s" "p = borrowed_str sep"
  have v: "is_text t" "no_nul t" "is_text p" "no_nul p" "no_nul (borrowed_str to)" using borrowed_text by (simp_all add: d)
  show ?thesis
  proof (cases "p = []")
    case True
    have "list_all (\<lambda>c. chars (from_chars [c]) = [c] \<and> is_text (from_chars [c])) (chars t)"
      using chars_scalar [OF v(1)] chars_from_chars [of "[_]"] by (simp add: list_all_iff)
    then show ?thesis using True v concat_chars [OF v(1)]
      by (auto simp: mux_string_split_def mux_string_replace_def join_Nil list_all_iff owned_text Let_def comp_def simp flip: d)
  next
    case False
    have "no_nul (replace_all p (borrowed_str to) t)"
      unfolding replace_split [OF False]
      by (rule no_nul_join [OF v(5) no_nul_parts [of p]]) (simp add: join_split v)
    then show ?thesis using False v split_text_chars [OF False v(3,1)] split_parts [OF False, of _ t]
      by (auto simp: mux_string_split_def mux_string_replace_def join_split list_all_iff owned_text Let_def replace_split simp flip: d)
  qed
qed

subsection \<open>Order\<close>

lemma string_cmp_octets: "string_cmp s t = lex_cmp cmp_of (bytes_of_text s) (bytes_of_text t)"
proof -
  have l: "of_char c < (256 :: nat)" for c :: char using of_char_mod_256 [of c, where 'a = nat] by (metis mod_less_divisor zero_less_numeral)
  have "cmp_of (of_char c :: nat) (of_char d) = cmp_of (of_nat (of_char c) :: u8) (of_nat (of_char d))" for c d :: char
    using l by (simp add: cmp_of_def octet_less octet_eq octet_nat)
  then show ?thesis unfolding string_cmp_def bytes_of_text_def
    by (induction "\<lambda>c d :: char. cmp_of (of_char c :: nat) (of_char d)" s t rule: lex_cmp.induct) simp_all
qed

lemma string_cmp_chars: "is_text s \<Longrightarrow> is_text t \<Longrightarrow> string_cmp s t = lex_cmp cmp_of (chars s) (chars t)"
  using encode_cmp [of "chars s" "chars t"] chars_scalar by (simp add: string_cmp_octets encode_text)

lemma ordering_int_simps: "ordering_int (swap_ord c) = - ordering_int c" "ordering_int c = 0 \<longleftrightarrow> c = Equal"
    "ordering_int c \<le> 0 \<longleftrightarrow> c \<noteq> Greater"
  by (cases c; simp add: ordering_int_def)+

lemma compare_swap: "string_compare t s = - string_compare s t"
  unfolding string_compare_def ordering_int_simps(1) [symmetric]
  by (rule arg_cong [of _ _ ordering_int]) (rule cmp_onD(1) [OF cmp_on_string]; simp)

lemma compare_trans: "string_compare s t \<le> 0 \<Longrightarrow> string_compare t u \<le> 0 \<Longrightarrow> string_compare s u \<le> 0"
  unfolding string_compare_def ordering_int_simps(3) by (rule cmp_onD(2) [OF cmp_on_string]) simp_all

text \<open>C30. The order of strings is a total order in which null comes first. It is the order of the
  character sequences, although the code compares octets. Equality is the order's equality on C strings
  that are valid UTF-8, and never holds of strings the order tells apart.\<close>

theorem string_order:
  "mux_string_compare b a = - mux_string_compare a b \<and>
   (mux_string_compare a b \<le> 0 \<and> mux_string_compare b c \<le> 0 \<longrightarrow> mux_string_compare a c \<le> 0) \<and>
   (mux_string_compare a b = 0 \<longleftrightarrow> map_option to_string_lossy a = map_option to_string_lossy b) \<and>
   mux_string_compare (Some x) (Some y) = ordering_int (lex_cmp cmp_of (chars (to_string_lossy x)) (chars (to_string_lossy y))) \<and>
   mux_string_not_equal a b = 1 - mux_string_equal a b \<and>
   (mux_string_equal a b = 1 \<longrightarrow> mux_string_compare a b = 0) \<and>
   (pred_option (utf8_valid \<circ> c_octets) a \<and> pred_option (utf8_valid \<circ> c_octets) b \<longrightarrow>
      (mux_string_equal a b = 1 \<longleftrightarrow> mux_string_compare a b = 0))"
proof (intro conjI impI)
  note defs = mux_string_compare_def
  show "mux_string_compare b a = - mux_string_compare a b"
    by (cases a; cases b) (simp_all add: defs, rule compare_swap)
  show "mux_string_compare a c \<le> 0" if "mux_string_compare a b \<le> 0 \<and> mux_string_compare b c \<le> 0"
    using that by (cases a; cases b; cases c) (auto simp: defs intro: compare_trans)
  show z: "mux_string_compare a b = 0 \<longleftrightarrow> map_option to_string_lossy a = map_option to_string_lossy b"
    by (cases a; cases b) (simp_all add: defs string_compare_def ordering_int_simps)
  show "mux_string_compare (Some x) (Some y) = ordering_int (lex_cmp cmp_of (chars (to_string_lossy x)) (chars (to_string_lossy y)))"
    using string_cmp_chars borrowed_text by (simp add: defs string_compare_def lossy_borrowed)
  show "mux_string_not_equal a b = 1 - mux_string_equal a b"
    by (auto simp: mux_string_not_equal_def mux_string_equal_def split: option.split)
  have e: "mux_string_equal a b = 1 \<longleftrightarrow> map_option c_octets a = map_option c_octets b"
    by (auto simp: mux_string_equal_def split: option.split)
  show "mux_string_compare a b = 0" if "mux_string_equal a b = 1"
    using that unfolding e z by (cases a; cases b) (simp_all add: to_string_lossy_def)
  show "mux_string_equal a b = 1 \<longleftrightarrow> mux_string_compare a b = 0"
    if "pred_option (utf8_valid \<circ> c_octets) a \<and> pred_option (utf8_valid \<circ> c_octets) b"
    unfolding e z using that by (cases a; cases b) (auto simp: to_string_lossy_def lossy_id dest: arg_cong [of _ _ bytes_of_text])
qed

subsection \<open>Numbers\<close>

text \<open>The numeral a text spells, with no bound on its size.\<close>

definition digits_value :: "nat \<Rightarrow> string \<Rightarrow> nat option" where
  "digits_value radix ds = (if ds \<noteq> [] \<and> list_all (\<lambda>c. to_digit radix c \<noteq> None) ds
     then Some (foldl (\<lambda>n c. n * radix + the (to_digit radix c)) 0 ds) else None)"

definition number_of :: "nat \<Rightarrow> string \<Rightarrow> int option" where
  "number_of radix s = (if s \<noteq> [] \<and> hd s = CHR ''-'' then map_option (\<lambda>n. - int n) (digits_value radix (tl s))
     else if s \<noteq> [] \<and> hd s = CHR ''+'' then map_option int (digits_value radix (tl s))
     else map_option int (digits_value radix s))"

lemma foldl_grows: "0 < radix \<Longrightarrow> m \<le> foldl (\<lambda>n c. n * radix + f c) (m :: nat) ds"
proof (induction ds arbitrary: m)
  case (Cons d ds)
  have "m \<le> m * radix + f d" using Cons.prems by (cases radix) simp_all
  also have "\<dots> \<le> foldl (\<lambda>n c. n * radix + f c) (m * radix + f d) ds" by (rule Cons.IH [OF Cons.prems])
  finally show ?case by simp
qed simp

lemma read_digits_exact:
  assumes "0 < radix"
  shows "in_i64 (if positive then int n else - int n) \<Longrightarrow>
    read_digits radix positive (if positive then int n else - int n) ds = Inr i \<longleftrightarrow>
    list_all (\<lambda>c. to_digit radix c \<noteq> None) ds \<and> in_i64 i \<and>
    i = (if positive then 1 else - 1) * int (foldl (\<lambda>n c. n * radix + the (to_digit radix c)) n ds)"
proof (induction ds arbitrary: n)
  case (Cons c ds)
  show ?case
  proof (cases "to_digit radix c")
    case (Some d)
    define m where "m = n * radix + d"
    let ?s = "if positive then 1 else - 1 :: int"
    have g: "m \<le> foldl (\<lambda>n c. n * radix + the (to_digit radix c)) m ds" by (rule foldl_grows [OF assms])
    have s: "(if positive then int k else - int k) = ?s * int k" for k by simp
    have le: "n * radix \<le> m" by (simp add: m_def)
    have down: "in_i64 (?s * int k)" if "in_i64 (?s * int l)" "k \<le> l" for k l
      using that by (auto simp: in_i64_def i64_min_def i64_max_def)
    have t: "?s * int n * int radix = ?s * int (n * radix)"
      "(if positive then ?s * int (n * radix) + int d else ?s * int (n * radix) - int d) = ?s * int m"
      by (simp_all add: m_def)
    have r: "read_digits radix positive (?s * int n) (c # ds) = (if in_i64 (?s * int m) then read_digits radix positive (?s * int m) ds
        else Inl (if positive then PosOverflow else NegOverflow))"
      unfolding read_digits.simps Let_def Some option.case t using down [OF _ le] by auto
    show ?thesis
    proof (cases "in_i64 (?s * int m)")
      case True
      then show ?thesis using Cons.IH [of m] r Some unfolding s by (simp add: m_def)
    next
      case False
      then have "\<not> in_i64 (?s * int (foldl (\<lambda>n c. n * radix + the (to_digit radix c)) m ds))" using down g by blast
      then show ?thesis using False r Some unfolding s by (auto simp: m_def)
    qed
  qed (simp add: Let_def)
qed auto

lemma read_digits_value:
  assumes "0 < radix" "ds \<noteq> []"
  shows "read_digits radix positive 0 ds = Inr i \<longleftrightarrow>
    map_option (\<lambda>n. if positive then int n else - int n) (digits_value radix ds) = Some i \<and> in_i64 i"
  using read_digits_exact [OF assms(1), of positive 0 ds i] assms(2)
  by (auto simp: digits_value_def in_i64_def i64_min_def i64_max_def)

lemma from_str_radix_exact:
  assumes "0 < radix"
  shows "from_str_radix radix s = Inr i \<longleftrightarrow> number_of radix s = Some i \<and> in_i64 i"
proof (cases s)
  case Nil
  then show ?thesis by (simp add: from_str_radix_def number_of_def digits_value_def)
next
  case (Cons c rest)
  have e: "digits_value radix [] = None" by (simp add: digits_value_def)
  show ?thesis
  proof (cases "c = CHR ''+'' \<or> c = CHR ''-''")
    case True
    then show ?thesis using Cons e read_digits_value [OF assms, of rest "c = CHR ''+''"]
      by (cases "rest = []") (auto simp: from_str_radix_def number_of_def)
  next
    case False
    then show ?thesis using Cons read_digits_value [OF assms, of s True]
      by (simp add: from_str_radix_def number_of_def del: read_digits.simps)
  qed
qed

lemma to_digit_char: "d < 10 \<Longrightarrow> to_digit 10 (digit_char d) = Some d"
  by (simp add: to_digit_def digit_char_def)

lemma show_nat_value: "digits_value 10 (show_nat n) = Some n"
proof (induction n rule: show_nat.induct)
  case (1 n)
  show ?case
  proof (cases "n < 10")
    case True
    then show ?thesis by (simp add: show_nat.simps [of n] digits_value_def to_digit_char)
  next
    case False
    then have "list_all (\<lambda>c. to_digit 10 c \<noteq> None) (show_nat (n div 10)) \<and>
        foldl (\<lambda>n c. n * 10 + the (to_digit 10 c)) 0 (show_nat (n div 10)) = n div 10"
      using 1 by (simp add: digits_value_def split: if_splits)
    then show ?thesis using False by (simp add: show_nat.simps [of n] digits_value_def to_digit_char)
  qed
qed

lemma show_nat_digits: "c \<in> set (show_nat n) \<Longrightarrow> \<exists>d < 10. c = digit_char d"
proof (induction n rule: show_nat.induct)
  case (1 n)
  then show ?case using mod_less_divisor [of 10 n] by (cases "n < 10") (auto simp: show_nat.simps [of n] intro: exI [of _ "n mod 10"])
qed

lemma show_nat_not_Nil: "show_nat n \<noteq> []"
  by (simp add: show_nat.simps [of n])

lemma digit_char_code: "d < 10 \<Longrightarrow> of_char (digit_char d) = 48 + d"
  by (simp add: digit_char_def)

lemma show_int_number: "number_of 10 (show_int k) = Some k"
proof (cases "k < 0")
  case True
  then show ?thesis by (simp add: show_int_def number_of_def show_nat_value)
next
  case False
  have "hd (show_nat n) \<noteq> CHR ''-'' \<and> hd (show_nat n) \<noteq> CHR ''+''" for n
  proof -
    obtain d where d: "d < 10" "hd (show_nat n) = digit_char d" using show_nat_digits hd_in_set [OF show_nat_not_Nil] by blast
    have "of_char (digit_char d) \<noteq> (45 :: nat) \<and> of_char (digit_char d) \<noteq> (43 :: nat)" using digit_char_code [OF d(1)] by simp
    then show ?thesis using d(2) by auto
  qed
  then show ?thesis using False by (simp add: show_int_def number_of_def show_nat_value)
qed

lemma show_int_ascii: "c \<in> set (show_int k) \<Longrightarrow> 0 < (of_char c :: nat) \<and> (of_char c :: nat) < 128"
  using show_nat_digits digit_char_code by (fastforce simp: show_int_def split: if_splits)

lemma ascii_text:
  assumes "\<And>c. c \<in> set s \<Longrightarrow> 0 < (of_char c :: nat) \<and> (of_char c :: nat) < 128"
  shows "c_string s = Some s \<and> to_string_lossy (bytes_of_text s) = s"
proof -
  have v: "b \<noteq> 0 \<and> b < 0x80" if b: "b \<in> set (bytes_of_text s)" for b
  proof -
    obtain c where c: "c \<in> set s" "b = of_nat (of_char c)" using b by (auto simp: bytes_of_text_def)
    then have "unat b = of_char c" using assms [OF c(1)] by (simp add: octet_nat)
    then show ?thesis using assms [OF c(1)] by (auto simp: octet_less)
  qed
  then have "utf8_valid (bytes_of_text s)" "no_nul s" by (auto simp: ascii_valid no_nul_def)
  moreover have "c_octets (bytes_of_text s) = bytes_of_text s" using v by (simp add: c_octets_def takeWhile_eq_all_conv)
  ultimately show ?thesis by (simp add: to_string_lossy_def lossy_id c_string_def no_nul_char)
qed

lemma ascii_chars:
  assumes "\<And>c. c \<in> set s \<Longrightarrow> (of_char c :: nat) < 128"
  shows "chars s = map of_char s" "from_chars (map of_char s) = s"
proof -
  have e: "encode (map of_char s) = bytes_of_text s" using assms
    by (induction s) (simp_all add: encode_char_def bytes_of_text_def)
  show "from_chars (map of_char s) = s" by (simp add: from_chars_def e)
  have "is_scalar c" if "c \<in> set (map of_char s)" for c using assms that by (force simp: is_scalar_def)
  then show "chars s = map of_char s" using chars_encode [of "map of_char s" "[]"] by (simp add: chars_def e)
qed

lemma trim_plain:
  assumes "\<And>c. c \<in> set s \<Longrightarrow> 32 < (of_char c :: nat) \<and> (of_char c :: nat) < 128"
  shows "trim s = s"
proof -
  have w: "\<not> is_whitespace n" if "32 < n" "n < 128" for n using that by (auto simp: is_whitespace_def)
  have k: "dropWhile is_whitespace cs = cs" if "set cs \<subseteq> of_char ` set s" for cs
    using that assms w by (cases cs) auto
  have "chars s = map of_char s" using assms by (intro ascii_chars(1)) blast
  moreover have "from_chars (map of_char s) = s" using assms by (intro ascii_chars(2)) blast
  ultimately show ?thesis using k [of "map of_char s"] k [of "rev (map of_char s)"] by (simp add: trim_def)
qed

text \<open>C29. Reading a number is exact. A string reads as an integer exactly when it spells a decimal
  numeral, with or without a sign, whose value fits 64 bits, and the answer is that value; a string
  reads as a byte exactly when, trimmed and without its radix prefix, it spells a value from 0 to 255.
  Every integer the runtime prints it reads back.\<close>

theorem string_numbers:
  "(string_to_int s = Ok i \<longleftrightarrow> number_of 10 s = Some i \<and> in_i64 i) \<and>
   (string_to_byte s = Ok i \<longleftrightarrow> 0 \<le> i \<and> i \<le> 255 \<and>
      number_of (snd (split_radix (trim s))) (fst (split_radix (trim s))) = Some i) \<and>
   (in_i64 k \<longrightarrow> mux_string_to_int (map_option bytes_of_text (mux_int_to_string k)) h = Some (plain_return (Ok (VInt k)) h))"
proof (intro conjI impI)
  show n: "string_to_int s = Ok i \<longleftrightarrow> number_of 10 s = Some i \<and> in_i64 i" for s i
    using from_str_radix_exact [of 10 s i] by (auto simp: string_to_int_def split: sum.split)
  obtain ds radix where r: "split_radix (trim s) = (ds, radix)" by fastforce
  then have "0 < radix" by (auto simp: split_radix_def split: if_splits)
  moreover have "in_i64 i" if "0 \<le> i \<and> i \<le> 255" using that by (simp add: in_i64_def i64_min_def i64_max_def)
  ultimately show "string_to_byte s = Ok i \<longleftrightarrow> 0 \<le> i \<and> i \<le> 255 \<and>
      number_of (snd (split_radix (trim s))) (fst (split_radix (trim s))) = Some i"
    using from_str_radix_exact [of radix ds] r by (auto simp: string_to_byte_def Let_def split: sum.splits)
  show "mux_string_to_int (map_option bytes_of_text (mux_int_to_string k)) h = Some (plain_return (Ok (VInt k)) h)" if "in_i64 k"
    using that n [of "show_int k" k] show_int_number ascii_text [of "show_int k", OF show_int_ascii]
    by (simp add: mux_string_to_int_def mux_int_to_string_def)
qed

theorem string_numbers_witness:
  "mux_string_to_int (map_option bytes_of_text (mux_int_to_string (- 42))) (undefined :: heap) =
     Some (plain_return (Ok (VInt (- 42))) undefined) \<and>
   string_to_byte ''0x1f'' = Ok 31"
proof -
  have "in_i64 (- 42)" by (simp add: in_i64_def i64_min_def i64_max_def)
  moreover have "number_of (snd (split_radix (trim ''0x1f''))) (fst (split_radix (trim ''0x1f''))) = Some 31"
    by (subst (1 2) trim_plain) (auto simp: split_radix_def number_of_def digits_value_def to_digit_def)
  ultimately show ?thesis using string_numbers [of "''0x1f''" 31 "- 42" "undefined :: heap"] by simp
qed

theorem string_order_witness:
  "mux_string_compare None (Some [0xC3, 0xA9]) \<le> 0 \<and>
   mux_string_compare (Some [0xC3, 0xA9]) (Some [0xC3, 0xA9]) = 0"
proof -
  have "mux_string_compare None (Some [65]) \<le> 0" by (simp add: mux_string_compare_def)
  moreover have "mux_string_compare (Some [65]) (Some [0xC3, 0xA9]) \<le> 0"
    by (simp add: mux_string_compare_def string_compare_def to_string_lossy_def c_octets_def utf8_lossy.simps utf8_tail_def
        utf8_complete_def utf8_width_def between_def second_ok_def text_of_bytes_def string_cmp_def ordering_int_def cmp_of_def Let_def)
  moreover have "mux_string_equal (Some [0xC3, 0xA9]) (Some [0xC3, 0xA9]) = 1" by (simp add: mux_string_equal_def)
  ultimately show ?thesis using string_order [of "Some [65]" None "Some [0xC3, 0xA9]"]
      string_order [of "Some [0xC3, 0xA9]" "Some [0xC3, 0xA9]"] by blast
qed

end
