(* ===== verification/Cli_Parser.thy ===== *)
theory Cli_Parser
  imports Strings Bytes_Core
begin

text \<open>
  The command-line parser (\<open>src/src/cli.rs\<close>): the parser and its options, response files, the parsing
  of arguments and the help text. The parsers are a table by identifier, in which a parser names its
  subcommands. What comes from outside is the record \<open>cli_world\<close>: the files that can be opened, the
  environment variables that hold a text, and the callbacks of the compiled program.

  A remaining argument list stands for the argument vector with the index into it. A result inside
  \<^term>\<open>None\<close> is a parse that did not end within the given depth of subcommands.
\<close>

record cli_world =
  cw_file :: "string \<Rightarrow> u8 list rresult"
  cw_var :: "string \<Rightarrow> string option"
  cw_callback :: "nat \<Rightarrow> string \<Rightarrow> string rresult"

record option_spec =
  op_name :: string
  op_short :: "nat option"
  op_takes_value :: bool
  op_required :: bool
  op_env :: "string option"
  op_default :: "string option"
  op_multiple :: bool
  op_conflicts :: "string list"
  op_requires :: "string list"
  op_aliases :: "string list"
  op_group :: "string option"
  op_parser :: "nat option"

record parser_entry =
  pe_program :: string
  pe_about :: string
  pe_version :: "string option"
  pe_options :: "option_spec list"
  pe_positionals :: "(string \<times> bool) list"
  pe_children :: "(string \<times> int) list"
  pe_response_files :: bool
  pe_names :: nat

type_synonym cli_table = "int \<Rightarrow> parser_entry option"
type_synonym cli_values = "string \<Rightarrow> string list option"

datatype matches_entry = Matches
  (me_values: cli_values) (me_positionals: "string list") (me_help: string)
  (me_subcommand: "string option") (me_subcommand_matches: "matches_entry option") (me_names: nat)

subsection \<open>Response files\<close>

record token_state =
  ts_tokens :: "nat list list"
  ts_current :: "nat list"
  ts_quote :: "nat option"
  ts_escaped :: bool
  ts_comment :: bool

definition escapes :: "nat list \<Rightarrow> bool" where
  "escapes rest = (case rest of [] \<Rightarrow> True | c # _ \<Rightarrow> is_whitespace c \<or> c \<in> {92, 39, 34, 35})"

definition token_step :: "nat \<Rightarrow> nat list \<Rightarrow> token_state \<Rightarrow> token_state" where
  "token_step c rest t =
     (if ts_comment t then (if c = 10 then t\<lparr>ts_comment := False\<rparr> else t)
      else if ts_escaped t then t\<lparr>ts_current := ts_current t @ [c], ts_escaped := False\<rparr>
      else case ts_quote t of
        Some q \<Rightarrow>
          (if c = 92 \<and> escapes rest then t\<lparr>ts_escaped := True\<rparr>
           else if c = 92 then t\<lparr>ts_current := ts_current t @ [92]\<rparr>
           else if c = q then t\<lparr>ts_quote := None\<rparr>
           else t\<lparr>ts_current := ts_current t @ [c]\<rparr>)
      | None \<Rightarrow>
          (if c = 92 \<and> escapes rest then t\<lparr>ts_escaped := True\<rparr>
           else if c = 92 then t\<lparr>ts_current := ts_current t @ [92]\<rparr>
           else if c = 39 \<or> c = 34 then t\<lparr>ts_quote := Some c\<rparr>
           else if c = 35 \<and> ts_current t = [] then t\<lparr>ts_comment := True\<rparr>
           else if is_whitespace c then
             (if ts_current t \<noteq> [] then t\<lparr>ts_tokens := ts_tokens t @ [ts_current t], ts_current := []\<rparr> else t)
           else t\<lparr>ts_current := ts_current t @ [c]\<rparr>))"

fun token_loop :: "nat list \<Rightarrow> token_state \<Rightarrow> token_state" where
  "token_loop [] t = t"
| "token_loop (c # rest) t = token_loop rest (token_step c rest t)"

definition tokenize_response_file :: "string \<Rightarrow> string list rresult" where
  "tokenize_response_file source =
     (let t = token_loop (chars source) \<lparr>ts_tokens = [], ts_current = [], ts_quote = None, ts_escaped = False, ts_comment = False\<rparr>
      in if ts_escaped t then Err ''response file ends with an escape''
         else if ts_quote t \<noteq> None then Err ''response file has an unterminated quote''
         else Ok (map from_chars (if ts_current t \<noteq> [] then ts_tokens t @ [ts_current t] else ts_tokens t)))"

definition max_response_depth :: nat where "max_response_depth = 8"
definition max_response_file_bytes :: nat where "max_response_file_bytes = 16 * 1024 * 1024"
definition max_response_arguments :: nat where "max_response_arguments = 1000000"

record response_budget =
  rb_bytes :: nat
  rb_arguments :: nat
  rb_limit :: nat

definition quoted :: "string \<Rightarrow> string" where
  "quoted s = [CHR 0x27] @ s @ [CHR 0x27]"

definition new_budget :: "nat \<Rightarrow> nat \<Rightarrow> response_budget" where
  "new_budget max_bytes max_arguments = \<lparr>rb_bytes = max_bytes, rb_arguments = max_arguments, rb_limit = max_arguments\<rparr>"

definition consume_bytes :: "string \<Rightarrow> nat \<Rightarrow> response_budget \<Rightarrow> response_budget rresult" where
  "consume_bytes path bytes b =
     (if bytes > rb_bytes b then Err (''response files exceed the aggregate byte limit while reading '' @ quoted path)
      else Ok (b\<lparr>rb_bytes := rb_bytes b - bytes\<rparr>))"

definition consume_argument :: "response_budget \<Rightarrow> response_budget rresult" where
  "consume_argument b =
     (if rb_arguments b = 0 then
        Err (''expanded response arguments exceed '' @
          (if rb_limit b = max_response_arguments then ''one million'' else show_nat (rb_limit b)) @ '' entries'')
      else Ok (b\<lparr>rb_arguments := rb_arguments b - 1\<rparr>))"

definition response_file_limit_error :: "string \<Rightarrow> nat \<Rightarrow> string" where
  "response_file_limit_error path max_bytes =
     (if max_bytes = max_response_file_bytes then ''response file '' @ quoted path @ '' exceeds the 16 MiB limit''
      else ''response file '' @ quoted path @ '' exceeds the '' @ show_nat max_bytes @ ''-byte limit'')"

definition read_response_file ::
  "cli_world \<Rightarrow> string \<Rightarrow> nat \<Rightarrow> response_budget \<Rightarrow> (string \<times> response_budget) rresult" where
  "read_response_file W path max_file_bytes b = (case cw_file W path of
       Inl e \<Rightarrow> Err (''failed to read response file '' @ quoted path @ '': '' @ e)
     | Inr content \<Rightarrow>
         let least = min max_file_bytes (rb_bytes b) in
         if least \<ge> usize_max then Err ''response file byte limit is too large''
         else let source = take (Suc least) content in
              if length source > max_file_bytes then Err (response_file_limit_error path max_file_bytes)
              else (case consume_bytes path (length source) b of
                  Inl e \<Rightarrow> Err e
                | Inr b' \<Rightarrow> (case from_utf8 source of
                      None \<Rightarrow> Err (''response file '' @ quoted path @ '' must be valid UTF-8'')
                    | Some s \<Rightarrow> Ok (s, b'))))"

text \<open>One argument at a time; a nested file goes one level down.\<close>

function expand_with_budget ::
  "cli_world \<Rightarrow> nat \<Rightarrow> nat \<Rightarrow> string list \<Rightarrow> response_budget \<Rightarrow> (string list \<times> response_budget) rresult" where
  "expand_with_budget W depth max_file_bytes args b =
     (if depth > max_response_depth then
        Err (''response file nesting exceeds '' @ show_nat max_response_depth @ '' levels'')
      else case args of
        [] \<Rightarrow> Ok ([], b)
      | argument # rest \<Rightarrow>
          let single = (\<lambda>text. case consume_argument b of
                Inl e \<Rightarrow> Err e
              | Inr b1 \<Rightarrow> (case expand_with_budget W depth max_file_bytes rest b1 of
                    Inl e \<Rightarrow> Err e
                  | Inr (more_args, b2) \<Rightarrow> Ok (text # more_args, b2)))
          in if prefix ''@@'' argument then single (''@'' @ drop 2 argument)
             else if \<not> (prefix ''@'' argument \<and> drop 1 argument \<noteq> []) then single argument
             else let path = drop 1 argument in
               (case read_response_file W path max_file_bytes b of
                  Inl e \<Rightarrow> Err e
                | Inr (source, b1) \<Rightarrow> (case tokenize_response_file source of
                      Inl e \<Rightarrow> Err (''invalid response file '' @ quoted path @ '': '' @ e)
                    | Inr nested \<Rightarrow> (case expand_with_budget W (depth + 1) max_file_bytes nested b1 of
                          Inl e \<Rightarrow> Err e
                        | Inr (inner, b2) \<Rightarrow> (case expand_with_budget W depth max_file_bytes rest b2 of
                              Inl e \<Rightarrow> Err e
                            | Inr (more_args, b3) \<Rightarrow> Ok (inner @ more_args, b3))))))"
  by pat_completeness auto
termination
  by (relation "measures [\<lambda>(W, depth, m, args, b). Suc max_response_depth - depth, \<lambda>(W, depth, m, args, b). length args]") auto

declare expand_with_budget.simps [simp del]

definition expand_response_files :: "cli_world \<Rightarrow> string list \<Rightarrow> nat \<Rightarrow> string list rresult" where
  "expand_response_files W args depth =
     map_sum id fst (expand_with_budget W depth max_response_file_bytes args
       (new_budget max_response_file_bytes max_response_arguments))"

subsection \<open>Options\<close>

definition option_text :: "string \<Rightarrow> string" where
  "option_text name = [CHR 0x27] @ ''--'' @ name @ [CHR 0x27]"

definition push_value :: "string \<Rightarrow> string \<Rightarrow> cli_values \<Rightarrow> cli_values" where
  "push_value name v vals = vals(name \<mapsto> (case vals name of None \<Rightarrow> [] | Some vs \<Rightarrow> vs) @ [v])"

definition record_option :: "option_spec \<Rightarrow> string \<Rightarrow> string \<Rightarrow> cli_values \<Rightarrow> cli_values rresult" where
  "record_option opt display v vals =
     (if \<not> op_multiple opt \<and> vals (op_name opt) \<noteq> None
      then Err (''option '' @ quoted display @ '' was provided more than once'')
      else Ok (push_value (op_name opt) v vals))"

definition next_option_value :: "string list \<Rightarrow> string \<Rightarrow> (string \<times> string list) rresult" where
  "next_option_value rest e = (case rest of [] \<Rightarrow> Err e | v # rest' \<Rightarrow> Ok (v, rest'))"

definition find_long_option :: "parser_entry \<Rightarrow> string \<Rightarrow> option_spec rresult" where
  "find_long_option entry name = (case find (\<lambda>opt. op_name opt = name \<or> name \<in> set (op_aliases opt)) (pe_options entry) of
       Some opt \<Rightarrow> Ok opt
     | None \<Rightarrow> Err (''unknown option '' @ option_text name))"

definition long_option_value ::
  "option_spec \<Rightarrow> string option \<Rightarrow> string list \<Rightarrow> string \<Rightarrow> (string \<times> string list) rresult" where
  "long_option_value opt inline rest name = (case (op_takes_value opt, inline) of
       (True, Some v) \<Rightarrow> Ok (v, rest)
     | (True, None) \<Rightarrow> next_option_value rest (''option '' @ option_text name @ '' requires a value'')
     | (False, Some _) \<Rightarrow> Err (''option '' @ option_text name @ '' does not take a value'')
     | (False, None) \<Rightarrow> Ok (''true'', rest))"

definition split_once :: "char \<Rightarrow> string \<Rightarrow> string \<times> string option" where
  "split_once sep s = (if sep \<in> set s then (takeWhile (\<lambda>c. c \<noteq> sep) s, Some (tl (dropWhile (\<lambda>c. c \<noteq> sep) s))) else (s, None))"

definition parse_long_option ::
  "parser_entry \<Rightarrow> string \<Rightarrow> string list \<Rightarrow> cli_values \<Rightarrow> (cli_values \<times> string list) rresult" where
  "parse_long_option entry arg rest vals =
     (let (name, inline) = split_once (CHR ''='') (drop 2 arg) in
      case find_long_option entry name of
        Inl e \<Rightarrow> Err e
      | Inr opt \<Rightarrow> (case long_option_value opt inline rest name of
            Inl e \<Rightarrow> Err e
          | Inr (v, rest') \<Rightarrow> map_sum id (\<lambda>vs. (vs, rest')) (record_option opt (''--'' @ name) v vals)))"

definition find_short_option :: "parser_entry \<Rightarrow> nat \<Rightarrow> option_spec rresult" where
  "find_short_option entry short = (case find (\<lambda>opt. op_short opt = Some short) (pe_options entry) of
       Some opt \<Rightarrow> Ok opt
     | None \<Rightarrow> Err (''unknown option '' @ quoted (''-'' @ from_chars [short])))"

text \<open>The value of a short option, the characters left in its bundle and the arguments left.\<close>

definition short_option_value ::
  "bool \<Rightarrow> nat list \<Rightarrow> string list \<Rightarrow> nat \<Rightarrow> (string \<times> nat list \<times> string list) rresult" where
  "short_option_value takes_value cs rest short =
     (if \<not> takes_value then Ok (''true'', cs, rest)
      else if cs = [] then
        map_sum id (\<lambda>(v, rest'). (v, [], rest'))
          (next_option_value rest (''option '' @ quoted (''-'' @ from_chars [short]) @ '' requires a value''))
      else Ok (from_chars cs, [], rest))"

function parse_short_options ::
  "parser_entry \<Rightarrow> nat list \<Rightarrow> string list \<Rightarrow> cli_values \<Rightarrow> (cli_values \<times> string list) rresult" where
  "parse_short_options entry [] rest vals = Ok (vals, rest)"
| "parse_short_options entry (short # cs) rest vals = (case find_short_option entry short of
       Inl e \<Rightarrow> Err e
     | Inr opt \<Rightarrow> (case short_option_value (op_takes_value opt) cs rest short of
           Inl e \<Rightarrow> Err e
         | Inr (v, cs', rest') \<Rightarrow>
             if \<not> op_takes_value opt \<and> cs' \<noteq> [] then
               parse_short_options entry cs' rest' (push_value (op_name opt) v vals)
             else (case record_option opt (''-'' @ from_chars [short]) v vals of
                 Inl e \<Rightarrow> Err e
               | Inr vals' \<Rightarrow> parse_short_options entry cs' rest' vals')))"
  by pat_completeness auto
termination
proof (relation "measure (\<lambda>(entry, cs, rest, vals). length cs)", goal_cases)
  case 1 show ?case by simp
qed (auto simp: short_option_value_def next_option_value_def split: if_splits sum.splits list.splits)

lemma map_sum_Inr: "map_sum id f r = Inr y \<longleftrightarrow> (\<exists>x. r = Inr x \<and> y = f x)"
  by (cases r) auto

lemma next_rest: "next_option_value rest e = Inr (v, rest') \<Longrightarrow> length rest' \<le> length rest"
  by (auto simp: next_option_value_def split: list.splits)

lemma parse_long_rest: "parse_long_option entry arg rest vals = Inr (vals', rest') \<Longrightarrow> length rest' \<le> length rest"
  by (auto simp: parse_long_option_def long_option_value_def map_sum_Inr dest!: next_rest split: prod.splits sum.splits bool.splits option.splits)

lemma parse_short_rest: "parse_short_options entry cs rest vals = Inr (vals', rest') \<Longrightarrow> length rest' \<le> length rest"
proof (induction entry cs rest vals rule: parse_short_options.induct)
  case (2 entry short cs rest vals)
  obtain opt where o: "find_short_option entry short = Inr opt" using "2.prems" by (auto split: sum.splits)
  obtain v cs' rest1 where s: "short_option_value (op_takes_value opt) cs rest short = Inr (v, cs', rest1)"
    using "2.prems" o by (auto split: sum.splits)
  then have "length rest1 \<le> length rest"
    by (auto simp: short_option_value_def map_sum_Inr dest!: next_rest split: if_splits)
  moreover have "length rest' \<le> length rest1"
    using "2.prems" "2.IH" [OF o s refl refl] o s by (auto split: if_splits sum.splits)
  ultimately show ?case by simp
qed simp

subsection \<open>Defaults, callbacks and checks\<close>

fun apply_option_defaults :: "cli_world \<Rightarrow> option_spec list \<Rightarrow> cli_values \<Rightarrow> cli_values rresult" where
  "apply_option_defaults W [] vals = Ok vals"
| "apply_option_defaults W (opt # opts) vals =
     (if vals (op_name opt) \<noteq> None then apply_option_defaults W opts vals
      else case Option.bind (op_env opt) (cw_var W) of
        Some v \<Rightarrow> apply_option_defaults W opts (vals(op_name opt \<mapsto> [v]))
      | None \<Rightarrow> (case op_default opt of
            Some v \<Rightarrow> apply_option_defaults W opts (vals(op_name opt \<mapsto> [v]))
          | None \<Rightarrow> if op_required opt then Err (''missing required option '' @ option_text (op_name opt))
              else apply_option_defaults W opts vals))"

fun normalize_each :: "cli_world \<Rightarrow> nat \<Rightarrow> string \<Rightarrow> string list \<Rightarrow> string list rresult" where
  "normalize_each W callback name [] = Ok []"
| "normalize_each W callback name (raw # raws) = (case cw_callback W callback raw of
       Inl e \<Rightarrow> Err (''invalid value for '' @ option_text name @ '': '' @ e)
     | Inr v \<Rightarrow> map_sum id (\<lambda>vs. v # vs) (normalize_each W callback name raws))"

definition normalize_option_values :: "cli_world \<Rightarrow> option_spec \<Rightarrow> cli_values \<Rightarrow> cli_values rresult" where
  "normalize_option_values W opt vals = (case op_parser opt of
       None \<Rightarrow> Ok vals
     | Some callback \<Rightarrow> (case vals (op_name opt) of
           None \<Rightarrow> Ok vals
         | Some raws \<Rightarrow> map_sum id (\<lambda>vs. vals(op_name opt \<mapsto> vs)) (normalize_each W callback (op_name opt) raws)))"

fun normalize_options :: "cli_world \<Rightarrow> option_spec list \<Rightarrow> cli_values \<Rightarrow> cli_values rresult" where
  "normalize_options W [] vals = Ok vals"
| "normalize_options W (opt # opts) vals = (case normalize_option_values W opt vals of
       Inl e \<Rightarrow> Err e
     | Inr vals' \<Rightarrow> normalize_options W opts vals')"

definition validate_conflicts :: "option_spec \<Rightarrow> cli_values \<Rightarrow> unit rresult" where
  "validate_conflicts opt vals = (case find (\<lambda>name. vals name \<noteq> None) (op_conflicts opt) of
       Some name \<Rightarrow> Err (''option '' @ option_text (op_name opt) @ '' conflicts with '' @ option_text name)
     | None \<Rightarrow> Ok ())"

definition validate_requirements :: "option_spec \<Rightarrow> cli_values \<Rightarrow> unit rresult" where
  "validate_requirements opt vals = (case find (\<lambda>name. vals name = None) (op_requires opt) of
       Some name \<Rightarrow> Err (''option '' @ option_text (op_name opt) @ '' requires '' @ option_text name)
     | None \<Rightarrow> Ok ())"

fun validate_option_relationships :: "option_spec list \<Rightarrow> cli_values \<Rightarrow> unit rresult" where
  "validate_option_relationships [] vals = Ok ()"
| "validate_option_relationships (opt # opts) vals =
     (if vals (op_name opt) = None then validate_option_relationships opts vals
      else case validate_conflicts opt vals of
        Inl e \<Rightarrow> Err e
      | Inr _ \<Rightarrow> (case validate_requirements opt vals of
            Inl e \<Rightarrow> Err e
          | Inr _ \<Rightarrow> validate_option_relationships opts vals))"

definition validate_positionals :: "parser_entry \<Rightarrow> string list \<Rightarrow> unit rresult" where
  "validate_positionals entry positionals =
     (case find (\<lambda>(i, name, required). required \<and> length positionals \<le> i) (enumerate 0 (pe_positionals entry)) of
        Some (_, name, _) \<Rightarrow> Err (''missing required positional '' @ quoted name)
      | None \<Rightarrow> Ok ())"

subsection \<open>Help\<close>

definition append_program_description :: "parser_entry \<Rightarrow> string \<Rightarrow> string" where
  "append_program_description entry t =
     (let t1 = (if pe_program entry \<noteq> [] then t @ pe_program entry else t) in
      if pe_about entry = [] then t1
      else (if t1 \<noteq> [] then t1 @ [CHR 10, CHR 10] else t1) @ pe_about entry)"

definition append_option :: "option_spec \<Rightarrow> string \<Rightarrow> string" where
  "append_option opt t =
     t @ ''  --'' @ op_name opt @
     (case op_short opt of Some c \<Rightarrow> '', -'' @ from_chars [c] | None \<Rightarrow> []) @
     concat (map (\<lambda>a. '', --'' @ a) (op_aliases opt)) @
     (if op_takes_value opt then '' <value>'' else []) @ (if op_required opt then '' (required)'' else []) @ [CHR 10]"

definition option_group :: "option_spec \<Rightarrow> string" where
  "option_group opt = (case op_group opt of Some g \<Rightarrow> g | None \<Rightarrow> ''Options'')"

text \<open>Groups in the order of their names, the options of a group in the order they were added.\<close>

definition append_option_groups :: "parser_entry \<Rightarrow> string \<Rightarrow> string" where
  "append_option_groups entry t =
     fold (\<lambda>g t. fold append_option (filter (\<lambda>opt. option_group opt = g) (pe_options entry))
         (t @ [CHR 10, CHR 10] @ g @ '':'' @ [CHR 10]))
       (sort_by string_cmp (remdups (map option_group (pe_options entry)))) t"

definition append_positionals :: "parser_entry \<Rightarrow> string \<Rightarrow> string" where
  "append_positionals entry t =
     (if pe_positionals entry = [] then t
      else t @ [CHR 10] @ ''Positionals:'' @ [CHR 10] @
        concat (map (\<lambda>(name, required). ''  '' @ name @ (if required then '' (required)'' else []) @ [CHR 10]) (pe_positionals entry)))"

definition append_command :: "cli_table \<Rightarrow> string \<Rightarrow> int \<Rightarrow> string \<Rightarrow> string" where
  "append_command parsers name child_id t =
     (let about = (case parsers child_id of Some child \<Rightarrow> pe_about child | None \<Rightarrow> []) in
      t @ ''  '' @ name @ (if about \<noteq> [] then ''  '' @ about else []) @ [CHR 10])"

definition append_commands :: "cli_table \<Rightarrow> parser_entry \<Rightarrow> string \<Rightarrow> string" where
  "append_commands parsers entry t =
     (if pe_children entry = [] then t
      else fold (\<lambda>(name, child_id). append_command parsers name child_id)
        (sort_by (\<lambda>a b. string_cmp (fst a) (fst b)) (pe_children entry)) (t @ [CHR 10] @ ''Commands:'' @ [CHR 10]))"

definition help_text :: "cli_table \<Rightarrow> parser_entry \<Rightarrow> string" where
  "help_text parsers entry =
     append_commands parsers entry (append_positionals entry (append_option_groups entry (append_program_description entry [])))"

subsection \<open>Parsing\<close>

record parse_state =
  st_values :: cli_values
  st_positionals :: "string list"
  st_subcommand :: "string option"
  st_matches :: "matches_entry option"

type_synonym sub_parser = "parser_entry \<Rightarrow> string list \<Rightarrow> matches_entry rresult option"

text \<open>The answer is whether to go on, as the code's loop has it.\<close>

definition parse_positional ::
  "sub_parser \<Rightarrow> cli_table \<Rightarrow> parser_entry \<Rightarrow> string \<Rightarrow> string list \<Rightarrow> parse_state \<Rightarrow> (bool \<times> parse_state) rresult option" where
  "parse_positional sub parsers entry arg rest st =
     (case (if st_subcommand st = None \<and> st_positionals st = [] then find (\<lambda>(name, _). name = arg) (pe_children entry) else None) of
        Some (name, child_id) \<Rightarrow>
          (case parsers child_id of
             None \<Rightarrow> Some (Err (''CLI subcommand '' @ quoted name @ '' is unavailable''))
           | Some child \<Rightarrow> map_option (map_sum id (\<lambda>m. (False, st\<lparr>st_subcommand := Some name, st_matches := Some m\<rparr>))) (sub child rest))
      | None \<Rightarrow> Some (Ok (True, st\<lparr>st_positionals := st_positionals st @ [arg]\<rparr>)))"

text \<open>One step: whether to go on, whether options have ended, the arguments left and the state.\<close>

definition parse_argument ::
  "sub_parser \<Rightarrow> cli_table \<Rightarrow> parser_entry \<Rightarrow> bool \<Rightarrow> string \<Rightarrow> string list \<Rightarrow> parse_state \<Rightarrow>
     (bool \<times> bool \<times> string list \<times> parse_state) rresult option" where
  "parse_argument sub parsers entry end_options arg rest st =
     (if \<not> end_options \<and> arg = ''--'' then Some (Ok (True, True, rest, st))
      else if \<not> end_options \<and> prefix ''--'' arg \<and> length arg > 2 then
        Some (map_sum id (\<lambda>(vals, rest'). (True, end_options, rest', st\<lparr>st_values := vals\<rparr>))
          (parse_long_option entry arg rest (st_values st)))
      else if \<not> end_options \<and> prefix ''-'' arg \<and> length arg > 1 then
        Some (map_sum id (\<lambda>(vals, rest'). (True, end_options, rest', st\<lparr>st_values := vals\<rparr>))
          (parse_short_options entry (chars (drop 1 arg)) rest (st_values st)))
      else map_option (map_sum id (\<lambda>(go, st'). (go, end_options, rest, st'))) (parse_positional sub parsers entry arg rest st))"

lemma parse_argument_rest:
  "parse_argument sub parsers entry e arg rest st = Some (Inr (go, e', rest', st')) \<Longrightarrow> length rest' \<le> length rest"
  by (auto simp: parse_argument_def map_sum_Inr dest!: parse_long_rest parse_short_rest split: if_splits)

function parse_argument_list ::
  "sub_parser \<Rightarrow> cli_table \<Rightarrow> parser_entry \<Rightarrow> bool \<Rightarrow> string list \<Rightarrow> parse_state \<Rightarrow> parse_state rresult option" where
  "parse_argument_list sub parsers entry end_options [] st = Some (Ok st)"
| "parse_argument_list sub parsers entry end_options (arg # rest) st =
     (case parse_argument sub parsers entry end_options arg rest st of
        None \<Rightarrow> None
      | Some (Inl e) \<Rightarrow> Some (Err e)
      | Some (Inr (go, end_options', rest', st')) \<Rightarrow>
          if go then parse_argument_list sub parsers entry end_options' rest' st' else Some (Ok st'))"
  by pat_completeness auto
termination
  by (relation "measure (\<lambda>(sub, parsers, entry, e, args, st). length args)") (auto dest!: parse_argument_rest simp: less_Suc_eq_le)

text \<open>What \<open>parse_args\<close> does once the arguments are read.\<close>

definition finish_parse :: "cli_world \<Rightarrow> cli_table \<Rightarrow> parser_entry \<Rightarrow> parse_state \<Rightarrow> matches_entry rresult" where
  "finish_parse W parsers entry st = (case apply_option_defaults W (pe_options entry) (st_values st) of
       Inl e \<Rightarrow> Err e
     | Inr vals \<Rightarrow> (case normalize_options W (pe_options entry) vals of
           Inl e \<Rightarrow> Err e
         | Inr vals' \<Rightarrow> (case validate_option_relationships (pe_options entry) vals' of
               Inl e \<Rightarrow> Err e
             | Inr _ \<Rightarrow> (case validate_positionals entry (st_positionals st) of
                   Inl e \<Rightarrow> Err e
                 | Inr _ \<Rightarrow> Ok (Matches vals' (st_positionals st) (help_text parsers entry)
                     (st_subcommand st) (st_matches st) 1)))))"

definition start_parse :: parse_state where
  "start_parse = \<lparr>st_values = Map.empty, st_positionals = [], st_subcommand = None, st_matches = None\<rparr>"

text \<open>\<open>parse_args\<close> with a bound on the depth of nested subcommands.\<close>

primrec parse_args :: "nat \<Rightarrow> cli_world \<Rightarrow> cli_table \<Rightarrow> sub_parser" where
  "parse_args 0 W parsers entry args = None"
| "parse_args (Suc n) W parsers entry args =
     (case (if pe_response_files entry then expand_response_files W args 0 else Ok args) of
        Inl e \<Rightarrow> Some (Err e)
      | Inr args' \<Rightarrow>
          map_option (\<lambda>r. case r of Inl e \<Rightarrow> Err e | Inr st \<Rightarrow> finish_parse W parsers entry st)
            (parse_argument_list (parse_args n W parsers) parsers entry False args' start_parse))"

end
