(* ===== verification/Cli_Config.thy ===== *)
theory Cli_Config
  imports Cli_Parser
begin

text \<open>
  Configuring a parser (\<open>src/src/cli.rs\<close>). A parser handle is the identifier it holds and the text
  arguments are the texts of the string values; the object layer around both is that of the typed
  errors. An operation answers with an error and the state as it was, or with the new state.
\<close>

record cli_state =
  cs_parsers :: cli_table
  cs_next :: int

definition default_parser :: parser_entry where
  "default_parser = \<lparr>pe_program = [], pe_about = [], pe_version = None, pe_options = [], pe_positionals = [],
     pe_children = [], pe_response_files = False, pe_names = 0\<rparr>"

definition cli_next_id :: "cli_state \<Rightarrow> int \<times> cli_state" where
  "cli_next_id s = (cs_next s, s\<lparr>cs_next := (if cs_next s = i64_max then 1 else cs_next s + 1)\<rparr>)"

definition mux_cli_parser_new :: "cli_state \<Rightarrow> int \<times> cli_state" where
  "mux_cli_parser_new s = (let (i, s1) = cli_next_id s in (i, s1\<lparr>cs_parsers := (cs_parsers s1)(i \<mapsto> default_parser)\<rparr>))"

definition mutate_parser :: "int \<Rightarrow> (parser_entry \<Rightarrow> parser_entry rresult) \<Rightarrow> cli_state \<Rightarrow> unit rresult \<times> cli_state" where
  "mutate_parser i f s = (case cs_parsers s i of
       Some entry \<Rightarrow> (case f entry of
           Inr entry' \<Rightarrow> (Ok (), s\<lparr>cs_parsers := (cs_parsers s)(i \<mapsto> entry')\<rparr>)
         | Inl e \<Rightarrow> (Err e, s))
     | None \<Rightarrow> (Err ''CliParser is closed'', s))"

definition name_char :: "nat \<Rightarrow> bool" where
  "name_char c \<longleftrightarrow> 48 \<le> c \<and> c \<le> 57 \<or> 65 \<le> c \<and> c \<le> 90 \<or> 97 \<le> c \<and> c \<le> 122"

definition plain_name :: "string \<Rightarrow> bool" where
  "plain_name s \<longleftrightarrow> s \<noteq> [] \<and> list_all (\<lambda>c. name_char c \<or> c = 45 \<or> c = 95) (chars s)"

definition has_option :: "string \<Rightarrow> parser_entry \<Rightarrow> bool" where
  "has_option name entry \<longleftrightarrow> list_ex (\<lambda>opt. op_name opt = name) (pe_options entry)"

text \<open>The first option of the name is changed.\<close>

fun change_option :: "string \<Rightarrow> (option_spec \<Rightarrow> option_spec) \<Rightarrow> option_spec list \<Rightarrow> option_spec list" where
  "change_option name f [] = []"
| "change_option name f (opt # opts) = (if op_name opt = name then f opt # opts else opt # change_option name f opts)"

definition on_option :: "string \<Rightarrow> (option_spec \<Rightarrow> option_spec) \<Rightarrow> parser_entry \<Rightarrow> parser_entry rresult" where
  "on_option name f entry = (if has_option name entry then Ok (entry\<lparr>pe_options := change_option name f (pe_options entry)\<rparr>)
     else Err ''unknown CLI option'')"

definition mux_cli_parser_set_program :: "int \<Rightarrow> string \<Rightarrow> cli_state \<Rightarrow> unit rresult \<times> cli_state" where
  "mux_cli_parser_set_program i name s = (if name = [] then (Err ''program name must not be empty'', s)
     else mutate_parser i (\<lambda>entry. Ok (entry\<lparr>pe_program := name\<rparr>)) s)"

definition mux_cli_parser_set_about :: "int \<Rightarrow> string \<Rightarrow> cli_state \<Rightarrow> unit rresult \<times> cli_state" where
  "mux_cli_parser_set_about i about s = mutate_parser i (\<lambda>entry. Ok (entry\<lparr>pe_about := about\<rparr>)) s"

definition mux_cli_parser_set_version :: "int \<Rightarrow> string \<Rightarrow> cli_state \<Rightarrow> unit rresult \<times> cli_state" where
  "mux_cli_parser_set_version i version s = mutate_parser i (\<lambda>entry. Ok (entry\<lparr>pe_version := Some version\<rparr>)) s"

definition mux_cli_parser_set_response_files :: "int \<Rightarrow> bool \<Rightarrow> cli_state \<Rightarrow> unit rresult \<times> cli_state" where
  "mux_cli_parser_set_response_files i enabled s = mutate_parser i (\<lambda>entry. Ok (entry\<lparr>pe_response_files := enabled\<rparr>)) s"

definition new_option :: "string \<Rightarrow> nat option \<Rightarrow> bool \<Rightarrow> bool \<Rightarrow> option_spec" where
  "new_option name short takes_value required = \<lparr>op_name = name, op_short = short, op_takes_value = takes_value,
     op_required = required, op_env = None, op_default = None, op_multiple = False, op_conflicts = [], op_requires = [],
     op_aliases = [], op_group = None, op_parser = None\<rparr>"

definition mux_cli_parser_add_option ::
  "int \<Rightarrow> string \<Rightarrow> string \<Rightarrow> bool \<Rightarrow> bool \<Rightarrow> cli_state \<Rightarrow> unit rresult \<times> cli_state" where
  "mux_cli_parser_add_option i name short takes_value required s =
     (if \<not> plain_name name then
        (Err (''option name must contain only letters, digits, '' @ quoted ''-'' @ '' or '' @ quoted ''_'' @ '' and must not be empty''), s)
      else let cs = chars short in
        if cs \<noteq> [] \<and> (\<not> name_char (hd cs) \<or> tl cs \<noteq> []) then (Err ''short option must be one ASCII letter or digit'', s)
        else let sh = (if cs = [] then None else Some (hd cs)) in
          mutate_parser i (\<lambda>entry.
            if list_ex (\<lambda>opt. op_name opt = name \<or> op_short opt = sh \<and> sh \<noteq> None) (pe_options entry)
            then Err ''duplicate CLI option''
            else Ok (entry\<lparr>pe_options := pe_options entry @ [new_option name sh takes_value required]\<rparr>)) s)"

text \<open>The reference the parser takes on the closure is that of the closure component.\<close>

definition mux_cli_parser_set_option_parser :: "int \<Rightarrow> string \<Rightarrow> nat \<Rightarrow> cli_state \<Rightarrow> unit rresult \<times> cli_state" where
  "mux_cli_parser_set_option_parser i name callback s =
     (if callback = 0 then (Err ''option parser callback must not be null'', s)
      else mutate_parser i (on_option name (\<lambda>opt. opt\<lparr>op_parser := Some callback\<rparr>)) s)"

definition mux_cli_parser_set_option_env :: "int \<Rightarrow> string \<Rightarrow> string \<Rightarrow> cli_state \<Rightarrow> unit rresult \<times> cli_state" where
  "mux_cli_parser_set_option_env i name env s =
     mutate_parser i (on_option name (\<lambda>opt. opt\<lparr>op_env := (if env = [] then None else Some env)\<rparr>)) s"

definition mux_cli_parser_set_option_default :: "int \<Rightarrow> string \<Rightarrow> string \<Rightarrow> cli_state \<Rightarrow> unit rresult \<times> cli_state" where
  "mux_cli_parser_set_option_default i name dflt s =
     mutate_parser i (on_option name (\<lambda>opt. opt\<lparr>op_default := (if dflt = [] then None else Some dflt)\<rparr>)) s"

definition mux_cli_parser_set_option_multiple :: "int \<Rightarrow> string \<Rightarrow> bool \<Rightarrow> cli_state \<Rightarrow> unit rresult \<times> cli_state" where
  "mux_cli_parser_set_option_multiple i name multiple s =
     mutate_parser i (on_option name (\<lambda>opt. opt\<lparr>op_multiple := multiple\<rparr>)) s"

definition mux_cli_parser_set_option_conflicts :: "int \<Rightarrow> string \<Rightarrow> string \<Rightarrow> cli_state \<Rightarrow> unit rresult \<times> cli_state" where
  "mux_cli_parser_set_option_conflicts i name other s =
     (if name = other then (Err ''an option cannot conflict with itself'', s)
      else mutate_parser i (\<lambda>entry. if has_option name entry \<and> \<not> has_option other entry then Err ''unknown conflicting CLI option''
        else on_option name (\<lambda>opt. if other \<in> set (op_conflicts opt) then opt else opt\<lparr>op_conflicts := op_conflicts opt @ [other]\<rparr>) entry) s)"

definition mux_cli_parser_set_option_requires :: "int \<Rightarrow> string \<Rightarrow> string \<Rightarrow> cli_state \<Rightarrow> unit rresult \<times> cli_state" where
  "mux_cli_parser_set_option_requires i name required s =
     (if name = required then (Err ''an option cannot require itself'', s)
      else mutate_parser i (\<lambda>entry. if has_option name entry \<and> \<not> has_option required entry then Err ''unknown required CLI option''
        else on_option name (\<lambda>opt. if required \<in> set (op_requires opt) then opt else opt\<lparr>op_requires := op_requires opt @ [required]\<rparr>) entry) s)"

definition mux_cli_parser_set_option_alias :: "int \<Rightarrow> string \<Rightarrow> string \<Rightarrow> cli_state \<Rightarrow> unit rresult \<times> cli_state" where
  "mux_cli_parser_set_option_alias i name alias s =
     (if \<not> plain_name alias then
        (Err (''option alias must contain only letters, digits, '' @ quoted ''-'' @ '' or '' @ quoted ''_'' @ '' and must not be empty''), s)
      else mutate_parser i (\<lambda>entry.
        if has_option name entry \<and> list_ex (\<lambda>opt. op_name opt = alias \<or> alias \<in> set (op_aliases opt)) (pe_options entry)
        then Err ''duplicate CLI option alias''
        else on_option name (\<lambda>opt. opt\<lparr>op_aliases := op_aliases opt @ [alias]\<rparr>) entry) s)"

definition mux_cli_parser_set_option_group :: "int \<Rightarrow> string \<Rightarrow> string \<Rightarrow> cli_state \<Rightarrow> unit rresult \<times> cli_state" where
  "mux_cli_parser_set_option_group i name grp s =
     (if grp = [] then (Err ''option group must not be empty'', s)
      else mutate_parser i (on_option name (\<lambda>opt. opt\<lparr>op_group := Some grp\<rparr>)) s)"

definition mux_cli_parser_add_positional :: "int \<Rightarrow> string \<Rightarrow> bool \<Rightarrow> cli_state \<Rightarrow> unit rresult \<times> cli_state" where
  "mux_cli_parser_add_positional i name required s = mutate_parser i (\<lambda>entry.
     if name \<in> fst ` set (pe_positionals entry) then Err ''duplicate positional argument''
     else Ok (entry\<lparr>pe_positionals := pe_positionals entry @ [(name, required)]\<rparr>)) s"

text \<open>The identifier is taken before the parent is looked at, so it is spent also when the call fails.\<close>

definition mux_cli_parser_add_subcommand :: "int \<Rightarrow> string \<Rightarrow> string \<Rightarrow> cli_state \<Rightarrow> int rresult \<times> cli_state" where
  "mux_cli_parser_add_subcommand parent_id name about s =
     (if \<not> plain_name name then
        (Err (''subcommand name must contain only letters, digits, '' @ quoted ''-'' @ '' or '' @ quoted ''_'' @ '' and must not be empty''), s)
      else let (child_id, s1) = cli_next_id s in
        case cs_parsers s1 parent_id of
          None \<Rightarrow> (Err ''CliParser is closed'', s1)
        | Some parent \<Rightarrow>
            if name \<in> fst ` set (pe_children parent) then (Err ''duplicate CLI subcommand'', s1)
            else (Ok child_id, s1\<lparr>cs_parsers := (cs_parsers s1)
              (parent_id \<mapsto> parent\<lparr>pe_children := pe_children parent @ [(name, child_id)]\<rparr>,
               child_id \<mapsto> default_parser\<lparr>pe_program := name, pe_about := about, pe_names := 2\<rparr>)\<rparr>))"

subsection \<open>Handles\<close>

text \<open>Copying a handle gives a handle to the same parser, or an invalid one when the parser is gone.\<close>

definition copy_parser :: "int \<Rightarrow> cli_state \<Rightarrow> int \<times> cli_state" where
  "copy_parser i s = (case cs_parsers s i of
       Some entry \<Rightarrow> (i, s\<lparr>cs_parsers := (cs_parsers s)(i \<mapsto> entry\<lparr>pe_names := min usize_max (pe_names entry + 1)\<rparr>)\<rparr>)
     | None \<Rightarrow> (0, s))"

text \<open>The bound is on the depth of nested subcommands.\<close>

primrec release_parser_reference :: "nat \<Rightarrow> int \<Rightarrow> cli_table \<Rightarrow> cli_table option" where
  "release_parser_reference 0 i parsers = None"
| "release_parser_reference (Suc n) i parsers = (case parsers i of
       None \<Rightarrow> Some parsers
     | Some entry \<Rightarrow>
         if pe_names entry - 1 = 0 then
           fold_opt (\<lambda>(_, child_id). release_parser_reference n child_id) (pe_children entry) (parsers(i := None))
         else Some (parsers(i \<mapsto> entry\<lparr>pe_names := pe_names entry - 1\<rparr>)))"

definition drop_parser :: "nat \<Rightarrow> int \<Rightarrow> cli_state \<Rightarrow> cli_state option" where
  "drop_parser n i s = map_option (\<lambda>parsers. s\<lparr>cs_parsers := parsers\<rparr>) (release_parser_reference n i (cs_parsers s))"

end
