(* ===== verification/Cli_Properties.thy ===== *)
theory Cli_Properties
  imports Cli_Config String_Properties
begin

text \<open>
  Properties of the command-line parser (\<open>src/src/cli.rs\<close>). \<open>cli_ok\<close> is the invariant of the table
  of parsers, kept by every configuration call (\<open>cli_reach_ok\<close>); its order on identifiers bounds the depth
  of subcommands, so that a parse ends (\<open>args_return\<close>). \<open>matches_ok\<close> is what an answer promises
  (\<open>args_sound\<close>). The response files come last: a quoted token is read back, the two budgets are kept
  exactly, and a file that names itself is refused.
\<close>

subsection \<open>Reachable parsers\<close>







































subsection \<open>Parsing ends\<close>







subsection \<open>What a parse answers\<close>

















text \<open>Defaults: what was given stays, the environment comes before the declared default.\<close>

definition fallback :: "cli_world \<Rightarrow> option_spec \<Rightarrow> string option" where
  "fallback W opt = (case Option.bind (op_env opt) (cw_var W) of Some v \<Rightarrow> Some v | None \<Rightarrow> op_default opt)"

lemma defaults_step:
  "apply_option_defaults W (opt # opts) vals =
     (if vals (op_name opt) \<noteq> None then apply_option_defaults W opts vals
      else case fallback W opt of
        Some v \<Rightarrow> apply_option_defaults W opts (vals(op_name opt \<mapsto> [v]))
      | None \<Rightarrow> if op_required opt then Err (''missing required option '' @ option_text (op_name opt))
          else apply_option_defaults W opts vals)"
  by (auto simp: fallback_def split: option.split)

declare apply_option_defaults.simps(2) [simp del]

lemma defaults_cases:
  assumes "apply_option_defaults W (opt # opts) vals = Inr vals'"
  obtains "vals (op_name opt) \<noteq> None" "apply_option_defaults W opts vals = Inr vals'"
  | v where "vals (op_name opt) = None" "fallback W opt = Some v" "apply_option_defaults W opts (vals(op_name opt \<mapsto> [v])) = Inr vals'"
  | "vals (op_name opt) = None" "fallback W opt = None" "\<not> op_required opt" "apply_option_defaults W opts vals = Inr vals'"
proof -
  consider "vals (op_name opt) \<noteq> None" | v where "vals (op_name opt) = None" "fallback W opt = Some v"
    | "vals (op_name opt) = None" "fallback W opt = None" by (cases "fallback W opt") auto
  then show thesis
  proof cases
    case 1 then show ?thesis using assms that(1) by (simp add: defaults_step)
  next
    case 2 then show ?thesis using assms that(2) by (simp add: defaults_step)
  next
    case 3 then show ?thesis using assms that(3) by (simp add: defaults_step split: if_splits)
  qed
qed

lemma defaults_other: "apply_option_defaults W opts vals = Inr vals' \<Longrightarrow> n \<notin> op_name ` set opts \<or> vals n \<noteq> None \<Longrightarrow> vals' n = vals n"
proof (induction opts arbitrary: vals)
  case (Cons opt opts)
  from Cons.prems(1) show ?case
  proof (cases rule: defaults_cases)
    case 1 then show ?thesis using Cons.IH [OF 1(2)] Cons.prems(2) by auto
  next
    case (2 v) then show ?thesis using Cons.IH [OF 2(3)] Cons.prems(2) by (auto simp: fun_upd_def)
  next
    case 3 then show ?thesis using Cons.IH [OF 3(4)] Cons.prems(2) by auto
  qed
qed simp

lemma defaults_exact:
  "apply_option_defaults W opts vals = Inr vals' \<Longrightarrow> distinct (map op_name opts) \<Longrightarrow> opt \<in> set opts \<Longrightarrow>
     vals' (op_name opt) = (case vals (op_name opt) of Some vs \<Rightarrow> Some vs | None \<Rightarrow> map_option (\<lambda>v. [v]) (fallback W opt)) \<and>
     (op_required opt \<longrightarrow> vals' (op_name opt) \<noteq> None)"
proof (induction opts arbitrary: vals)
  case (Cons o1 opts)
  have d: "op_name o1 \<notin> op_name ` set opts" "distinct (map op_name opts)" using Cons.prems(2) by auto
  from Cons.prems(1) show ?case
  proof (cases rule: defaults_cases)
    case 1
    show ?thesis
    proof (cases "opt = o1")
      case True then show ?thesis using defaults_other [OF 1(2), of "op_name o1"] d(1) 1(1) by auto
    next
      case False
      then have "opt \<in> set opts" using Cons.prems(3) by simp
      then show ?thesis using Cons.IH [OF 1(2) d(2)] by blast
    qed
  next
    case (2 v)
    show ?thesis
    proof (cases "opt = o1")
      case True then show ?thesis using defaults_other [OF 2(3), of "op_name o1"] d(1) 2(1,2) by auto
    next
      case False
      then have o: "opt \<in> set opts" using Cons.prems(3) by simp
      then have "op_name opt \<noteq> op_name o1" using d(1) by (metis image_eqI)
      then have e: "(vals(op_name o1 \<mapsto> [v])) (op_name opt) = vals (op_name opt)" by simp
      show ?thesis using Cons.IH [OF 2(3) d(2) o] unfolding e .
    qed
  next
    case 3
    show ?thesis
    proof (cases "opt = o1")
      case True then show ?thesis using defaults_other [OF 3(4), of "op_name o1"] d(1) 3(1-3) by auto
    next
      case False
      then have "opt \<in> set opts" using Cons.prems(3) by simp
      then show ?thesis using Cons.IH [OF 3(4) d(2)] by blast
    qed
  qed
qed simp














subsection \<open>Response files\<close>

text \<open>A token as a response file can hold it: between quotes, with the backslash and the quote escaped.\<close>

definition quote_char :: "nat \<Rightarrow> nat list" where
  "quote_char c = (if c = 92 \<or> c = 34 then [92, c] else [c])"

definition quote_token :: "nat list \<Rightarrow> nat list" where
  "quote_token t = 34 # concat (map quote_char t) @ [34, 10]"






















lemma defaults_missing:
  "apply_option_defaults W opts vals = Inl e \<Longrightarrow> \<exists>opt \<in> set opts. op_required opt \<and> vals (op_name opt) = None \<and>
     fallback W opt = None \<and> e = ''missing required option '' @ option_text (op_name opt)"
proof (induction opts arbitrary: vals)
  case (Cons o1 opts)
  show ?case
  proof (cases "vals (op_name o1)")
    case None
    show ?thesis
    proof (cases "fallback W o1")
      case (Some v)
      then have "apply_option_defaults W opts (vals(op_name o1 \<mapsto> [v])) = Inl e" using Cons.prems None by (simp add: defaults_step)
      from Cons.IH [OF this] show ?thesis by (auto split: if_splits)
    next
      case none: None
      show ?thesis using Cons.prems Cons.IH [of vals] None none by (cases "op_required o1") (auto simp: defaults_step)
    qed
  qed (use Cons in \<open>auto simp: defaults_step\<close>)
qed simp

subsection \<open>The properties\<close>


text \<open>C33. Where an option's value comes from: what the command line gave is kept as it is, otherwise the option's
  environment variable gives the single value, otherwise its declared default; a required option that has none of the
  three is an error, and names that are not declared keep what they had.\<close>

theorem cli_option_sources:
  assumes "distinct (map op_name opts)"
  shows "(case apply_option_defaults W opts vals of
      Inr vals' \<Rightarrow> list_all (\<lambda>opt. vals' (op_name opt) =
          (case vals (op_name opt) of Some vs \<Rightarrow> Some vs | None \<Rightarrow> map_option (\<lambda>v. [v]) (fallback W opt))) opts \<and>
        (\<forall>n. n \<notin> op_name ` set opts \<longrightarrow> vals' n = vals n) \<and>
        \<not> list_ex (\<lambda>opt. op_required opt \<and> vals (op_name opt) = None \<and> fallback W opt = None) opts
    | Inl e \<Rightarrow> list_ex (\<lambda>opt. op_required opt \<and> vals (op_name opt) = None \<and> fallback W opt = None \<and>
        e = ''missing required option '' @ option_text (op_name opt)) opts)"
proof (cases "apply_option_defaults W opts vals")
  case (Inl e)
  then show ?thesis using defaults_missing [OF Inl] by (simp add: list_ex_iff)
next
  case (Inr vals')
  note x = defaults_exact [OF Inr assms]
  have "\<not> (op_required opt \<and> vals (op_name opt) = None \<and> fallback W opt = None)" if o: "opt \<in> set opts" for opt
    using x [OF o] by (metis option.simps(4) option.simps(8))
  then show ?thesis using x defaults_other [OF Inr] Inr by (simp add: list_all_iff list_ex_iff)
qed


definition bare_world :: cli_world where
  "bare_world = \<lparr>cw_file = (\<lambda>_. Inr (encode (quote_token [97, 32, 34]))), cw_var = (\<lambda>n. if n = ''HOME'' then Some ''/'' else None),
     cw_callback = (\<lambda>_ t. Inr t)\<rparr>"

theorem cli_option_sources_witness:
  "apply_option_defaults bare_world [new_option ''home'' None True True\<lparr>op_env := Some ''HOME''\<rparr>, new_option ''level'' None True False] Map.empty
     = Ok [''home'' \<mapsto> [''/'']] \<and>
   (case apply_option_defaults bare_world [new_option ''home'' None True True] Map.empty of
      Inr _ \<Rightarrow> False | Inl e \<Rightarrow> e = ''missing required option '' @ option_text ''home'')"
  using cli_option_sources [where opts = "[new_option ''home'' None True True]" and W = bare_world and vals = Map.empty]
  by (simp add: defaults_step fallback_def bare_world_def new_option_def)




text \<open>C34. A parser of the program's own is entered in the table with no name counted for its handle. After one copy of
  the handle, dropping either one takes the parser away from the other, which is answered that the parser is closed.\<close>

theorem cli_parser_handle_uncounted:
  "let (i, s1) = mux_cli_parser_new s; (j, s2) = copy_parser i s1 in
     j = i \<and> (\<exists>s3. drop_parser 1 j s2 = Some s3 \<and> cs_parsers s3 i = None \<and>
       mux_cli_parser_set_about i about s3 = (Err ''CliParser is closed'', s3))"
  by (simp add: mux_cli_parser_new_def cli_next_id_def copy_parser_def drop_parser_def default_parser_def
    mux_cli_parser_set_about_def mutate_parser_def usize_max_def)

text \<open>Two checks against doubles have a gap. An option that may be given once is refused as \<open>-v -v\<close> but
  accepted as \<open>-v -vx\<close>, with two values. And an option may be declared under another option's alias,
  where its own long name is read as the other option.\<close>

lemma cli_duplicate_checks_incomplete:
  "let e = default_parser\<lparr>pe_options := [new_option ''verbose'' (Some 118) False False, new_option ''extra'' (Some 120) False False]\<rparr>;
       twice = [''verbose'' \<mapsto> [''true'', ''true''], ''extra'' \<mapsto> [''true'']];
       first = new_option ''a'' None False False\<lparr>op_aliases := [''b'']\<rparr>;
       s = \<lparr>cs_parsers = [1 \<mapsto> default_parser\<lparr>pe_options := [first]\<rparr>], cs_next = 2\<rparr>;
       (r, s') = mux_cli_parser_add_option 1 ''b'' [] False False s
   in parse_args 1 W Map.empty e [''-v'', ''-v''] = Some (Err (''option '' @ quoted ''-v'' @ '' was provided more than once'')) \<and>
      map_option (map_sum id me_values) (parse_args 1 W Map.empty e [''-v'', ''-vx'']) = Some (Ok twice) \<and>
      r = Ok () \<and> map_option (\<lambda>e. find_long_option e ''b'') (cs_parsers s' 1) = Some (Ok first)"
proof -
  define e where "e = default_parser\<lparr>pe_options := [new_option ''verbose'' (Some 118) False False, new_option ''extra'' (Some 120) False False]\<rparr>"
  have c: "chars ''v'' = [118]" "chars ''vx'' = [118, 120]" "chars [] = []" "from_chars [118] = ''v''" "plain_name ''b''" by code_simp+
  have "parse_args 1 W Map.empty e [''-v'', ''-v''] = Some (Err (''option '' @ quoted ''-v'' @ '' was provided more than once''))"
    using c by (simp add: e_def default_parser_def new_option_def parse_argument_def start_parse_def find_short_option_def
      short_option_value_def record_option_def push_value_def)
  moreover have "map_option (map_sum id me_values) (parse_args 1 W Map.empty e [''-v'', ''-vx'']) =
      Some (Ok [''verbose'' \<mapsto> [''true'', ''true''], ''extra'' \<mapsto> [''true'']])"
    using c by (simp add: e_def default_parser_def new_option_def parse_argument_def start_parse_def find_short_option_def
      short_option_value_def record_option_def push_value_def finish_parse_def defaults_step fallback_def normalize_option_values_def
      validate_conflicts_def validate_requirements_def validate_positionals_def)
  ultimately show ?thesis using c unfolding e_def [symmetric]
    by (simp add: mux_cli_parser_add_option_def mutate_parser_def default_parser_def new_option_def find_long_option_def)
qed

end
