(* ===== verification/Math_Integers.thy ===== *)
theory Math_Integers
  imports Error_Families
begin

text \<open>
  The integer functions of \<open>src/src/math.rs\<close>: powers, greatest common divisor, least common multiple,
  square root, factorials, combinations and permutations. An \<open>i64\<close> is an \<^typ>\<open>int\<close>, a \<open>u64\<close> or \<open>u128\<close>
  a \<^typ>\<open>nat\<close> with its bound written out; \<open>chk\<close> is whether the build checks plain arithmetic.
\<close>

definition u128_max :: nat where
  "u128_max = 2 ^ 128 - 1"

subsection \<open>Powers, divisors and roots\<close>











subsection \<open>Counting\<close>

definition checked_combinatoric :: "nat \<Rightarrow> string \<Rightarrow> int rresult" where
  "checked_combinatoric n operation = (if int n \<le> i64_max then Ok (int n) else Err (operation @ '' result overflowed int''))"

definition factorial :: "int \<Rightarrow> int rresult" where
  "factorial v =
     (if v < 0 then Err ''factorial is undefined for negative integers''
      else checked_combinatoric (fold (\<lambda>factor result. min u128_max (result * factor)) [2..<Suc (nat v)] 1) ''factorial'')"

fun combinations_loop :: "nat \<Rightarrow> nat list \<Rightarrow> nat \<Rightarrow> nat rresult" where
  "combinations_loop rest [] result = Ok result"
| "combinations_loop rest (index # indices) result =
     (let numerator = result * (rest + index) in
      if numerator > u128_max then Err ''combinations result overflowed internal range''
      else combinations_loop rest indices (numerator div index))"

definition combinations :: "int \<Rightarrow> int \<Rightarrow> int rresult" where
  "combinations n k =
     (if n < 0 \<or> k < 0 \<or> k > n then Err ''combinations require 0 <= k <= n''
      else let j = nat (min k (n - k)) in
        case combinations_loop (nat n - j) [1..<Suc j] 1 of
          Inl e \<Rightarrow> Err e
        | Inr result \<Rightarrow> checked_combinatoric result ''combinations'')"

fun permutations_loop :: "nat list \<Rightarrow> nat \<Rightarrow> nat rresult" where
  "permutations_loop [] result = Ok result"
| "permutations_loop (v # vs) result =
     (if result * v > u128_max then Err ''permutations result overflowed internal range''
      else permutations_loop vs (result * v))"

text \<open>The first factor is a plain \<open>i64\<close> sum, then widened with its sign.\<close>

definition permutations :: "bool \<Rightarrow> int \<Rightarrow> int \<Rightarrow> int rresult rust_call" where
  "permutations chk n k =
     (if n < 0 \<or> k < 0 \<or> k > n then Returns (Err ''permutations require 0 <= k <= n'')
      else map_rust_call (\<lambda>first.
        case permutations_loop [nat (first mod 2 ^ 128)..<Suc (nat n)] 1 of
          Inl e \<Rightarrow> Err e
        | Inr result \<Rightarrow> checked_combinatoric result ''permutations'') (arith chk ''add'' (n - k + 1)))"

subsection \<open>Entry points\<close>

definition math_result_err :: "hooks \<Rightarrow> string \<Rightarrow> 'z err_heap_scheme \<Rightarrow> (nat \<times> 'z err_heap_scheme) option" where
  "math_result_err H detail = error_result_err H MathError StdInvalid detail []"

definition math_return :: "hooks \<Rightarrow> int rresult \<Rightarrow> 'z err_heap_scheme \<Rightarrow> (nat \<times> 'z err_heap_scheme) option" where
  "math_return H r h = (case r of Inr i \<Rightarrow> Some (mux_rc_alloc (VResult (Inr (VInt i))) h) | Inl e \<Rightarrow> math_result_err H e h)"

definition mux_math_factorial :: "hooks \<Rightarrow> int \<Rightarrow> 'z err_heap_scheme \<Rightarrow> (nat \<times> 'z err_heap_scheme) option" where
  "mux_math_factorial H v = math_return H (factorial v)"

definition mux_math_combinations :: "hooks \<Rightarrow> int \<Rightarrow> int \<Rightarrow> 'z err_heap_scheme \<Rightarrow> (nat \<times> 'z err_heap_scheme) option" where
  "mux_math_combinations H n k = math_return H (combinations n k)"

definition mux_math_permutations ::
  "hooks \<Rightarrow> bool \<Rightarrow> int \<Rightarrow> int \<Rightarrow> 'z err_heap_scheme \<Rightarrow> (nat \<times> 'z err_heap_scheme) option rust_call" where
  "mux_math_permutations H chk n k h = map_rust_call (\<lambda>r. math_return H r h) (permutations chk n k)"

subsection \<open>Laws\<close>





















end
