(* ===== verification/Random_Numbers.thy ===== *)
theory Random_Numbers
  imports Error_Families Byte_Order "HOL-Library.Multiset"
begin

unbundle bit_operations_syntax

text \<open>
  Random numbers (\<open>src/src/random.rs\<close>): the seeded generators in their table, the generator of the
  module, and what draws from them. A generator handle is the identifier it holds. The seed the system
  gives when nothing was seeded is the argument \<open>seed\<close>. A list argument is the value the pointer names,
  \<^term>\<open>None\<close> when it is null; an answer with an error carries its text, and \<open>random_return\<close> boxes both.
\<close>

type_synonym u64 = "64 word"

record random_entry =
  ra_state :: u64
  ra_refs :: nat

record random_state =
  rs_entries :: "int \<Rightarrow> random_entry option"
  rs_next :: int
  rs_initialized :: bool
  rs_module :: u64

definition rand_max :: int where "rand_max = 2147483647"
definition max_random_bytes :: int where "max_random_bytes = 16 * 1024 * 1024"

definition lcg_next :: "u64 \<Rightarrow> u64" where
  "lcg_next state = state * 6364136223846793005 + 1442695040888963407"

text \<open>The output and the state after it.\<close>

definition splitmix_next :: "u64 \<Rightarrow> u64 \<times> u64" where
  "splitmix_next state =
     (let s = state + 0x9e3779b97f4a7c15;
          v1 = (s XOR drop_bit 30 s) * 0xbf58476d1ce4e5b9;
          v2 = (v1 XOR drop_bit 27 v1) * 0x94d049bb133111eb
      in (v2 XOR drop_bit 31 v2, s))"

subsection \<open>Generators of the program\<close>

definition next_random_handle :: "random_state \<Rightarrow> int \<times> random_state" where
  "next_random_handle s = (rs_next s, s\<lparr>rs_next := (if rs_next s = i64_max then 1 else rs_next s + 1)\<rparr>)"

definition make_random :: "u64 \<Rightarrow> random_state \<Rightarrow> int \<times> random_state" where
  "make_random seed s = (let (handle, s1) = next_random_handle s in
     (handle, s1\<lparr>rs_entries := (rs_entries s1)(handle \<mapsto> \<lparr>ra_state = seed, ra_refs = 1\<rparr>)\<rparr>))"

definition mux_random_seeded :: "int \<Rightarrow> random_state \<Rightarrow> int \<times> random_state" where
  "mux_random_seeded seed = make_random (word_of_int seed)"

definition mux_random_system :: "u64 \<Rightarrow> random_state \<Rightarrow> int \<times> random_state" where
  "mux_random_system seed = make_random seed"

definition release_random :: "int \<Rightarrow> random_state \<Rightarrow> random_state" where
  "release_random handle s = (case rs_entries s handle of
       None \<Rightarrow> s
     | Some e \<Rightarrow> s\<lparr>rs_entries := (rs_entries s)(handle := (if ra_refs e - 1 = 0 then None else Some (e\<lparr>ra_refs := ra_refs e - 1\<rparr>)))\<rparr>)"

definition copy_random :: "int \<Rightarrow> random_state \<Rightarrow> int \<times> random_state" where
  "copy_random handle s = (case rs_entries s handle of
       Some e \<Rightarrow> (handle, s\<lparr>rs_entries := (rs_entries s)(handle \<mapsto> e\<lparr>ra_refs := ra_refs e + 1\<rparr>)\<rparr>)
     | None \<Rightarrow> (0, s))"

definition random_next :: "int \<Rightarrow> random_state \<Rightarrow> u64 \<times> random_state" where
  "random_next handle s = (case rs_entries s handle of
       None \<Rightarrow> (0, s)
     | Some e \<Rightarrow> let (v, st) = splitmix_next (ra_state e) in (v, s\<lparr>rs_entries := (rs_entries s)(handle \<mapsto> e\<lparr>ra_state := st\<rparr>)\<rparr>))"

definition mux_random_next_int :: "int \<Rightarrow> random_state \<Rightarrow> int \<times> random_state" where
  "mux_random_next_int handle s = (if rs_entries s handle = None then (0, s) else map_prod sint id (random_next handle s))"



definition mux_random_next_float :: "float_ops \<Rightarrow> int \<Rightarrow> random_state \<Rightarrow> f64 \<times> random_state" where
  "mux_random_next_float F handle s = (if rs_entries s handle = None then (0, s)
     else map_prod (\<lambda>v. fo_div F (fo_of_int F (uint (drop_bit 11 v))) (fo_of_int F (2 ^ 53))) id (random_next handle s))"

definition mux_random_next_bool :: "int \<Rightarrow> random_state \<Rightarrow> bool \<times> random_state" where
  "mux_random_next_bool handle s = (if rs_entries s handle = None then (False, s)
     else map_prod (\<lambda>v. v AND 1 = 0) id (random_next handle s))"

function fill_random :: "int \<Rightarrow> nat \<Rightarrow> u8 list \<Rightarrow> random_state \<Rightarrow> u8 list \<times> random_state" where
  "fill_random handle len bytes s = (if length bytes < len then
     let (v, s1) = random_next handle s in fill_random handle len (bytes @ le_bytes 8 (uint v)) s1 else (bytes, s))"
  by pat_completeness auto
termination
  by (relation "measure (\<lambda>(handle, len, bytes, s). len - length bytes)") auto

declare fill_random.simps [simp del]

definition mux_random_bytes :: "int \<Rightarrow> int \<Rightarrow> random_state \<Rightarrow> u8 list rresult \<times> random_state" where
  "mux_random_bytes handle len s =
     (if \<not> (0 \<le> len \<and> len \<le> max_random_bytes) then (Err ''length must be between 0 and 16 MiB'', s)
      else if rs_entries s handle = None then (Err ''invalid Random value'', s)
      else let (bytes, s1) = fill_random handle (nat len) [] s in (Ok (take (nat len) bytes), s1))"

subsection \<open>The generator of the module\<close>

definition mux_rand_init :: "int \<Rightarrow> random_state \<Rightarrow> random_state" where
  "mux_rand_init seed s = s\<lparr>rs_module := word_of_int seed, rs_initialized := True\<rparr>"

definition ensure_initialized :: "u64 \<Rightarrow> random_state \<Rightarrow> random_state" where
  "ensure_initialized seed s = (if rs_initialized s then s else s\<lparr>rs_module := seed, rs_initialized := True\<rparr>)"

definition mux_rand_int :: "u64 \<Rightarrow> random_state \<Rightarrow> int \<times> random_state" where
  "mux_rand_int seed s = (let s1 = ensure_initialized seed s; m = lcg_next (rs_module s1)
     in (sint (drop_bit 33 m) AND rand_max, s1\<lparr>rs_module := m\<rparr>))"

definition mux_rand_range :: "u64 \<Rightarrow> int \<Rightarrow> int \<Rightarrow> random_state \<Rightarrow> int \<times> random_state" where
  "mux_rand_range seed low high s =
     (if low \<ge> high then (low, s)
      else let range_size = high - low; (r, s1) = mux_rand_int seed s; scaled = uint (word_of_int r :: u64) * range_size div 2 ^ 31
        in (if in_i64 (low + scaled) then low + scaled else low, s1))"

definition mux_rand_float :: "float_ops \<Rightarrow> u64 \<Rightarrow> random_state \<Rightarrow> f64 \<times> random_state" where
  "mux_rand_float F seed s = (let (r, s1) = mux_rand_int seed s
     in (fo_div F (fo_of_int F r) (fo_add F (fo_of_int F rand_max) 0x3FF0000000000000), s1))"

definition mux_rand_bool :: "u64 \<Rightarrow> random_state \<Rightarrow> bool \<times> random_state" where
  "mux_rand_bool seed s = map_prod (\<lambda>r. r mod 2 = 0) id (mux_rand_int seed s)"

function fill_module :: "nat \<Rightarrow> u8 list \<Rightarrow> u64 \<Rightarrow> u8 list \<times> u64" where
  "fill_module len bytes m = (if length bytes < len then
     fill_module len (bytes @ le_bytes 8 (uint (lcg_next m))) (lcg_next m) else (bytes, m))"
  by pat_completeness auto
termination
  by (relation "measure (\<lambda>(len, bytes, m). len - length bytes)") auto

declare fill_module.simps [simp del]

definition mux_rand_bytes :: "u64 \<Rightarrow> int \<Rightarrow> random_state \<Rightarrow> u8 list rresult \<times> random_state" where
  "mux_rand_bytes seed len s =
     (if len < 0 then (Err ''length must not be negative'', s)
      else if len > max_random_bytes then (Err ''length exceeds the 16 MiB limit'', s)
      else let s1 = ensure_initialized seed s; (bytes, m) = fill_module (nat len) [] (rs_module s1)
        in (Ok (take (nat len) bytes), s1\<lparr>rs_module := m\<rparr>))"

subsection \<open>Lists\<close>

definition list_items :: "mux_value option \<Rightarrow> mux_value list option" where
  "list_items p = (case p of Some (VList items) \<Rightarrow> Some items | _ \<Rightarrow> None)"

definition mux_random_choose :: "u64 \<Rightarrow> mux_value option \<Rightarrow> random_state \<Rightarrow> mux_value option \<times> random_state" where
  "mux_random_choose seed p s = (case list_items p of
       None \<Rightarrow> (None, s)
     | Some items \<Rightarrow>
         if items = [] then (None, s)
         else let (index, s1) = mux_rand_range seed 0 (int (length items)) s
              in (if nat index < length items then Some (items ! nat index) else None, s1))"

text \<open>The swap of a slice, which panics outside of it.\<close>

definition swap_items :: "nat \<Rightarrow> nat \<Rightarrow> 'a list \<Rightarrow> 'a list rust_call" where
  "swap_items i j xs = (if i < length xs \<and> j < length xs then Returns (xs[i := xs ! j, j := xs ! i])
     else Panics ''index out of bounds'')"

fun shuffle_loop :: "u64 \<Rightarrow> nat \<Rightarrow> 'a list \<Rightarrow> random_state \<Rightarrow> ('a list \<times> random_state) rust_call" where
  "shuffle_loop seed (Suc (Suc i)) items s =
     (let (other, s1) = mux_rand_range seed 0 (int (Suc (Suc i))) s in
      case swap_items (Suc i) (nat other) items of
        Panics e \<Rightarrow> Panics e
      | Returns items' \<Rightarrow> shuffle_loop seed (Suc i) items' s1)"
| "shuffle_loop seed index items s = Returns (items, s)"

definition mux_random_shuffle :: "u64 \<Rightarrow> mux_value option \<Rightarrow> random_state \<Rightarrow> (mux_value option \<times> random_state) rust_call" where
  "mux_random_shuffle seed p s = (case list_items p of
       None \<Rightarrow> Returns (p, s)
     | Some items \<Rightarrow> map_rust_call (\<lambda>(xs, s1). (Some (VList xs), s1)) (shuffle_loop seed (length items) items s))"

fun sample_loop :: "u64 \<Rightarrow> nat \<Rightarrow> nat \<Rightarrow> nat list \<Rightarrow> random_state \<Rightarrow> (nat list \<times> random_state) rust_call" where
  "sample_loop seed target 0 indexes s = Returns (indexes, s)"
| "sample_loop seed target (Suc remaining) indexes s =
     (if Suc remaining > target then
        let (choice, s1) = mux_rand_range seed 0 (int (Suc remaining)) s in
        case swap_items (nat choice) remaining indexes of
          Panics e \<Rightarrow> Panics e
        | Returns indexes' \<Rightarrow> sample_loop seed target remaining indexes' s1
      else Returns (indexes, s))"

definition mux_random_sample :: "u64 \<Rightarrow> mux_value option \<Rightarrow> int \<Rightarrow> random_state \<Rightarrow> (mux_value list rresult \<times> random_state) rust_call" where
  "mux_random_sample seed p n s = (case list_items p of
       None \<Rightarrow> Returns (Err ''items must be a list'', s)
     | Some items \<Rightarrow>
         if n < 0 \<or> n > int (length items) then Returns (Err ''sample count must be between 0 and the list length'', s)
         else map_rust_call (\<lambda>(indexes, s1).
             (Ok (List.map_filter (\<lambda>i. if i < length items then Some (items ! i) else None) (take (nat n) indexes)), s1))
           (sample_loop seed (nat n) (length items) [0..<length items] s))"

subsection \<open>Results\<close>

definition random_result_err :: "hooks \<Rightarrow> string \<Rightarrow> 'z err_heap_scheme \<Rightarrow> (nat \<times> 'z err_heap_scheme) option" where
  "random_result_err H detail = error_result_err H RandomError StdInvalid detail []"

definition random_return :: "hooks \<Rightarrow> mux_value rresult \<Rightarrow> 'z err_heap_scheme \<Rightarrow> (nat \<times> 'z err_heap_scheme) option" where
  "random_return H r h = (case r of Inr v \<Rightarrow> Some (mux_rc_alloc (VResult (Inr v)) h) | Inl e \<Rightarrow> random_result_err H e h)"

subsection \<open>Drawing ends\<close>





subsection \<open>Ranges\<close>

lemma masked: "0 \<le> x AND rand_max \<and> x AND rand_max < 2 ^ 31"
proof -
  have "x AND rand_max = take_bit 31 x" by (simp add: rand_max_def take_bit_eq_mask mask_eq_exp_minus_1)
  then show ?thesis using take_bit_int_less_exp [of 31 x] by (simp only: take_bit_nonnegative)
qed

lemma div_below: "x < y * c \<Longrightarrow> 0 < c \<Longrightarrow> x div c < (y :: int)"
  using div_mult_mod_eq [of x c] pos_mod_sign [of c x] by (intro mult_right_less_imp_less [of "x div c" c y]) linarith+

lemma rand_range_bounds:
  assumes "low < high"
  shows "low \<le> fst (mux_rand_range seed low high s) \<and> fst (mux_rand_range seed low high s) < high"
proof -
  obtain r s1 where r: "mux_rand_int seed s = (r, s1)" by fastforce
  then have b: "0 \<le> r" "r < 2 ^ 31" using masked by (auto simp: mux_rand_int_def Let_def)
  then have u: "uint (word_of_int r :: u64) = r" by (simp add: uint_word_of_int_eq take_bit_int_eq_self)
  have "r * (high - low) \<le> (2 ^ 31 - 1) * (high - low)" using b assms by (intro mult_right_mono) auto
  also have "\<dots> < (high - low) * 2 ^ 31" using assms by (simp add: algebra_simps)
  finally have "r * (high - low) div 2 ^ 31 < high - low" by (rule div_below) simp
  moreover have "0 \<le> r * (high - low) div 2 ^ 31" using b assms by (simp add: pos_imp_zdiv_nonneg_iff)
  ultimately show ?thesis using assms r u by (auto simp: mux_rand_range_def Let_def)
qed



subsection \<open>Lists keep their items\<close>

lemma swap_returns: "i < length xs \<Longrightarrow> j < length xs \<Longrightarrow>
    \<exists>ys. swap_items i j xs = Returns ys \<and> mset ys = mset xs \<and> length ys = length xs"
  by (simp add: swap_items_def mset_swap)

lemma rand_index: "nat (fst (mux_rand_range seed 0 (int (Suc n)) s)) < Suc n"
  using rand_range_bounds [of 0 "int (Suc n)" seed s] by (simp add: nat_less_iff)

lemma shuffle_loop_returns:
  "index \<le> length items \<Longrightarrow> \<exists>xs s1. shuffle_loop seed index items s = Returns (xs, s1) \<and> mset xs = mset items"
proof (induction seed index items s rule: shuffle_loop.induct)
  case (1 seed i items s)
  obtain other s1 where o: "mux_rand_range seed 0 (int (Suc (Suc i))) s = (other, s1)" by fastforce
  obtain ys where y: "swap_items (Suc i) (nat other) items = Returns ys" "mset ys = mset items" "length ys = length items"
    using swap_returns [of "Suc i" items "nat other"] rand_index [of seed "Suc i" s] o "1.prems" by auto
  show ?case using "1.IH" [OF o [symmetric] refl y(1)] y o "1.prems" by simp
qed simp_all

lemma sample_loop_returns:
  "remaining \<le> length indexes \<Longrightarrow> \<exists>ks s1. sample_loop seed target remaining indexes s = Returns (ks, s1) \<and> mset ks = mset indexes"
proof (induction seed target remaining indexes s rule: sample_loop.induct)
  case (2 seed target remaining indexes s)
  obtain c s1 where o: "mux_rand_range seed 0 (int (Suc remaining)) s = (c, s1)" by fastforce
  obtain ys where y: "swap_items (nat c) remaining indexes = Returns ys" "mset ys = mset indexes" "length ys = length indexes"
    using swap_returns [of "nat c" indexes remaining] rand_index [of seed remaining s] o "2.prems" by auto
  show ?case using "2.IH" [OF _ o [symmetric] refl y(1)] y o "2.prems" by (cases "Suc remaining > target") simp_all
qed simp

lemma fill_random_length: "len \<le> length (fst (fill_random handle len bytes s))"
proof (induction handle len bytes s rule: fill_random.induct)
  case (1 handle len bytes s)
  then show ?case by (subst fill_random.simps) (auto split: prod.split)
qed

lemma fill_module_length: "len \<le> length (fst (fill_module len bytes m))"
proof (induction len bytes m rule: fill_module.induct)
  case (1 len bytes m)
  then show ?case by (subst fill_module.simps) auto
qed

lemma filter_all: "(\<And>i. i \<in> set ks \<Longrightarrow> i < length items) \<Longrightarrow>
    List.map_filter (\<lambda>i. if i < length items then Some (items ! i) else None) ks = map ((!) items) ks"
  by (induction ks) (simp_all add: List.map_filter_def)

lemma sample_exact:
  assumes "0 \<le> n" "n \<le> int (length items)"
  shows "\<exists>xs s1. mux_random_sample seed (Some (VList items)) n s = Returns (Ok xs, s1) \<and> length xs = nat n \<and> mset xs \<subseteq># mset items"
proof -
  obtain ks s1 where l: "sample_loop seed (nat n) (length items) [0..<length items] s = Returns (ks, s1)" "mset ks = mset [0..<length items]"
    using sample_loop_returns [of "length items" "[0..<length items]" seed "nat n" s] by auto
  have k: "set ks = {0..<length items}" "length ks = length items" using mset_eq_setD [OF l(2)] mset_eq_length [OF l(2)] by simp_all
  let ?xs = "map ((!) items) (take (nat n) ks)"
  have "mset (map ((!) items) ks) = image_mset ((!) items) (mset [0..<length items])" using l(2) by (simp only: mset_map)
  also have "\<dots> = mset items" by (metis mset_map map_nth)
  finally have "mset ?xs \<subseteq># mset items"
    by (metis append_take_drop_id map_append mset_append mset_subset_eq_add_left)
  moreover have "length ?xs = nat n" using assms k(2) by simp
  moreover have "i \<in> set (take (nat n) ks) \<Longrightarrow> i < length items" for i using k(1) by (metis atLeastLessThan_iff in_set_takeD)
  ultimately show ?thesis using assms l(1) filter_all [of "take (nat n) ks" items] by (simp add: mux_random_sample_def list_items_def)
qed

subsection \<open>The properties\<close>


definition one_generator :: random_state where
  "one_generator = snd (mux_random_seeded 7 \<lparr>rs_entries = Map.empty, rs_next = 1, rs_initialized = False, rs_module = 0\<rparr>)"



text \<open>C37. A shuffle rearranges the list it is given, a sample draws the asked number of items without
  replacement, and a choice from a list that is not empty is one of its items; no index used on the way is out of bounds.
  Random bytes come in the asked length.\<close>

theorem random_lists:
  shows "(\<exists>xs s1. mux_random_shuffle seed (Some (VList items)) s = Returns (Some (VList xs), s1) \<and> mset xs = mset items) \<and>
    (0 \<le> n \<longrightarrow> n \<le> int (length items) \<longrightarrow>
      (\<exists>xs s1. mux_random_sample seed (Some (VList items)) n s = Returns (Ok xs, s1) \<and> length xs = nat n \<and> mset xs \<subseteq># mset items)) \<and>
    (items \<noteq> [] \<longrightarrow> (\<exists>v \<in> set items. fst (mux_random_choose seed (Some (VList items)) s) = Some v)) \<and>
    (0 \<le> n \<longrightarrow> n \<le> max_random_bytes \<longrightarrow> (\<exists>bytes. fst (mux_rand_bytes seed n s) = Ok bytes \<and> length bytes = nat n)) \<and>
    (0 \<le> n \<longrightarrow> n \<le> max_random_bytes \<longrightarrow> rs_entries s handle \<noteq> None \<longrightarrow>
      (\<exists>bytes. fst (mux_random_bytes handle n s) = Ok bytes \<and> length bytes = nat n))"
proof (intro conjI impI)
  show "\<exists>xs s1. mux_random_shuffle seed (Some (VList items)) s = Returns (Some (VList xs), s1) \<and> mset xs = mset items"
    using shuffle_loop_returns [of "length items" items seed s] by (auto simp: mux_random_shuffle_def list_items_def)
next
  assume "items \<noteq> []"
  then obtain k where k: "length items = Suc k" by (cases items) auto
  obtain index s1 where "mux_rand_range seed 0 (int (length items)) s = (index, s1)" by fastforce
  moreover from this have "nat index < length items" using rand_index [of seed k s] unfolding k by simp
  ultimately show "\<exists>v \<in> set items. fst (mux_random_choose seed (Some (VList items)) s) = Some v"
    using \<open>items \<noteq> []\<close> by (simp add: mux_random_choose_def list_items_def)
next
  assume n: "0 \<le> n" "n \<le> max_random_bytes"
  then show "\<exists>bytes. fst (mux_rand_bytes seed n s) = Ok bytes \<and> length bytes = nat n"
    using fill_module_length [of "nat n" "[]"] by (auto simp: mux_rand_bytes_def Let_def split: prod.split) (metis fst_conv min.absorb2)
  assume "rs_entries s handle \<noteq> None"
  then show "\<exists>bytes. fst (mux_random_bytes handle n s) = Ok bytes \<and> length bytes = nat n"
    using n fill_random_length [of "nat n" handle "[]" s] by (auto simp: mux_random_bytes_def split: prod.split)
qed (rule sample_exact)

theorem random_lists_witness:
  "\<exists>v. fst (mux_random_choose 9 (Some (VList [VInt 4, VInt 5])) one_generator) = Some v \<and> v \<in> {VInt 4, VInt 5}"
  using random_lists [of 9 "[VInt 4, VInt 5]" one_generator 0 1] by auto

end
