(* ===== verification/Spec2Isabelle.thy ===== *)
theory Spec2Isabelle
  imports Runtime_Panic Ordered_Map_Refine Value_Properties Machine_Properties Closure_Properties
    Error_Families Error_Properties Byte_Properties Bytes_Properties Cursor_Properties Environment String_Properties Cli_Properties Math_Integers Random_Numbers
begin

text \<open>
  Verification development for the runtime of the Mux language, the library in \<open>src/src\<close> that compiled
  Mux programs call through a C interface.

  \<^bold>\<open>The program\<close>

  A compiled program handles values (\<open>Value\<close> in \<open>lib.rs\<close>) in reference-counted blocks (\<open>refcount.rs\<close>).
  Maps and sets inside values are insertion-ordered hash containers (\<open>ordered.rs\<close>), whose keys are values
  again. A value may hold a handle to an object: a buffer with a registered type, a destructor and callbacks
  for copying, comparing and hashing (\<open>object.rs\<close>). Closures capture variables through counted cells
  (\<open>closure.rs\<close>). A standard library function that fails answers with a typed error (\<open>std.rs\<close>): an object
  whose buffer holds a number, under which a table of the error's family keeps category and text. Byte
  cursors, command-line parsers and random generators use the same pattern of a numbered entry in a table.

  \<^bold>\<open>The theories\<close>

  \<^item> \<open>Prelude\<close>: \<open>i64\<close> as \<^typ>\<open>int\<close> with its range and wrap-around, results as sums with the error text on the
    left, sorting, decimal printing.
  \<^item> \<open>Runtime_Panic\<close> (\<open>panic.rs\<close>, \<open>assert.rs\<close>): failure codes and the report before the process exits.
  \<^item> \<open>Hash_Table\<close>, \<open>Ordered_Map\<close>, \<open>Ordered_Map_Laws\<close>, \<open>Ordered_Map_Refine\<close> (\<open>ordered.rs\<close>): slab, link chain,
    free list and index, one definition per method; the representation invariant; the refinement of an
    entry list in insertion order. The locale \<open>hash_table\<close> is the contract of the table crate, \<open>hash_key\<close>
    that of a key's equality and hash, \<open>insertion_map\<close> what the map promises its clients.
  \<^item> \<open>Equality_Order\<close>, \<open>Mux_Value\<close>, \<open>Value_Laws\<close>, \<open>Value_Order\<close>, \<open>Value_Keys\<close>, \<open>Value_Properties\<close> (\<open>lib.rs\<close>):
    values with equality, order, hash and display. The locales \<open>value_env\<close>, \<open>value_total\<close> and \<open>value_order\<close>
    state what a registered class must satisfy. \<open>Value_Keys\<close> closes the circle between values and maps.
  \<^item> \<open>Runtime_Heap\<close>, \<open>Heap_Laws\<close>, \<open>Heap_Objects\<close>, \<open>Heap_Clone\<close>, \<open>Heap_Calls\<close> (\<open>refcount.rs\<close>, \<open>object.rs\<close>): blocks,
    objects, buffers and the exit-time leak check, with the ownership invariant \<open>heap_ok\<close>.
  \<^item> \<open>Value_Abi\<close>, \<open>Containers\<close>, \<open>Container_Laws\<close>, \<open>Container_Safety\<close> (the value section of \<open>std.rs\<close>, \<open>list.rs\<close>,
    \<open>map.rs\<close>, \<open>set.rs\<close>, \<open>optional.rs\<close>, \<open>result.rs\<close>, \<open>tuple.rs\<close>, \<open>bool.rs\<close>, \<open>int.rs\<close>, \<open>float.rs\<close>, \<open>boxing.rs\<close>): the entry
    points on values and containers, and that each is safe on references its caller owns.
  \<^item> \<open>Runtime_Machine\<close>, \<open>Machine_Properties\<close>: a compiled program as any sequence of these calls.
  \<^item> \<open>Closures\<close>, \<open>Closure_Properties\<close> (\<open>closure.rs\<close>).
  \<^item> \<open>Byte_Order\<close>, \<open>Error_Kinds\<close>, \<open>Std_Errors\<close>, \<open>Error_Families\<close>, \<open>Error_Laws\<close>, \<open>Error_Steps\<close>, \<open>Error_Machine\<close>,
    \<open>Error_Properties\<close> (\<open>std.rs\<close>): the twenty error families over one shared model, and programs that use them.
  \<^item> \<open>Byte_Scalar\<close>, \<open>Byte_Properties\<close> (\<open>byte.rs\<close>); \<open>Utf8\<close>, \<open>Bytes_Core\<close>, \<open>Bytes_Abi\<close>, \<open>Bytes_Laws\<close>, \<open>Bytes_Properties\<close>,
    \<open>Bytes_Cursor\<close>, \<open>Cursor_Properties\<close> (\<open>bytes.rs\<close>): bytes, byte sequences and cursors over them.
  \<^item> \<open>Environment\<close> (the environment section of \<open>std.rs\<close>).
  \<^item> \<open>Unicode\<close>, \<open>Text_Search\<close>, \<open>Strings\<close>, \<open>String_Properties\<close> (\<open>string.rs\<close>): characters of a text, searching,
    and every entry point on strings.
  \<^item> \<open>Cli_Parser\<close>, \<open>Cli_Config\<close>, \<open>Cli_Properties\<close> (\<open>cli.rs\<close>): parsing, configuration and handles of the
    command-line parser.
  \<^item> \<open>Math_Integers\<close> (\<open>math.rs\<close>), \<open>Random_Numbers\<close> (\<open>random.rs\<close>).

  A definition has the name of the Rust function it translates wherever that name is free. A struct is a
  record, an enum a datatype; a function that changes state takes and returns it; \<^term>\<open>None\<close> where the code
  would read through a dead pointer, so that a call that returns \<^term>\<open>Some\<close> is memory safe; \<open>rust_call\<close>
  where it may panic.

  \<^bold>\<open>What is shown\<close>

  \<^item> Maps: insertion and removal refine the entry list, lookups obey the laws of a map, iteration ends and
    gives each entry once, equality is extensional.
  \<^item> Values: equality is an equivalence that the hash respects; the order is total and agrees with equality
    when every class with an equality has an order.
  \<^item> Memory: every call a program may make returns, counts equal the references held, a program that has
    released everything leaves no block and no object, and every program can get there. The same for
    closures and cells, and for typed errors, whose tables hold exactly the entries of live objects.
  \<^item> Data: integers, floats and variable-length integers read back as written; reads are exact; cursors stay
    inside their buffer; UTF-8 conversion is exact on valid input.
  \<^item> Strings: positions are characters and never cut one, split parts join to the string, numbers read
    exactly when they fit, comparison is the order of the characters.
  \<^item> Command line: a parse ends and its answer meets the declarations of the parser and its
    subcommands; response files are read back and bounded; values come from the right source.
  \<^item> Numbers: the integer functions are exact or report; random draws end, are in range and unbiased,
    shuffles and samples keep the items.

  \<^bold>\<open>Parameters\<close>

  What \<open>src\<close> does not contain is an argument: the record \<open>hooks\<close> (float comparison and printing, callbacks
  of classes, code the compiler emits for enums, the default hasher), \<open>float_ops\<close> (IEEE arithmetic), \<open>text_ops\<close>
  (Unicode case tables, the decimal reader), \<open>cli_world\<close> (files, environment, callbacks), the table crate of the
  map, the allocator fields of \<open>heap\<close> (which addresses come next and which allocation fails), \<open>can_reserve\<close>, the
  system's seed, and whether the build checks plain arithmetic.

  \<^bold>\<open>Loops and bounds\<close>

  Loops are recursive functions with a termination proof. Two recursions carry a bound. The parse of a
  subcommand and the release of a parser go down the table by at most the number of identifiers given
  out, since a subcommand has a larger identifier than its parent; with that bound both return, and a larger one
  gives the same parse. Two loops are partial functions and are proved to return: the draining of an ordered
  map follows its link chain, which the invariant keeps finite, and a random draw that rejects candidates
  meets an acceptable one, because the state of the generator takes every 64-bit value.

  \<^bold>\<open>Not modelled\<close>

  \<^item> Concurrency. Each call is one step; locks, atomic orderings and poisoning have no counterpart, nor do
    \<open>sync.rs\<close> and \<open>sync_primitives.rs\<close>, which are threads, locks, channels and atomics of the platform.
  \<^item> Cursors: the deep clone of the heap runs the copy callback on the buffer, not on the cursor table.
  \<^item> Command line: the object layer of handles, the accessors of a parse result, completion and manual
    page texts. Random numbers: the object layer, the distributions and the weighted choice, which compute with
    floats. Mathematics: the functions on floats, from the platform library.
  \<^item> Work done by other crates: \<open>json.rs\<close>, \<open>data.rs\<close> (CSV), \<open>datetime.rs\<close> and \<open>datetime_types.rs\<close>, \<open>url.rs\<close>, \<open>uuid.rs\<close>,
    \<open>regex.rs\<close>, \<open>crypto.rs\<close>, \<open>tls.rs\<close>, \<open>sql.rs\<close>, \<open>net.rs\<close>, \<open>net_types.rs\<close>, \<open>poller.rs\<close>.
  \<^item> Input and output: \<open>io.rs\<close>, \<open>stream.rs\<close>, \<open>process.rs\<close>, \<open>path.rs\<close>, \<open>log.rs\<close>, \<open>coverage.rs\<close>.
\<close>

end
